(* ===== verification/Prelude.thy ===== *)
theory Prelude
  imports Main
begin

text \<open>
  Shared vocabulary of the development. JavaScript values that the sources treat
  by truthiness (\<open>string | undefined\<close>) are \<open>string option\<close>, with \<open>''''\<close>
  falsy as in JavaScript; the operator \<open>||\<close> on them is \<open>js_or\<close>. Code that may
  throw is modelled with results in \<open>'e + 'a list\<close>: \<open>Inl\<close> is the exception,
  \<open>Inr\<close> the list of effects performed; \<open>then_ops\<close> and \<open>seq_ops\<close> sequence
  such computations the way statements follow each other, a throw aborting the rest.
  \<open>Array.prototype.join\<close> is \<open>js_join\<close>, and Node's POSIX \<open>path.join\<close> and
  \<open>path.normalize\<close>, used by the CLI and the test configuration, are
  \<open>path_join_all\<close> and \<open>path_normalize\<close>.
\<close>

named_theorems effect_simps "sequencing of effect lists"

section \<open>JavaScript truthiness of optional strings\<close>

definition js_truthy :: "string option \<Rightarrow> bool" where
  "js_truthy v = (case v of None \<Rightarrow> False | Some s \<Rightarrow> s \<noteq> [])"

definition js_or :: "string option \<Rightarrow> string option \<Rightarrow> string option" where
  "js_or a b = (if js_truthy a then a else b)"

lemma js_truthy_simps [simp]:
  "js_truthy None = False"
  "js_truthy (Some s) = (s \<noteq> [])"
  by (simp_all add: js_truthy_def)

lemma js_or_truthy [simp]: "js_truthy (js_or a b) = (js_truthy a \<or> js_truthy b)"
  by (simp add: js_or_def)

lemma js_or_assoc: "js_or (js_or a b) c = js_or a (js_or b c)"
  by (simp add: js_or_def)

section \<open>Sequencing statements that may throw\<close>

definition then_ops :: "'e + 'a list \<Rightarrow> 'e + 'a list \<Rightarrow> 'e + 'a list" where
  "then_ops r s = (case r of Inl e \<Rightarrow> Inl e
     | Inr xs \<Rightarrow> (case s of Inl e \<Rightarrow> Inl e | Inr ys \<Rightarrow> Inr (xs @ ys)))"

fun seq_ops :: "('e + 'a list) list \<Rightarrow> 'e + 'a list" where
  "seq_ops [] = Inr []"
| "seq_ops (r # rs) = then_ops r (seq_ops rs)"

lemma then_ops_simps [simp, effect_simps]:
  "then_ops (Inl e) s = Inl e"
  "then_ops (Inr xs) (Inl e) = Inl e"
  "then_ops (Inr xs) (Inr ys) = Inr (xs @ ys)"
  by (simp_all add: then_ops_def)

lemma then_ops_Nil [simp, effect_simps]: "then_ops (Inr []) s = s" "then_ops r (Inr []) = r"
  by (auto simp: then_ops_def split: sum.splits)

lemma then_ops_Inr_iff [effect_simps]:
  "then_ops r s = Inr zs \<longleftrightarrow> (\<exists>xs ys. r = Inr xs \<and> s = Inr ys \<and> zs = xs @ ys)"
  by (auto simp: then_ops_def split: sum.splits)

lemma then_ops_isl [effect_simps]: "isl (then_ops r s) \<longleftrightarrow> isl r \<or> isl s"
  by (auto simp: then_ops_def split: sum.splits)

lemma then_ops_assoc: "then_ops (then_ops a b) c = then_ops a (then_ops b c)"
  by (auto simp: then_ops_def split: sum.splits)

lemma seq_ops_append [effect_simps]: "seq_ops (rs @ ss) = then_ops (seq_ops rs) (seq_ops ss)"
  by (induction rs) (auto simp: then_ops_assoc)

lemma seq_ops_isl [effect_simps]: "isl (seq_ops rs) \<longleftrightarrow> (\<exists>r \<in> set rs. isl r)"
  by (induction rs) (auto simp: then_ops_isl)

lemma seq_ops_all_Inr [effect_simps]:
  "seq_ops (map Inr xss) = Inr (concat xss)"
  by (induction xss) auto

lemma seq_ops_Inr_elem:
  assumes "seq_ops rs = Inr zs" and "r \<in> set rs"
  shows "\<exists>xs. r = Inr xs \<and> set xs \<subseteq> set zs"
  using assms
proof (induction rs arbitrary: zs)
  case Nil
  then show ?case by simp
next
  case (Cons r' rs)
  then obtain a b where "r' = Inr a" "seq_ops rs = Inr b" "zs = a @ b"
    by (auto simp: then_ops_Inr_iff)
  with Cons show ?case by auto
qed

lemma then_ops_Inr_parts:
  assumes "then_ops r s = Inr zs"
  shows "\<exists>xs ys. r = Inr xs \<and> s = Inr ys \<and> set xs \<subseteq> set zs \<and> set ys \<subseteq> set zs"
  using assms by (auto simp: then_ops_Inr_iff)

lemma seq_ops_Inr_ex:
  assumes "\<forall>r \<in> set rs. \<not> isl r"
  shows "\<exists>zs. seq_ops rs = Inr zs"
  using assms seq_ops_isl [of rs] by (cases "seq_ops rs") auto

lemma map2_map_same [simp]: "map2 h xs (map f xs) = map (\<lambda>x. h x (f x)) xs"
  by (induction xs) auto

lemma not_isl_Inr: "\<not> isl r \<Longrightarrow> \<exists>xs. r = Inr xs"
  by (cases r) auto

section \<open>Array.prototype.join\<close>

fun js_join :: "string \<Rightarrow> string list \<Rightarrow> string" where
  "js_join sep [] = []"
| "js_join sep [x] = x"
| "js_join sep (x # y # xs) = x @ sep @ js_join sep (y # xs)"

lemma js_join_empty_sep [simp]: "js_join [] xs = concat xs"
  by (induction "[] :: string" xs rule: js_join.induct) auto

lemma js_join_Nil_iff: "js_join sep xs = [] \<longleftrightarrow> (\<forall>x \<in> set xs. x = []) \<and> (sep = [] \<or> length xs \<le> 1)"
  by (induction sep xs rule: js_join.induct) auto

section \<open>POSIX paths (Node's path module)\<close>

text \<open>
  \<open>path.join\<close> and \<open>path.resolve\<close> split a path at \<open>/\<close> and normalise the segments
  as Node's \<open>normalizeString\<close> does: empty and \<open>.\<close> segments vanish, and \<open>..\<close>
  removes the segment before it, unless that is itself \<open>..\<close>. At the start of the
  path a \<open>..\<close> is kept when the path is relative and dropped at the root.
\<close>

fun split_path_aux :: "string \<Rightarrow> string \<Rightarrow> string list" where
  "split_path_aux acc [] = [rev acc]"
| "split_path_aux acc (c # cs) =
     (if c = CHR ''/'' then rev acc # split_path_aux [] cs else split_path_aux (c # acc) cs)"

definition split_path :: "string \<Rightarrow> string list" where
  "split_path p = split_path_aux [] p"

fun norm_segs :: "bool \<Rightarrow> string list \<Rightarrow> string list \<Rightarrow> string list" where
  "norm_segs up acc [] = rev acc"
| "norm_segs up acc (s # ss) =
     (if s = [] \<or> s = ''.'' then norm_segs up acc ss
      else if s = ''..'' then
        (case acc of
           [] \<Rightarrow> norm_segs up (if up then [s] else []) ss
         | x # acc' \<Rightarrow> (if x = ''..'' then norm_segs up (s # acc) ss else norm_segs up acc' ss))
      else norm_segs up (s # acc) ss)"

text \<open>\<open>path.normalize\<close>: a leading and a trailing \<open>/\<close> are kept; an empty result is \<open>.\<close>.\<close>

definition path_normalize :: "string \<Rightarrow> string" where
  "path_normalize p =
     (if p = [] then ''.'' else
      let is_abs = (hd p = CHR ''/''); trail = (last p = CHR ''/'');
          body = js_join ''/'' (norm_segs (\<not> is_abs) [] (split_path p))
      in if body = [] then (if is_abs then ''/'' else if trail then ''./'' else ''.'')
         else (if is_abs then ''/'' else []) @ body @ (if trail then ''/'' else []))"

text \<open>\<open>path.join(...args)\<close>: the non-empty arguments joined with \<open>/\<close>, normalised.\<close>

definition path_join_all :: "string list \<Rightarrow> string" where
  "path_join_all args =
     (let parts = filter (\<lambda>a. a \<noteq> []) args
      in if parts = [] then ''.'' else path_normalize (js_join ''/'' parts))"

text \<open>A segment that normalisation keeps as it is.\<close>

definition plain_seg :: "string \<Rightarrow> bool" where
  "plain_seg s = (s \<noteq> [] \<and> s \<noteq> ''.'' \<and> s \<noteq> ''..'' \<and> CHR ''/'' \<notin> set s)"

lemma split_path_aux_nonempty: "split_path_aux acc p \<noteq> []"
  by (induction acc p rule: split_path_aux.induct) auto

lemma split_path_aux_append_plain:
  "CHR ''/'' \<notin> set x \<Longrightarrow> split_path_aux acc (x @ r) = split_path_aux (rev x @ acc) r"
  by (induction x arbitrary: acc) auto

lemma js_join_Cons_Cons: "ys \<noteq> [] \<Longrightarrow> js_join sep (x # ys) = x @ sep @ js_join sep ys"
  by (cases ys) auto

lemma js_join_split_path_aux: "js_join ''/'' (split_path_aux acc p) = rev acc @ p"
  by (induction acc p rule: split_path_aux.induct) (auto simp: js_join_Cons_Cons split_path_aux_nonempty)

lemma js_join_snoc: "xs \<noteq> [] \<Longrightarrow> js_join sep (xs @ [y]) = js_join sep xs @ sep @ y"
  by (induction sep xs rule: js_join.induct) auto

lemma split_path_js_join:
  "\<forall>s \<in> set (x # xs). CHR ''/'' \<notin> set s \<Longrightarrow> split_path_aux acc (js_join ''/'' (x # xs)) = (rev acc @ x) # xs"
proof (induction xs arbitrary: acc x)
  case Nil
  then show ?case using split_path_aux_append_plain [of x acc "[]"] by simp
next
  case (Cons y ys)
  then show ?case using split_path_aux_append_plain [of x acc "CHR ''/'' # js_join ''/'' (y # ys)"] by simp
qed

lemma norm_segs_plain: "\<forall>s \<in> set segs. plain_seg s \<Longrightarrow> norm_segs up acc segs = rev acc @ segs"
  by (induction segs arbitrary: acc) (auto simp: plain_seg_def)

text \<open>Joining a path in normal form and a plain file name is concatenation with \<open>/\<close>.\<close>

lemma path_join_all_plain:
  assumes "\<forall>s \<in> set (split_path a). plain_seg s" and "plain_seg f"
  shows "path_join_all [a, f] = a @ ''/'' @ f"
proof -
  have sa: "split_path a \<noteq> []" by (simp add: split_path_def split_path_aux_nonempty)
  have ja: "js_join ''/'' (split_path a) = a" by (simp add: split_path_def js_join_split_path_aux)
  obtain x xs where xs: "split_path a = x # xs" using sa by (cases "split_path a") auto
  have a_ne: "a \<noteq> []" using assms(1) by (auto simp: split_path_def plain_seg_def)
  have hd_a: "hd a \<noteq> CHR ''/''"
  proof
    assume "hd a = CHR ''/''"
    then have "a = CHR ''/'' # tl a" using a_ne by (cases a) auto
    then have "split_path a = [] # split_path (tl a)" by (metis split_path_def split_path_aux.simps(2) rev.simps(1))
    then show False using assms(1) by (simp add: plain_seg_def)
  qed
  have j: "js_join ''/'' (split_path a @ [f]) = a @ ''/'' @ f" using sa ja by (simp add: js_join_snoc)
  have slash: "\<forall>s \<in> set (split_path a @ [f]). CHR ''/'' \<notin> set s" using assms by (auto simp: plain_seg_def)
  have sp: "split_path (a @ ''/'' @ f) = split_path a @ [f]"
    using split_path_js_join [of x "xs @ [f]" "[]"] slash j xs by (simp add: split_path_def)
  have f_ne: "f \<noteq> []" using assms(2) by (simp add: plain_seg_def)
  have "last f \<in> set f" using f_ne by simp
  then have "last f \<noteq> CHR ''/''" using assms(2) unfolding plain_seg_def by metis
  then have lf: "last (a @ ''/'' @ f) \<noteq> CHR ''/''" using f_ne by simp
  show ?thesis
    using a_ne f_ne hd_a lf sp j assms by (simp add: path_join_all_def path_normalize_def norm_segs_plain Let_def)
qed
section \<open>Integer intervals\<close>

lemma image_shift_int: "(\<lambda>k::int. k + c) ` {a..b} = {a + c..b + c}"
proof
  show "(\<lambda>k. k + c) ` {a..b} \<subseteq> {a + c..b + c}" by auto
  show "{a + c..b + c} \<subseteq> (\<lambda>k. k + c) ` {a..b}"
  proof
    fix x assume "x \<in> {a + c..b + c}"
    then have "x - c \<in> {a..b}" by auto
    then show "x \<in> (\<lambda>k. k + c) ` {a..b}" by (rule rev_image_eqI) simp
  qed
qed

end
