(* ===== verification/AgentGraph.thy ===== *)
theory AgentGraph
  imports Prelude
begin

text \<open>
  The graph view of an agent tree (src/dev/src/server/agent_graph.ts). The agents
  and tools are the classes of the library the file imports, reduced to what the
  drawing code reads: an agent's class, name, sub-agents and (for an LlmAgent) its
  canonical tools. The Graphviz graph is not a value of its own: \<open>buildGraph\<close>
  is modelled by the list of calls it makes on the graph objects
  (\<open>addSubgraph\<close>, \<open>addNode\<close>, \<open>addEdge\<close>), each tagged with the graph it
  is made on, a path of subgraph ids from the root digraph. An access
  \<open>agent.subAgents[0].name\<close> on an empty list throws a TypeError, the \<open>Inl\<close>
  branch of the result.
\<close>

datatype agent_kind = LlmAgentK | SequentialK | LoopK | ParallelK | OtherAgentK

datatype tool = FunctionToolT string | AgentToolT string | OtherToolT string

datatype agent = Agent (agent_kind: agent_kind) (agent_name: string)
  (sub_agents: "agent list") (agent_tools: "tool list")

datatype node_ref = NodeA agent | NodeT tool

datatype graph_error = TypeError

type_synonym gid = "string list"
type_synonym attrs = "(string \<times> string) list"
type_synonym highlights = "(string \<times> string) list"

datatype gop =
    AddSubgraph gid string attrs
  | AddNode gid string attrs
  | AddEdge gid string string attrs

type_synonym gresult = "graph_error + gop list"

definition DARK_GREEN :: string where "DARK_GREEN = ''#0F5223''"
definition LIGHT_GREEN :: string where "LIGHT_GREEN = ''#69CB87''"
definition LIGHT_GRAY :: string where "LIGHT_GRAY = ''#cccccc''"
definition WHITE :: string where "WHITE = ''#ffffff''"

text \<open>
  The two icons of the captions, as the UTF-8 bytes that agent_graph.ts holds at
  lines 217-229. These are not the robot and wrench emoji: they are the emoji's bytes
  read as Mac Roman and re-encoded, four characters each (U+F8FF, u with diaeresis, and two
  Latin letters or signs).
\<close>

definition robot_icon :: string where
  "robot_icon = map char_of [0xEF :: nat, 0xA3, 0xBF, 0xC3, 0xBC, 0xC2, 0xA7, 0xC3, 0xB1]"

definition wrench_icon :: string where
  "wrench_icon = map char_of [0xEF :: nat, 0xA3, 0xBF, 0xC3, 0xBC, 0xC3, 0xAE, 0xC3, 0x9F]"

fun tool_name :: "tool \<Rightarrow> string" where
  "tool_name (FunctionToolT n) = n"
| "tool_name (AgentToolT n) = n"
| "tool_name (OtherToolT n) = n"

fun getNodeName :: "node_ref \<Rightarrow> string" where
  "getNodeName (NodeA a) =
     (case agent_kind a of
        SequentialK \<Rightarrow> agent_name a @ '' (Sequential Agent)''
      | LoopK \<Rightarrow> agent_name a @ '' (Loop Agent)''
      | ParallelK \<Rightarrow> agent_name a @ '' (Parallel Agent)''
      | _ \<Rightarrow> agent_name a)"
| "getNodeName (NodeT t) = tool_name t"

fun getNodeCaption :: "node_ref \<Rightarrow> string" where
  "getNodeCaption (NodeA a) = robot_icon @ '' '' @ agent_name a"
| "getNodeCaption (NodeT (FunctionToolT n)) = wrench_icon @ '' '' @ n"
| "getNodeCaption (NodeT (AgentToolT n)) = robot_icon @ '' '' @ n"
| "getNodeCaption (NodeT (OtherToolT n)) = wrench_icon @ '' '' @ n"

fun getNodeShape :: "node_ref \<Rightarrow> string" where
  "getNodeShape (NodeA a) = ''ellipse''"
| "getNodeShape (NodeT t) = ''box''"

fun shouldBuildAgentCluster :: "node_ref \<Rightarrow> bool" where
  "shouldBuildAgentCluster (NodeA a) = (agent_kind a \<in> {SequentialK, LoopK, ParallelK})"
| "shouldBuildAgentCluster (NodeT t) = False"

abbreviation is_cluster :: "agent \<Rightarrow> bool" where
  "is_cluster a \<equiv> shouldBuildAgentCluster (NodeA a)"

section \<open>drawEdge\<close>

text \<open>
  The loop over the highlighted pairs: the first pair naming the edge decides, a
  pair in the edge's direction before a reversed one.
\<close>

fun highlight_dir :: "highlights \<Rightarrow> string \<Rightarrow> string \<Rightarrow> bool option" where
  "highlight_dir [] f t = None"
| "highlight_dir ((hf, ht) # ps) f t =
     (if f = hf \<and> t = ht then Some True
      else if f = ht \<and> t = hf then Some False
      else highlight_dir ps f t)"

definition drawEdge :: "gid \<Rightarrow> agent \<Rightarrow> highlights \<Rightarrow> string \<Rightarrow> string \<Rightarrow> gop list" where
  "drawEdge g rootAgent hl fromName toName =
     (case highlight_dir hl fromName toName of
        Some True \<Rightarrow> [AddEdge g fromName toName [(''color'', LIGHT_GREEN)]]
      | Some False \<Rightarrow> [AddEdge g fromName toName [(''color'', LIGHT_GREEN), (''dir'', ''back'')]]
      | None \<Rightarrow>
          (if is_cluster rootAgent
           then [AddEdge g fromName toName [(''color'', LIGHT_GREEN)]]
           else [AddEdge g fromName toName [(''arrowhead'', ''none''), (''color'', LIGHT_GRAY)]]))"

section \<open>drawNode\<close>

definition cluster_id :: "string \<Rightarrow> string" where
  "cluster_id nm = ''cluster_'' @ nm"

definition cluster_attrs :: "string \<Rightarrow> attrs" where
  "cluster_attrs nm = [(''label'', cluster_id nm), (''style'', ''rounded''),
     (''bgcolor'', WHITE), (''fontcolor'', LIGHT_GRAY)]"

definition highlighted_node_attrs :: "node_ref \<Rightarrow> attrs" where
  "highlighted_node_attrs x = [(''label'', getNodeCaption x), (''style'', ''filled,rounded''),
     (''fillcolor'', DARK_GREEN), (''color'', DARK_GREEN), (''shape'', getNodeShape x),
     (''fontcolor'', LIGHT_GRAY)]"

definition plain_node_attrs :: "node_ref \<Rightarrow> attrs" where
  "plain_node_attrs x = [(''label'', getNodeCaption x), (''style'', ''rounded''),
     (''fillcolor'', WHITE), (''color'', LIGHT_GRAY), (''shape'', getNodeShape x),
     (''fontcolor'', LIGHT_GRAY)]"

definition in_highlights :: "highlights \<Rightarrow> string \<Rightarrow> bool" where
  "in_highlights hl nm = (\<exists>(a, b) \<in> set hl. a = nm \<or> b = nm)"

text \<open>
  \<open>drawNode g hl x cl\<close>: \<open>cl\<close> is what \<open>buildCluster(cluster, rootAgent)\<close>
  does, performed only on the branches that draw \<open>x\<close> as a cluster.
\<close>

definition drawNode :: "gid \<Rightarrow> highlights \<Rightarrow> node_ref \<Rightarrow> gresult \<Rightarrow> gresult" where
  "drawNode g hl x cl =
     (let nm = getNodeName x in
      if in_highlights hl nm then
        (if shouldBuildAgentCluster x
         then then_ops (Inr [AddSubgraph g (cluster_id nm) (cluster_attrs nm)]) cl
         else Inr [AddNode g nm (highlighted_node_attrs x)])
      else if shouldBuildAgentCluster x
        then then_ops (Inr [AddSubgraph g (cluster_id nm) (cluster_attrs nm)]) cl
      else Inr [AddNode g nm (plain_node_attrs x)])"

section \<open>buildCluster\<close>

text \<open>
  The four branches of \<open>buildCluster\<close>, given the agent, the enclosing
  \<open>parentAgent\<close> and the results of the recursive \<open>buildGraph\<close> calls on the
  sub-agents (in order). Edges are drawn on \<open>g\<close>, the graph of the enclosing
  \<open>buildGraph\<close> call, not on the cluster.
\<close>

definition parent_edge :: "gid \<Rightarrow> agent \<Rightarrow> highlights \<Rightarrow> agent option \<Rightarrow> gresult" where
  "parent_edge g a hl parent =
     (case parent of
        None \<Rightarrow> Inr []
      | Some p \<Rightarrow> (case sub_agents a of
          [] \<Rightarrow> Inl TypeError
        | s0 # _ \<Rightarrow> Inr (drawEdge g a hl (agent_name p) (agent_name s0))))"

definition loop_cluster :: "gid \<Rightarrow> agent \<Rightarrow> highlights \<Rightarrow> agent option \<Rightarrow> gresult list \<Rightarrow> gresult" where
  "loop_cluster g a hl parent inner =
     (let subs = sub_agents a; n = length subs in
      then_ops (parent_edge g a hl parent)
        (seq_ops (map (\<lambda>i. then_ops (inner ! i)
            (Inr (drawEdge g a hl (agent_name (subs ! i))
                    (agent_name (if i = n - 1 then subs ! 0 else subs ! (i + 1))))))
          [0..<n])))"

definition sequential_cluster :: "gid \<Rightarrow> agent \<Rightarrow> highlights \<Rightarrow> agent option \<Rightarrow> gresult list \<Rightarrow> gresult" where
  "sequential_cluster g a hl parent inner =
     (let subs = sub_agents a; n = length subs in
      then_ops (parent_edge g a hl parent)
        (seq_ops (map (\<lambda>i. then_ops (inner ! i)
            (Inr (if i \<noteq> n - 1
                  then drawEdge g a hl (agent_name (subs ! i)) (agent_name (subs ! (i + 1)))
                  else [])))
          [0..<n])))"

definition parallel_cluster :: "gid \<Rightarrow> agent \<Rightarrow> highlights \<Rightarrow> agent option \<Rightarrow> gresult list \<Rightarrow> gresult" where
  "parallel_cluster g a hl parent inner =
     seq_ops (map (\<lambda>i. then_ops (inner ! i)
         (Inr (case parent of None \<Rightarrow> []
               | Some p \<Rightarrow> drawEdge g a hl (agent_name p) (agent_name (sub_agents a ! i)))))
       [0..<length (sub_agents a)])"

definition other_cluster :: "gid \<Rightarrow> agent \<Rightarrow> highlights \<Rightarrow> gresult list \<Rightarrow> gresult" where
  "other_cluster g a hl inner =
     seq_ops (map (\<lambda>i. then_ops (inner ! i)
         (Inr (drawEdge g a hl (agent_name a) (agent_name (sub_agents a ! i)))))
       [0..<length (sub_agents a)])"

definition buildCluster :: "gid \<Rightarrow> agent \<Rightarrow> highlights \<Rightarrow> agent option \<Rightarrow> gresult list \<Rightarrow> gresult" where
  "buildCluster g a hl parent inner =
     (case agent_kind a of
        LoopK \<Rightarrow> loop_cluster g a hl parent inner
      | SequentialK \<Rightarrow> sequential_cluster g a hl parent inner
      | ParallelK \<Rightarrow> parallel_cluster g a hl parent inner
      | _ \<Rightarrow> other_cluster g a hl inner)"

section \<open>buildGraph\<close>

text \<open>
  The edge drawn after each recursive call of the main loop, and the tools loop of
  an LlmAgent. A tool is never drawn as a cluster, so \<open>drawNode(tool)\<close> never
  reaches \<open>buildCluster\<close>; its cluster argument is \<open>Inr []\<close>.
\<close>

definition sub_edge :: "gid \<Rightarrow> agent \<Rightarrow> highlights \<Rightarrow> agent \<Rightarrow> gop list" where
  "sub_edge g a hl s =
     (if \<not> is_cluster s \<and> \<not> is_cluster a
      then drawEdge g a hl (agent_name a) (agent_name s) else [])"

definition tool_ops :: "gid \<Rightarrow> agent \<Rightarrow> highlights \<Rightarrow> gresult" where
  "tool_ops g a hl =
     (if agent_kind a = LlmAgentK
      then seq_ops (map (\<lambda>t. then_ops (drawNode g hl (NodeT t) (Inr []))
             (Inr (drawEdge g a hl (agent_name a) (getNodeName (NodeT t))))) (agent_tools a))
      else Inr [])"

fun buildGraph :: "gid \<Rightarrow> agent \<Rightarrow> highlights \<Rightarrow> agent option \<Rightarrow> gresult" where
  "buildGraph g (Agent k nm subs ts) hl parent =
     (let a = Agent k nm subs ts;
          c = g @ [cluster_id (getNodeName (NodeA a))];
          inner = map (\<lambda>s. buildGraph c s hl (Some a)) subs;
          outer = map (\<lambda>s. buildGraph g s hl (Some a)) subs
      in then_ops (drawNode g hl (NodeA a) (buildCluster g a hl parent inner))
          (then_ops (seq_ops (map2 (\<lambda>s r. then_ops r (Inr (sub_edge g a hl s))) subs outer))
            (tool_ops g a hl)))"

definition getAgentGraph :: "agent \<Rightarrow> highlights \<Rightarrow> gresult" where
  "getAgentGraph rootAgent hl = buildGraph [] rootAgent hl None"

section \<open>Characterising predicates\<close>

definition empty_composite :: "agent \<Rightarrow> bool" where
  "empty_composite a \<longleftrightarrow> agent_kind a \<in> {SequentialK, LoopK} \<and> sub_agents a = []"

fun nested_empty :: "agent \<Rightarrow> bool" where
  "nested_empty (Agent k nm subs ts) = list_ex (\<lambda>s. empty_composite s \<or> nested_empty s) subs"

text \<open>
  The agents of a tree (preorder), the tools of its LlmAgents, and the names of its
  composite agents, which are drawn as clusters rather than nodes.
\<close>

fun agents_of :: "agent \<Rightarrow> agent list" where
  "agents_of (Agent k nm subs ts) = Agent k nm subs ts # concat (map agents_of subs)"

definition tree_tools :: "agent \<Rightarrow> string set" where
  "tree_tools a = (\<Union>b \<in> set (agents_of a).
     if agent_kind b = LlmAgentK then tool_name ` set (agent_tools b) else {})"

definition cluster_names :: "agent \<Rightarrow> string set" where
  "cluster_names a = agent_name ` set (filter is_cluster (agents_of a))"

text \<open>The names an edge call refers to, and the nodes a list of calls adds.\<close>

fun op_ends :: "gop \<Rightarrow> string set" where
  "op_ends (AddEdge g f t at) = {f, t}"
| "op_ends (AddNode g n at) = {}"
| "op_ends (AddSubgraph g i at) = {}"

definition edge_ends :: "gop list \<Rightarrow> string set" where
  "edge_ends ops = (\<Union>z \<in> set ops. op_ends z)"

fun op_node :: "gop \<Rightarrow> string set" where
  "op_node (AddNode g n at) = {n}"
| "op_node (AddEdge g f t at) = {}"
| "op_node (AddSubgraph g i at) = {}"

definition drawn_nodes :: "gop list \<Rightarrow> string set" where
  "drawn_nodes ops = (\<Union>z \<in> set ops. op_node z)"

text \<open>A SequentialAgent whose second sub-agent is itself a SequentialAgent.\<close>

definition nested_seq :: agent where
  "nested_seq = Agent SequentialK ''root''
     [Agent LlmAgentK ''a'' [] [], Agent SequentialK ''b'' [Agent LlmAgentK ''c'' [] []] []] []"

section \<open>Unfolding and error propagation\<close>

lemma drawNode_isl: "isl (drawNode g hl x cl) \<longleftrightarrow> shouldBuildAgentCluster x \<and> isl cl"
  by (simp add: drawNode_def Let_def then_ops_isl)

lemma seq_ops_then_isl:
  "isl (seq_ops (map (\<lambda>i. then_ops (f i) (Inr (h i))) xs)) \<longleftrightarrow> (\<exists>i \<in> set xs. isl (f i))"
  by (simp add: seq_ops_isl then_ops_isl)

lemma parent_edge_isl:
  "isl (parent_edge g a hl parent) \<longleftrightarrow> parent \<noteq> None \<and> sub_agents a = []"
  by (auto simp: parent_edge_def split: option.splits list.splits)

lemma ex_nth_isl: "length inner = n \<Longrightarrow> (\<exists>i \<in> set [0..<n]. isl (inner ! i)) \<longleftrightarrow> (\<exists>r \<in> set inner. isl r)"
  by (auto simp: set_conv_nth)

lemma chain_cluster_isl:
  assumes "length inner = length (sub_agents a)"
  shows "isl (then_ops (parent_edge g a hl parent)
            (seq_ops (map (\<lambda>i. then_ops (inner ! i) (Inr (h i))) [0..<length (sub_agents a)]))) \<longleftrightarrow>
         (parent \<noteq> None \<and> sub_agents a = []) \<or> (\<exists>r \<in> set inner. isl r)"
  using assms by (simp only: then_ops_isl parent_edge_isl seq_ops_then_isl ex_nth_isl)

lemma buildCluster_isl:
  assumes "length inner = length (sub_agents a)"
  shows "isl (buildCluster g a hl parent inner) \<longleftrightarrow>
    (agent_kind a \<in> {SequentialK, LoopK} \<and> parent \<noteq> None \<and> sub_agents a = []) \<or> (\<exists>r \<in> set inner. isl r)"
proof (cases "agent_kind a")
  case LoopK
  then show ?thesis using chain_cluster_isl [OF assms]
    by (simp add: buildCluster_def loop_cluster_def Let_def)
next
  case SequentialK
  then show ?thesis using chain_cluster_isl [OF assms]
    by (simp add: buildCluster_def sequential_cluster_def Let_def)
next
  case ParallelK
  then show ?thesis using assms
    by (simp only: buildCluster_def parallel_cluster_def agent_kind.case seq_ops_then_isl ex_nth_isl) simp
qed (simp_all only: buildCluster_def other_cluster_def agent_kind.case seq_ops_then_isl ex_nth_isl assms, simp_all)

lemma tool_ops_not_isl: "\<not> isl (tool_ops g a hl)"
  by (simp add: tool_ops_def drawNode_def Let_def seq_ops_isl then_ops_isl)

lemma buildGraph_isl:
  "isl (buildGraph g a hl parent) \<longleftrightarrow> (parent \<noteq> None \<and> empty_composite a) \<or> nested_empty a"
proof (induction g a hl parent rule: buildGraph.induct)
  case (1 g k nm subs ts hl parent)
  let ?a = "Agent k nm subs ts"
  let ?c = "g @ [cluster_id (getNodeName (NodeA ?a))]"
  have inner: "isl (buildGraph ?c s hl (Some ?a)) \<longleftrightarrow> empty_composite s \<or> nested_empty s"
    if "s \<in> set subs" for s
    using that "1.IH"(1) by simp
  have outer: "isl (buildGraph g s hl (Some ?a)) \<longleftrightarrow> empty_composite s \<or> nested_empty s"
    if "s \<in> set subs" for s
    using that "1.IH"(2) by simp
  have cl: "isl (buildCluster g ?a hl parent (map (\<lambda>s. buildGraph ?c s hl (Some ?a)) subs)) \<longleftrightarrow>
     (k \<in> {SequentialK, LoopK} \<and> parent \<noteq> None \<and> subs = []) \<or> list_ex (\<lambda>s. empty_composite s \<or> nested_empty s) subs"
    by (auto simp: buildCluster_isl list_ex_iff inner simp del: getNodeName.simps)
  have ou: "isl (seq_ops (map (\<lambda>s. then_ops (buildGraph g s hl (Some ?a)) (Inr (sub_edge g ?a hl s))) subs)) \<longleftrightarrow>
     list_ex (\<lambda>s. empty_composite s \<or> nested_empty s) subs"
    by (auto simp: seq_ops_isl then_ops_isl list_ex_iff outer)
  show ?case
    by (simp only: buildGraph.simps Let_def map2_map_same then_ops_isl drawNode_isl cl ou
        tool_ops_not_isl)
       (auto simp: empty_composite_def)
qed
section \<open>What a successful drawing contains\<close>

lemma buildGraph_parts:
  assumes "buildGraph g a hl parent = Inr ops"
  defines "c \<equiv> g @ [cluster_id (getNodeName (NodeA a))]"
  shows "\<exists>xs ys zs. drawNode g hl (NodeA a)
             (buildCluster g a hl parent (map (\<lambda>s. buildGraph c s hl (Some a)) (sub_agents a))) = Inr xs
         \<and> seq_ops (map (\<lambda>s. then_ops (buildGraph g s hl (Some a)) (Inr (sub_edge g a hl s)))
               (sub_agents a)) = Inr ys
         \<and> tool_ops g a hl = Inr zs \<and> ops = xs @ ys @ zs"
  using assms by (cases a) (auto simp: Let_def then_ops_Inr_iff)

lemma drawNode_cluster_Inr:
  assumes "drawNode g hl x cl = Inr xs" and "shouldBuildAgentCluster x"
  shows "\<exists>cs. cl = Inr cs \<and> xs = AddSubgraph g (cluster_id (getNodeName x)) (cluster_attrs (getNodeName x)) # cs"
  using assms by (auto simp: drawNode_def Let_def then_ops_Inr_iff split: if_splits)

lemma drawNode_leaf:
  assumes "\<not> shouldBuildAgentCluster x"
  shows "drawNode g hl x cl = Inr [AddNode g (getNodeName x)
     (if in_highlights hl (getNodeName x) then highlighted_node_attrs x else plain_node_attrs x)]"
  using assms by (simp add: drawNode_def Let_def)

lemma buildGraph_cluster_ops:
  assumes "buildGraph g a hl parent = Inr ops" and "is_cluster a"
  shows "\<exists>cs. buildCluster g a hl parent
            (map (\<lambda>s. buildGraph (g @ [cluster_id (getNodeName (NodeA a))]) s hl (Some a)) (sub_agents a))
          = Inr cs \<and> set cs \<subseteq> set ops"
  using buildGraph_parts [OF assms(1)] drawNode_cluster_Inr assms(2) by fastforce

lemma buildGraph_sub_ops:
  assumes "buildGraph g a hl parent = Inr ops" and "s \<in> set (sub_agents a)"
  shows "\<exists>xs. buildGraph g s hl (Some a) = Inr xs \<and> set xs \<subseteq> set ops"
proof -
  from buildGraph_parts [OF assms(1)] obtain xs ys zs where
    ys: "seq_ops (map (\<lambda>s. then_ops (buildGraph g s hl (Some a)) (Inr (sub_edge g a hl s)))
          (sub_agents a)) = Inr ys" and ops: "ops = xs @ ys @ zs"
    by blast
  from ops have sub: "set ys \<subseteq> set ops" by auto
  from seq_ops_Inr_elem [OF ys] assms(2) obtain zs where
    "then_ops (buildGraph g s hl (Some a)) (Inr (sub_edge g a hl s)) = Inr zs" "set zs \<subseteq> set ys"
    by fastforce
  with sub show ?thesis by (auto dest!: then_ops_Inr_parts)
qed

lemma buildGraph_leaf_node:
  assumes "buildGraph g a hl parent = Inr ops" and "\<not> is_cluster a"
  shows "AddNode g (getNodeName (NodeA a))
     (if in_highlights hl (getNodeName (NodeA a)) then highlighted_node_attrs (NodeA a)
      else plain_node_attrs (NodeA a)) \<in> set ops"
  using buildGraph_parts [OF assms(1)] drawNode_leaf [OF assms(2)] by fastforce

lemma cluster_step_edge:
  assumes "\<exists>cs. seq_ops (map (\<lambda>i. then_ops (inner i) (Inr (h i))) [0..<n]) = Inr cs \<and> set cs \<subseteq> set ops"
    and "i < n"
  shows "set (h i) \<subseteq> set ops"
proof -
  from assms(1) obtain cs where cs: "seq_ops (map (\<lambda>i. then_ops (inner i) (Inr (h i))) [0..<n]) = Inr cs"
    and sub: "set cs \<subseteq> set ops" by blast
  from seq_ops_Inr_elem [OF cs] assms(2) obtain xs where
    "then_ops (inner i) (Inr (h i)) = Inr xs" "set xs \<subseteq> set cs"
    by fastforce
  with sub show ?thesis by (auto dest!: then_ops_Inr_parts)
qed

lemma root_cluster_steps:
  assumes "getAgentGraph (Agent k nm subs ts) hl = Inr ops" and "k \<in> {SequentialK, LoopK}"
  shows "\<exists>cs. seq_ops (map (\<lambda>i. then_ops
        (map (\<lambda>s. buildGraph [cluster_id (getNodeName (NodeA (Agent k nm subs ts)))] s hl
           (Some (Agent k nm subs ts))) subs ! i)
        (Inr (if k = LoopK
              then drawEdge [] (Agent k nm subs ts) hl (agent_name (subs ! i))
                (agent_name (if i = length subs - 1 then subs ! 0 else subs ! (i + 1)))
              else if i \<noteq> length subs - 1
              then drawEdge [] (Agent k nm subs ts) hl (agent_name (subs ! i)) (agent_name (subs ! (i + 1)))
              else []))) [0..<length subs]) = Inr cs \<and> set cs \<subseteq> set ops"
proof -
  from assms(2) have cl: "is_cluster (Agent k nm subs ts)" by auto
  from buildGraph_cluster_ops [OF assms(1) [unfolded getAgentGraph_def] cl] obtain cs where
    "buildCluster [] (Agent k nm subs ts) hl None
       (map (\<lambda>s. buildGraph [cluster_id (getNodeName (NodeA (Agent k nm subs ts)))] s hl
          (Some (Agent k nm subs ts))) subs) = Inr cs" "set cs \<subseteq> set ops"
    by auto
  with assms(2) show ?thesis
    by (auto simp: buildCluster_def loop_cluster_def sequential_cluster_def parent_edge_def Let_def
        simp del: getNodeName.simps)
qed

lemma getNodeName_leaf: "\<not> is_cluster a \<Longrightarrow> getNodeName (NodeA a) = agent_name a"
  by (cases "agent_kind a") simp_all

lemma indexed_steps_inner:
  assumes "seq_ops (map (\<lambda>i. then_ops (inner ! i) (Inr (h i))) [0..<length inner]) = Inr cs"
    and "r \<in> set inner"
  shows "\<exists>xs. r = Inr xs \<and> set xs \<subseteq> set cs"
proof -
  from assms(2) obtain i where i: "i < length inner" "r = inner ! i" by (auto simp: in_set_conv_nth)
  from seq_ops_Inr_elem [OF assms(1)] i obtain ys where
    "then_ops (inner ! i) (Inr (h i)) = Inr ys" "set ys \<subseteq> set cs"
    by fastforce
  with i show ?thesis by (auto dest!: then_ops_Inr_parts)
qed

lemma buildCluster_inner_ops:
  assumes "buildCluster g a hl parent inner = Inr cs" and "length inner = length (sub_agents a)"
    and "r \<in> set inner"
  shows "\<exists>xs. r = Inr xs \<and> set xs \<subseteq> set cs"
proof (cases "agent_kind a")
  case LoopK
  with assms(1,2) obtain ys where
    "seq_ops (map (\<lambda>i. then_ops (inner ! i) (Inr (drawEdge g a hl (agent_name (sub_agents a ! i))
       (agent_name (if i = length inner - 1 then sub_agents a ! 0 else sub_agents a ! (i + 1))))))
       [0..<length inner]) = Inr ys" "set ys \<subseteq> set cs"
    by (auto simp: buildCluster_def loop_cluster_def Let_def then_ops_Inr_iff)
  with indexed_steps_inner assms(3) show ?thesis by fastforce
next
  case SequentialK
  with assms(1,2) obtain ys where
    "seq_ops (map (\<lambda>i. then_ops (inner ! i) (Inr (if i \<noteq> length inner - 1
       then drawEdge g a hl (agent_name (sub_agents a ! i)) (agent_name (sub_agents a ! (i + 1)))
       else []))) [0..<length inner]) = Inr ys" "set ys \<subseteq> set cs"
    by (auto simp: buildCluster_def sequential_cluster_def Let_def then_ops_Inr_iff)
  with indexed_steps_inner assms(3) show ?thesis by fastforce
next
  case ParallelK
  with assms show ?thesis
    by (intro indexed_steps_inner) (auto simp: buildCluster_def parallel_cluster_def)
next
  case LlmAgentK
  with assms show ?thesis
    by (intro indexed_steps_inner) (auto simp: buildCluster_def other_cluster_def)
next
  case OtherAgentK
  with assms show ?thesis
    by (intro indexed_steps_inner) (auto simp: buildCluster_def other_cluster_def)
qed

lemma tool_ops_Inr_elem:
  assumes "tool_ops g a hl = Inr zs" and "agent_kind a = LlmAgentK" and "t \<in> set (agent_tools a)"
  shows "AddNode g (tool_name t) (if in_highlights hl (tool_name t) then highlighted_node_attrs (NodeT t)
           else plain_node_attrs (NodeT t)) \<in> set zs
    \<and> set (drawEdge g a hl (agent_name a) (tool_name t)) \<subseteq> set zs"
proof -
  from assms(1,2) have "seq_ops (map (\<lambda>t. then_ops (drawNode g hl (NodeT t) (Inr []))
      (Inr (drawEdge g a hl (agent_name a) (getNodeName (NodeT t))))) (agent_tools a)) = Inr zs"
    by (simp add: tool_ops_def)
  from seq_ops_Inr_elem [OF this] assms(3) obtain xs where
    "then_ops (drawNode g hl (NodeT t) (Inr [])) (Inr (drawEdge g a hl (agent_name a) (tool_name t))) = Inr xs"
    "set xs \<subseteq> set zs"
    by fastforce
  then show ?thesis using drawNode_leaf [of "NodeT t" g hl "Inr []"] by (auto simp: then_ops_Inr_iff)
qed

section \<open>Edges refer to drawn nodes or to clusters\<close>

lemma seq_ops_Inr_from:
  "seq_ops rs = Inr zs \<Longrightarrow> z \<in> set zs \<Longrightarrow> \<exists>r \<in> set rs. \<exists>ys. r = Inr ys \<and> z \<in> set ys"
proof (induction rs arbitrary: zs)
  case (Cons r rs)
  then show ?case by (auto simp: then_ops_Inr_iff)
qed simp

lemma steps_from:
  assumes "seq_ops (map (\<lambda>i. then_ops (f i) (Inr (h i))) xs) = Inr cs" and "z \<in> set cs"
  shows "\<exists>i \<in> set xs. (\<exists>ys. f i = Inr ys \<and> z \<in> set ys) \<or> z \<in> set (h i)"
proof -
  from seq_ops_Inr_from [OF assms] obtain i ys where
    "i \<in> set xs" "then_ops (f i) (Inr (h i)) = Inr ys" "z \<in> set ys"
    by auto
  then show ?thesis by (force simp: then_ops_Inr_iff)
qed

lemma steps_edges:
  assumes "seq_ops (map (\<lambda>i. then_ops (inner ! i) (Inr (h i))) [0..<n]) = Inr cs" and "z \<in> set cs"
    and "\<And>i. i < n \<Longrightarrow> z \<in> set (h i) \<Longrightarrow> op_ends z \<subseteq> N"
  shows "(\<exists>i < n. \<exists>ys. inner ! i = Inr ys \<and> z \<in> set ys) \<or> op_ends z \<subseteq> N"
proof -
  from steps_from [OF assms(1,2)] obtain i where i: "i < n"
    and d: "(\<exists>ys. inner ! i = Inr ys \<and> z \<in> set ys) \<or> z \<in> set (h i)"
    by auto
  show ?thesis
  proof (cases "z \<in> set (h i)")
    case True
    then show ?thesis using assms(3) [OF i] by blast
  next
    case False
    with d i show ?thesis by blast
  qed
qed

lemma drawEdge_ends: "z \<in> set (drawEdge g a hl f t) \<Longrightarrow> op_ends z = {f, t}"
  by (auto simp: drawEdge_def split: option.splits bool.splits if_splits)

lemma drawNode_from:
  assumes "drawNode g hl x cl = Inr xs" and "z \<in> set xs"
  shows "op_ends z = {} \<or> (\<exists>cs. cl = Inr cs \<and> z \<in> set cs)"
  using assms by (auto simp: drawNode_def Let_def then_ops_Inr_iff split: if_splits)

lemma agents_of_self [simp]: "a \<in> set (agents_of a)"
  by (cases a) simp

lemma agents_of_sub:
  "s \<in> set (sub_agents a) \<Longrightarrow> set (agents_of s) \<subseteq> set (agents_of a)"
  by (cases a) auto

lemma tree_tools_sub: "s \<in> set (sub_agents a) \<Longrightarrow> tree_tools s \<subseteq> tree_tools a"
  using agents_of_sub by (fastforce simp: tree_tools_def)

lemma nth_sub_name:
  "i < length (sub_agents a) \<Longrightarrow> agent_name (sub_agents a ! i) \<in> agent_name ` set (agents_of a)"
  using agents_of_sub [of "sub_agents a ! i" a] nth_mem by fastforce

text \<open>
  An edge of \<open>buildCluster\<close> joins two of: the parent, the agent and its sub-agents;
  every other call comes from the drawing of a sub-agent in the cluster.
\<close>

lemma buildCluster_from:
  assumes "buildCluster g a hl parent inner = Inr cs" and "length inner = length (sub_agents a)"
    and "z \<in> set cs"
  shows "(\<exists>i < length inner. \<exists>ys. inner ! i = Inr ys \<and> z \<in> set ys)
    \<or> op_ends z \<subseteq> agent_name ` set (agents_of a) \<union> agent_name ` set_option parent"
proof -
  let ?N = "agent_name ` set (agents_of a) \<union> agent_name ` set_option parent"
  have edge: "op_ends z \<subseteq> ?N" if "z \<in> set (drawEdge g a hl f t)" "f \<in> ?N" "t \<in> ?N" for f t
    using that drawEdge_ends by auto
  have pe: "op_ends z \<subseteq> ?N" if "parent_edge g a hl parent = Inr ps" "z \<in> set ps" for ps
  proof (cases parent)
    case (Some q)
    with that obtain s0 ss where "sub_agents a = s0 # ss"
      and "z \<in> set (drawEdge g a hl (agent_name q) (agent_name s0))"
      by (auto simp: parent_edge_def split: list.splits)
    moreover from this have "s0 \<in> set (agents_of a)"
      using agents_of_sub [of s0 a] agents_of_self [of s0] by auto
    ultimately show ?thesis using Some by (intro edge) auto
  qed (use that in \<open>simp add: parent_edge_def\<close>)
  have nm: "agent_name (sub_agents a ! i) \<in> ?N" if "i < length (sub_agents a)" for i
    using that nth_sub_name by blast
  have nxt: "agent_name (if i = length (sub_agents a) - 1 then sub_agents a ! 0 else sub_agents a ! (i + 1))
      \<in> ?N" if "i < length (sub_agents a)" for i
  proof (cases "i = length (sub_agents a) - 1")
    case True
    from that have "0 < length (sub_agents a)" by (cases "sub_agents a") simp_all
    with True nth_sub_name [of 0 a] show ?thesis by simp
  next
    case False
    with that have "i + 1 < length (sub_agents a)" by simp
    with False nth_sub_name [of "i + 1" a] show ?thesis by simp
  qed
  show ?thesis
  proof (cases "agent_kind a")
    case LoopK
    with assms(1) obtain ps ys where ps: "parent_edge g a hl parent = Inr ps"
      and ys: "seq_ops (map (\<lambda>i. then_ops (inner ! i) (Inr (drawEdge g a hl (agent_name (sub_agents a ! i))
         (agent_name (if i = length (sub_agents a) - 1 then sub_agents a ! 0 else sub_agents a ! (i + 1))))))
         [0..<length (sub_agents a)]) = Inr ys" and cs: "cs = ps @ ys"
      by (auto simp: buildCluster_def loop_cluster_def Let_def then_ops_Inr_iff)
    show ?thesis
    proof (cases "z \<in> set ps")
      case True
      with pe ps show ?thesis by blast
    next
      case False
      with cs assms(3) have "z \<in> set ys" by simp
      from steps_edges [OF ys this, of ?N] assms(2) show ?thesis
        using edge nm nxt by auto
    qed
  next
    case SequentialK
    with assms(1) obtain ps ys where ps: "parent_edge g a hl parent = Inr ps"
      and ys: "seq_ops (map (\<lambda>i. then_ops (inner ! i) (Inr (if i \<noteq> length (sub_agents a) - 1
         then drawEdge g a hl (agent_name (sub_agents a ! i)) (agent_name (sub_agents a ! (i + 1)))
         else []))) [0..<length (sub_agents a)]) = Inr ys" and cs: "cs = ps @ ys"
      by (auto simp: buildCluster_def sequential_cluster_def Let_def then_ops_Inr_iff)
    show ?thesis
    proof (cases "z \<in> set ps")
      case True
      with pe ps show ?thesis by blast
    next
      case False
      with cs assms(3) have "z \<in> set ys" by simp
      have "op_ends z \<subseteq> ?N" if "i < length (sub_agents a)" and "z \<in> set (if i \<noteq> length (sub_agents a) - 1
          then drawEdge g a hl (agent_name (sub_agents a ! i)) (agent_name (sub_agents a ! (i + 1))) else [])" for i
      proof -
        from that have i1: "i + 1 < length (sub_agents a)"
          and zin: "z \<in> set (drawEdge g a hl (agent_name (sub_agents a ! i)) (agent_name (sub_agents a ! (i + 1))))"
          by (auto split: if_splits)
        show ?thesis by (rule edge [OF zin nm [OF that(1)] nm [OF i1]])
      qed
      from steps_edges [OF ys \<open>z \<in> set ys\<close> this] assms(2) show ?thesis by auto
    qed
  next
    case ParallelK
    with assms(1) have "seq_ops (map (\<lambda>i. then_ops (inner ! i) (Inr (case parent of None \<Rightarrow> []
        | Some p \<Rightarrow> drawEdge g a hl (agent_name p) (agent_name (sub_agents a ! i)))))
        [0..<length (sub_agents a)]) = Inr cs"
      by (simp add: buildCluster_def parallel_cluster_def)
    moreover have "op_ends z \<subseteq> ?N" if "i < length (sub_agents a)" and "z \<in> set (case parent of None \<Rightarrow> []
        | Some p \<Rightarrow> drawEdge g a hl (agent_name p) (agent_name (sub_agents a ! i)))" for i
    proof (cases parent)
      case (Some q)
      with that have zin: "z \<in> set (drawEdge g a hl (agent_name q) (agent_name (sub_agents a ! i)))" by simp
      have "agent_name q \<in> ?N" using Some by simp
      from edge [OF zin this nm [OF that(1)]] show ?thesis .
    qed (use that in simp)
    ultimately have "(\<exists>i < length (sub_agents a). \<exists>ys. inner ! i = Inr ys \<and> z \<in> set ys) \<or> op_ends z \<subseteq> ?N"
      by (rule steps_edges [OF _ assms(3)])
    with assms(2) show ?thesis by simp
  next
    case LlmAgentK
    with assms(1) have "seq_ops (map (\<lambda>i. then_ops (inner ! i)
        (Inr (drawEdge g a hl (agent_name a) (agent_name (sub_agents a ! i))))) [0..<length (sub_agents a)]) = Inr cs"
      by (simp add: buildCluster_def other_cluster_def)
    from steps_edges [OF this assms(3), of ?N] assms(2) show ?thesis
      using edge nm by auto
  next
    case OtherAgentK
    with assms(1) have "seq_ops (map (\<lambda>i. then_ops (inner ! i)
        (Inr (drawEdge g a hl (agent_name a) (agent_name (sub_agents a ! i))))) [0..<length (sub_agents a)]) = Inr cs"
      by (simp add: buildCluster_def other_cluster_def)
    from steps_edges [OF this assms(3), of ?N] assms(2) show ?thesis
      using edge nm by auto
  qed
qed

lemma drawn_nodes_mono: "set xs \<subseteq> set ys \<Longrightarrow> drawn_nodes xs \<subseteq> drawn_nodes ys"
  by (auto simp: drawn_nodes_def)

lemma drawn_nodes_AddNode: "AddNode g n at \<in> set ops \<Longrightarrow> n \<in> drawn_nodes ops"
  by (force simp: drawn_nodes_def)

lemma buildGraph_drawn:
  "buildGraph g a hl p = Inr ops \<Longrightarrow> b \<in> set (agents_of a) \<Longrightarrow>
    (\<not> is_cluster b \<longrightarrow> agent_name b \<in> drawn_nodes ops)
    \<and> (agent_kind b = LlmAgentK \<longrightarrow> tool_name ` set (agent_tools b) \<subseteq> drawn_nodes ops)"
proof (induction g a hl p arbitrary: ops b rule: buildGraph.induct)
  case (1 g k nm subs ts hl parent)
  let ?a = "Agent k nm subs ts"
  show ?case
  proof (cases "b = ?a")
    case True
    have node: "agent_name ?a \<in> drawn_nodes ops" if "\<not> is_cluster ?a"
      using buildGraph_leaf_node [OF "1.prems"(1) that] getNodeName_leaf [OF that] drawn_nodes_AddNode
      by metis
    have tools: "tool_name ` set ts \<subseteq> drawn_nodes ops" if "k = LlmAgentK"
    proof
      fix x assume "x \<in> tool_name ` set ts"
      then obtain t where t: "t \<in> set ts" "x = tool_name t" by blast
      from buildGraph_parts [OF "1.prems"(1)] obtain zs where
        "tool_ops g ?a hl = Inr zs" "set zs \<subseteq> set ops" by fastforce
      with tool_ops_Inr_elem [of g ?a hl zs t] that t show "x \<in> drawn_nodes ops"
        by (auto intro: drawn_nodes_AddNode)
    qed
    from True node tools show ?thesis by simp
  next
    case False
    with "1.prems"(2) obtain s where s: "s \<in> set subs" and b: "b \<in> set (agents_of s)" by auto
    from buildGraph_sub_ops [OF "1.prems"(1)] s obtain xs where
      xs: "buildGraph g s hl (Some ?a) = Inr xs" and sub: "set xs \<subseteq> set ops" by auto
    from "1.IH"(2) [OF refl refl refl s xs b] drawn_nodes_mono [OF sub] show ?thesis by blast
  qed
qed

lemma tool_ops_ends:
  assumes "tool_ops g a hl = Inr zs" and "z \<in> set zs"
  shows "op_ends z \<subseteq> {agent_name a} \<union> tree_tools a"
proof -
  from assms have k: "agent_kind a = LlmAgentK" by (auto simp: tool_ops_def split: if_splits)
  with assms(1) have "seq_ops (map (\<lambda>t. then_ops (drawNode g hl (NodeT t) (Inr []))
      (Inr (drawEdge g a hl (agent_name a) (getNodeName (NodeT t))))) (agent_tools a)) = Inr zs"
    by (simp add: tool_ops_def)
  from seq_ops_Inr_from [OF this assms(2)] obtain t ys where t: "t \<in> set (agent_tools a)"
    and ys: "then_ops (drawNode g hl (NodeT t) (Inr [])) (Inr (drawEdge g a hl (agent_name a) (tool_name t))) = Inr ys"
    and z: "z \<in> set ys"
    by auto
  have "tool_name t \<in> tree_tools a"
    using t k agents_of_self [of a] by (force simp: tree_tools_def)
  from ys z drawNode_leaf [of "NodeT t" g hl "Inr []"]
  have "op_ends z = {} \<or> z \<in> set (drawEdge g a hl (agent_name a) (tool_name t))"
    by (auto simp: then_ops_Inr_iff)
  then show ?thesis
  proof
    assume "z \<in> set (drawEdge g a hl (agent_name a) (tool_name t))"
    then have "op_ends z = {agent_name a, tool_name t}" by (rule drawEdge_ends)
    with \<open>tool_name t \<in> tree_tools a\<close> show ?thesis by auto
  qed simp
qed

lemma buildGraph_ends:
  "buildGraph g a hl p = Inr ops \<Longrightarrow> z \<in> set ops \<Longrightarrow>
    op_ends z \<subseteq> agent_name ` set (agents_of a) \<union> agent_name ` set_option p \<union> tree_tools a"
proof (induction g a hl p arbitrary: ops z rule: buildGraph.induct)
  case (1 g k nm subs ts hl parent)
  let ?a = "Agent k nm subs ts"
  let ?c = "g @ [cluster_id (getNodeName (NodeA ?a))]"
  let ?S = "agent_name ` set (agents_of ?a) \<union> agent_name ` set_option parent \<union> tree_tools ?a"
  have below: "agent_name ` set (agents_of s) \<union> agent_name ` set_option (Some ?a) \<union> tree_tools s \<subseteq> ?S"
    if "s \<in> set subs" for s
    using that agents_of_sub [of s ?a] tree_tools_sub [of s ?a] by auto
  from buildGraph_parts [OF "1.prems"(1)] obtain xs ys zs where
    dn: "drawNode g hl (NodeA ?a) (buildCluster g ?a hl parent (map (\<lambda>s. buildGraph ?c s hl (Some ?a)) subs)) = Inr xs"
    and ou: "seq_ops (map (\<lambda>s. then_ops (buildGraph g s hl (Some ?a)) (Inr (sub_edge g ?a hl s))) subs) = Inr ys"
    and tl: "tool_ops g ?a hl = Inr zs" and ops: "ops = xs @ ys @ zs"
    by auto
  consider "z \<in> set xs" | "z \<in> set ys" | "z \<in> set zs" using "1.prems"(2) ops by auto
  then show ?case
  proof cases
    case 1
    from drawNode_from [OF dn this] show ?thesis
    proof
      assume "\<exists>cs. buildCluster g ?a hl parent (map (\<lambda>s. buildGraph ?c s hl (Some ?a)) subs) = Inr cs \<and> z \<in> set cs"
      then obtain cs where cs: "buildCluster g ?a hl parent (map (\<lambda>s. buildGraph ?c s hl (Some ?a)) subs) = Inr cs"
        and z: "z \<in> set cs" by blast
      from buildCluster_from [OF cs _ z] show ?thesis
      proof
        assume "\<exists>i < length (map (\<lambda>s. buildGraph ?c s hl (Some ?a)) subs). \<exists>ys.
          map (\<lambda>s. buildGraph ?c s hl (Some ?a)) subs ! i = Inr ys \<and> z \<in> set ys"
        then obtain i ys where i: "i < length subs" and r: "buildGraph ?c (subs ! i) hl (Some ?a) = Inr ys"
          and zy: "z \<in> set ys" by auto
        have si: "subs ! i \<in> set subs" using i by simp
        from "1.IH"(1) [OF refl refl si r zy] below [OF si] show ?thesis by blast
      qed auto
    qed simp
  next
    case 2
    from seq_ops_Inr_from [OF ou this] obtain s rs where s: "s \<in> set subs"
      and rs: "then_ops (buildGraph g s hl (Some ?a)) (Inr (sub_edge g ?a hl s)) = Inr rs" and z: "z \<in> set rs"
      by auto
    from rs obtain us where us: "buildGraph g s hl (Some ?a) = Inr us" and rs': "rs = us @ sub_edge g ?a hl s"
      by (auto simp: then_ops_Inr_iff)
    show ?thesis
    proof (cases "z \<in> set us")
      case True
      from "1.IH"(2) [OF refl refl refl s us True] below [OF s] show ?thesis by blast
    next
      case False
      with z rs' have "z \<in> set (sub_edge g ?a hl s)" by simp
      then have "z \<in> set (drawEdge g ?a hl (agent_name ?a) (agent_name s))"
        by (simp add: sub_edge_def split: if_splits)
      then have "op_ends z = {agent_name ?a, agent_name s}" by (rule drawEdge_ends)
      moreover have "s \<in> set (agents_of ?a)" using s by (auto intro!: bexI [of _ s])
      then have "agent_name s \<in> agent_name ` set (agents_of ?a)" by (rule imageI)
      moreover have "agent_name ?a \<in> agent_name ` set (agents_of ?a)" by simp
      ultimately show ?thesis by auto
    qed
  next
    case 3
    from tool_ops_ends [OF tl this] show ?thesis by auto
  qed
qed

section \<open>Properties of the drawing\<close>

text \<open>
  C1. Drawing an agent tree throws exactly when some sub-agent, at any depth below the
  root, is a SequentialAgent or LoopAgent with no sub-agents: \<open>buildCluster\<close> reads
  \<open>agent.subAgents[0].name\<close> whenever a parent agent is present. Empty composites
  are valid agents (they run as an empty event sequence), so the graph endpoint fails
  on valid trees.
\<close>

theorem getAgentGraph_fails_iff: "isl (getAgentGraph a hl) \<longleftrightarrow> nested_empty a"
  using buildGraph_isl [of "[]" a hl None] by (simp add: getAgentGraph_def)

text \<open>
  C2. A SequentialAgent drawn at the root links each sub-agent to the next one: for
  every adjacent pair of sub-agents the edge \<open>drawEdge\<close> makes is among the drawn
  operations (on the root graph).
\<close>

theorem sequential_chain_edges:
  assumes "getAgentGraph (Agent SequentialK nm subs ts) hl = Inr ops" and "Suc i < length subs"
  shows "set (drawEdge [] (Agent SequentialK nm subs ts) hl (agent_name (subs ! i))
           (agent_name (subs ! Suc i))) \<subseteq> set ops"
proof -
  from assms(2) have "i \<noteq> length subs - 1" by simp
  with cluster_step_edge [OF root_cluster_steps [OF assms(1)], of i] assms(2) show ?thesis by simp
qed

theorem sequential_chain_edges_witness:
  "set (drawEdge [] (Agent SequentialK ''seq'' [Agent LlmAgentK ''agent1'' [] [], Agent LlmAgentK ''agent2'' [] []] []) []
      ''agent1'' ''agent2'')
   \<subseteq> set (projr (getAgentGraph (Agent SequentialK ''seq''
        [Agent LlmAgentK ''agent1'' [] [], Agent LlmAgentK ''agent2'' [] []] []) []))"
proof -
  have ok: "getAgentGraph (Agent SequentialK ''seq'' [Agent LlmAgentK ''agent1'' [] [], Agent LlmAgentK ''agent2'' [] []] []) []
    = Inr (projr (getAgentGraph (Agent SequentialK ''seq''
        [Agent LlmAgentK ''agent1'' [] [], Agent LlmAgentK ''agent2'' [] []] []) []))"
    by code_simp
  show ?thesis using sequential_chain_edges [OF ok, of 0] by simp
qed

text \<open>
  C3. A LoopAgent drawn at the root links its sub-agents in a ring: each sub-agent
  to the next, and the last one back to the first.
\<close>

theorem loop_ring_edges:
  assumes "getAgentGraph (Agent LoopK nm subs ts) hl = Inr ops" and "i < length subs"
  shows "set (drawEdge [] (Agent LoopK nm subs ts) hl (agent_name (subs ! i))
           (agent_name (subs ! ((i + 1) mod length subs)))) \<subseteq> set ops"
proof -
  from assms(2) have n: "Suc (length subs - 1) = length subs" by simp
  have "(if i = length subs - 1 then subs ! 0 else subs ! (i + 1)) = subs ! ((i + 1) mod length subs)"
    using assms(2) n by auto
  with cluster_step_edge [OF root_cluster_steps [OF assms(1)], of i] assms(2) show ?thesis by simp
qed

theorem loop_ring_edges_witness:
  "set (drawEdge [] (Agent LoopK ''loop'' [Agent LlmAgentK ''agent1'' [] [], Agent LlmAgentK ''agent2'' [] []] []) []
      ''agent2'' ''agent1'')
   \<subseteq> set (projr (getAgentGraph (Agent LoopK ''loop''
        [Agent LlmAgentK ''agent1'' [] [], Agent LlmAgentK ''agent2'' [] []] []) []))"
proof -
  have ok: "getAgentGraph (Agent LoopK ''loop'' [Agent LlmAgentK ''agent1'' [] [], Agent LlmAgentK ''agent2'' [] []] []) []
    = Inr (projr (getAgentGraph (Agent LoopK ''loop''
        [Agent LlmAgentK ''agent1'' [] [], Agent LlmAgentK ''agent2'' [] []] []) []))"
    by code_simp
  show ?thesis using loop_ring_edges [OF ok, of 1] by simp
qed

text \<open>
  C4. Drawing an LlmAgent draws each of its tools as a node of the root graph (the
  highlighted style when a highlighted pair names it) and an edge from the agent to
  the tool.
\<close>

theorem llm_tools_drawn:
  assumes "getAgentGraph (Agent LlmAgentK nm subs ts) hl = Inr ops" and "t \<in> set ts"
  shows "AddNode [] (tool_name t) (if in_highlights hl (tool_name t) then highlighted_node_attrs (NodeT t)
           else plain_node_attrs (NodeT t)) \<in> set ops
    \<and> set (drawEdge [] (Agent LlmAgentK nm subs ts) hl nm (tool_name t)) \<subseteq> set ops"
proof -
  from buildGraph_parts [OF assms(1) [unfolded getAgentGraph_def]] obtain xs ys zs where
    "tool_ops [] (Agent LlmAgentK nm subs ts) hl = Inr zs" "ops = xs @ ys @ zs"
    by blast
  with tool_ops_Inr_elem [of "[]" "Agent LlmAgentK nm subs ts" hl zs t] assms(2) show ?thesis
    by auto
qed

theorem llm_tools_drawn_witness:
  "AddNode [] ''testTool'' (plain_node_attrs (NodeT (FunctionToolT ''testTool'')))
     \<in> set (projr (getAgentGraph (Agent LlmAgentK ''testAgent'' [] [FunctionToolT ''testTool'']) []))
   \<and> set (drawEdge [] (Agent LlmAgentK ''testAgent'' [] [FunctionToolT ''testTool'']) [] ''testAgent'' ''testTool'')
     \<subseteq> set (projr (getAgentGraph (Agent LlmAgentK ''testAgent'' [] [FunctionToolT ''testTool'']) []))"
proof -
  have ok: "getAgentGraph (Agent LlmAgentK ''testAgent'' [] [FunctionToolT ''testTool'']) []
    = Inr (projr (getAgentGraph (Agent LlmAgentK ''testAgent'' [] [FunctionToolT ''testTool'']) []))"
    by code_simp
  show ?thesis using llm_tools_drawn [OF ok, of "FunctionToolT ''testTool''"]
    by (simp add: in_highlights_def)
qed

text \<open>
  C5. When the graph is built with no highlighted edges (as the graph endpoint of a
  fresh session does), every sub-agent of a composite (Sequential, Loop or Parallel)
  root that is not itself a composite is drawn twice, as the same plain node: once
  inside the root's cluster, by \<open>buildCluster\<close>, and once more on the root
  graph, by the sub-agent loop of \<open>buildGraph\<close>. With no highlights no edge is
  highlighted, so \<open>drawEdge\<close> never reaches the \<open>graph.node\<close> calls of its
  highlighted branch.
\<close>

theorem composite_sub_drawn_twice:
  assumes "getAgentGraph (Agent k nm subs ts) [] = Inr ops" and "k \<in> {SequentialK, LoopK, ParallelK}"
    and "s \<in> set subs" and "\<not> is_cluster s"
  shows "AddNode [] (agent_name s) (plain_node_attrs (NodeA s)) \<in> set ops
    \<and> AddNode [cluster_id (getNodeName (NodeA (Agent k nm subs ts)))] (agent_name s)
         (plain_node_attrs (NodeA s)) \<in> set ops"
proof -
  let ?a = "Agent k nm subs ts"
  let ?c = "[cluster_id (getNodeName (NodeA ?a))]"
  have g: "buildGraph [] ?a [] None = Inr ops" using assms(1) by (simp add: getAgentGraph_def)
  from buildGraph_sub_ops [OF g] assms(3) obtain xs where
    xs: "buildGraph [] s [] (Some ?a) = Inr xs" "set xs \<subseteq> set ops" by auto
  from buildGraph_cluster_ops [OF g] assms(2) obtain cs where
    cs: "buildCluster [] ?a [] None (map (\<lambda>s. buildGraph ?c s [] (Some ?a)) subs) = Inr cs"
        "set cs \<subseteq> set ops" by auto
  from buildCluster_inner_ops [OF cs(1)] assms(3) obtain ys where
    ys: "buildGraph ?c s [] (Some ?a) = Inr ys" "set ys \<subseteq> set cs" by fastforce
  have n: "getNodeName (NodeA s) = agent_name s" using assms(4) by (rule getNodeName_leaf)
  have h: "\<not> in_highlights [] (agent_name s)" by (simp add: in_highlights_def)
  from buildGraph_leaf_node [OF xs(1) assms(4)] h have "AddNode [] (agent_name s) (plain_node_attrs (NodeA s)) \<in> set xs"
    unfolding n by simp
  moreover from buildGraph_leaf_node [OF ys(1) assms(4)] h
  have "AddNode ?c (agent_name s) (plain_node_attrs (NodeA s)) \<in> set ys"
    unfolding n by simp
  ultimately show ?thesis using xs(2) ys(2) cs(2) by blast
qed

theorem composite_sub_drawn_twice_witness:
  "AddNode [] ''agent1'' (plain_node_attrs (NodeA (Agent LlmAgentK ''agent1'' [] [])))
     \<in> set (projr (getAgentGraph (Agent SequentialK ''seq'' [Agent LlmAgentK ''agent1'' [] []] []) []))
   \<and> AddNode [''cluster_seq (Sequential Agent)''] ''agent1'' (plain_node_attrs (NodeA (Agent LlmAgentK ''agent1'' [] [])))
     \<in> set (projr (getAgentGraph (Agent SequentialK ''seq'' [Agent LlmAgentK ''agent1'' [] []] []) []))"
proof -
  have ok: "getAgentGraph (Agent SequentialK ''seq'' [Agent LlmAgentK ''agent1'' [] []] []) []
    = Inr (projr (getAgentGraph (Agent SequentialK ''seq'' [Agent LlmAgentK ''agent1'' [] []] []) []))"
    by code_simp
  show ?thesis using composite_sub_drawn_twice [OF ok, of "Agent LlmAgentK ''agent1'' [] []"]
    by (simp add: cluster_id_def)
qed

text \<open>
  C6. \<open>drawEdge\<close> always adds exactly one edge, from the first name to the
  second; it is coloured green exactly when the two names form a highlighted pair in
  either order or the root agent is drawn as a cluster, and it points backwards
  exactly when the first highlighted pair naming it is reversed.
\<close>

lemma highlight_dir_None: "highlight_dir hl f t = None \<longleftrightarrow> (f, t) \<notin> set hl \<and> (t, f) \<notin> set hl"
  by (induction hl f t rule: highlight_dir.induct) auto

theorem drawEdge_shape:
  "\<exists>at. drawEdge g r hl f t = [AddEdge g f t at]
     \<and> ((''color'', LIGHT_GREEN) \<in> set at \<longleftrightarrow> (f, t) \<in> set hl \<or> (t, f) \<in> set hl \<or> is_cluster r)
     \<and> ((''dir'', ''back'') \<in> set at \<longleftrightarrow> highlight_dir hl f t = Some False)"
proof (cases "highlight_dir hl f t")
  case None
  then show ?thesis using highlight_dir_None [of hl f t]
    by (auto simp: drawEdge_def LIGHT_GREEN_def LIGHT_GRAY_def)
next
  case (Some b)
  then have "(f, t) \<in> set hl \<or> (t, f) \<in> set hl" using highlight_dir_None [of hl f t] by auto
  with Some show ?thesis by (cases b) (auto simp: drawEdge_def)
qed

text \<open>
  C7. A successful drawing starts with the root agent itself: its cluster subgraph
  when it is a Sequential, Loop or Parallel agent, its node otherwise.
\<close>

theorem getAgentGraph_first_op:
  assumes "getAgentGraph a hl = Inr ops"
  shows "ops \<noteq> [] \<and> hd ops =
    (if is_cluster a
     then AddSubgraph [] (cluster_id (getNodeName (NodeA a))) (cluster_attrs (getNodeName (NodeA a)))
     else AddNode [] (getNodeName (NodeA a))
       (if in_highlights hl (getNodeName (NodeA a)) then highlighted_node_attrs (NodeA a)
        else plain_node_attrs (NodeA a)))"
proof -
  from buildGraph_parts [OF assms [unfolded getAgentGraph_def]] obtain xs ys zs where
    p: "drawNode [] hl (NodeA a) (buildCluster [] a hl None
          (map (\<lambda>s. buildGraph [cluster_id (getNodeName (NodeA a))] s hl (Some a)) (sub_agents a))) = Inr xs"
       "ops = xs @ ys @ zs"
    by (simp only: append.simps) blast
  show ?thesis
  proof (cases "is_cluster a")
    case True
    from drawNode_cluster_Inr [OF p(1) True] p(2) True show ?thesis by auto
  next
    case False
    from p drawNode_leaf [OF False] False show ?thesis by auto
  qed
qed

theorem getAgentGraph_first_op_witness:
  "hd (projr (getAgentGraph (Agent SequentialK ''sequentialAgent'' [Agent LlmAgentK ''agent1'' [] []] []) []))
   = AddSubgraph [] ''cluster_sequentialAgent (Sequential Agent)''
       (cluster_attrs ''sequentialAgent (Sequential Agent)'')"
proof -
  have ok: "getAgentGraph (Agent SequentialK ''sequentialAgent'' [Agent LlmAgentK ''agent1'' [] []] []) []
    = Inr (projr (getAgentGraph (Agent SequentialK ''sequentialAgent'' [Agent LlmAgentK ''agent1'' [] []] []) []))"
    by code_simp
  show ?thesis using getAgentGraph_first_op [OF ok] by (simp add: cluster_id_def)
qed

text \<open>
  C8. Every edge of a drawing joins names that are drawn as nodes, or names of
  composite agents: an edge into a SequentialAgent, LoopAgent or ParallelAgent
  names the agent, while the agent itself is drawn as the cluster
  \<open>cluster_<name> (... Agent)\<close>, so Graphviz adds a plain node of that name.
\<close>

theorem edges_join_drawn_nodes:
  assumes "getAgentGraph a hl = Inr ops"
  shows "edge_ends ops \<subseteq> drawn_nodes ops \<union> cluster_names a"
proof
  fix x assume "x \<in> edge_ends ops"
  then obtain z where z: "z \<in> set ops" "x \<in> op_ends z" by (auto simp: edge_ends_def)
  with buildGraph_ends [OF assms [unfolded getAgentGraph_def] z(1)]
  have "x \<in> agent_name ` set (agents_of a) \<union> tree_tools a" by auto
  then show "x \<in> drawn_nodes ops \<union> cluster_names a"
  proof
    assume "x \<in> agent_name ` set (agents_of a)"
    then obtain b where b: "b \<in> set (agents_of a)" "x = agent_name b" by blast
    show ?thesis
    proof (cases "is_cluster b")
      case True
      with b show ?thesis by (auto simp: cluster_names_def)
    next
      case False
      with buildGraph_drawn [OF assms [unfolded getAgentGraph_def] b(1)] b(2) show ?thesis by blast
    qed
  next
    assume "x \<in> tree_tools a"
    then obtain b where "b \<in> set (agents_of a)" "agent_kind b = LlmAgentK" "x \<in> tool_name ` set (agent_tools b)"
      by (auto simp: tree_tools_def split: if_splits)
    with buildGraph_drawn [OF assms [unfolded getAgentGraph_def]] show ?thesis by blast
  qed
qed

theorem edges_join_drawn_nodes_witness:
  "edge_ends (projr (getAgentGraph nested_seq [])) \<subseteq> drawn_nodes (projr (getAgentGraph nested_seq [])) \<union> cluster_names nested_seq"
proof -
  have ok: "getAgentGraph nested_seq [] = Inr (projr (getAgentGraph nested_seq []))"
    by code_simp
  from edges_join_drawn_nodes [OF ok] show ?thesis .
qed

text \<open>The edge from \<open>a\<close> to the nested SequentialAgent \<open>b\<close> names no node of the drawing.\<close>

lemma edge_to_cluster_not_drawn:
  "''b'' \<in> edge_ends (projr (getAgentGraph nested_seq [])) \<and> ''b'' \<notin> drawn_nodes (projr (getAgentGraph nested_seq []))"
  by code_simp

end
