(* ===== verification/SampleGraphs.thy ===== *)
theory SampleGraphs
  imports AgentGraph
begin

text \<open>
  The sample agent trees of src/unnamed/part_001 and src/dev/samples/loop_agent.ts as
  the graph renderer sees them: an agent's class, name, sub-agents and tools. An
  \<open>AgentTool\<close> is named after the agent it wraps; \<open>GOOGLE_SEARCH\<close> is a built-in
  tool (a \<open>BaseTool\<close> that is not a \<open>FunctionTool\<close>) named \<open>google_search\<close>.
\<close>

section \<open>The sample trees\<close>

definition summaryAgent :: agent where
  "summaryAgent = Agent LlmAgentK ''summary_agent'' [] []"

definition summary_rootAgent :: agent where
  "summary_rootAgent = Agent LlmAgentK ''root_agent'' [] [AgentToolT (agent_name summaryAgent)]"

definition rollAgent :: agent where
  "rollAgent = Agent LlmAgentK ''roll_agent'' [] [FunctionToolT ''roll_dice'']"

definition primeAgent :: agent where
  "primeAgent = Agent LlmAgentK ''prime_agent'' [] [FunctionToolT ''check_prime'']"

definition sequential_rootAgent :: agent where
  "sequential_rootAgent = Agent SequentialK ''simple_sequential_agent'' [rollAgent, primeAgent] []"

definition search_rootAgent :: agent where
  "search_rootAgent = Agent LlmAgentK ''root_agent'' [] [OtherToolT ''google_search'']"

definition googleSearchAgent :: agent where
  "googleSearchAgent = Agent LlmAgentK ''google_search_agent'' [] [OtherToolT ''google_search'']"

definition getWeatherAgent :: agent where
  "getWeatherAgent = Agent LlmAgentK ''get_weather_agent'' [] [FunctionToolT ''get_weather_temperature'']"

definition parallel_rootAgent :: agent where
  "parallel_rootAgent = Agent ParallelK ''parallel_agent'' [googleSearchAgent, getWeatherAgent] []"

definition monitorTemperatureAgent :: agent where
  "monitorTemperatureAgent = Agent LlmAgentK ''monitor_temperature_agent'' []
     [FunctionToolT ''get_temperature'', FunctionToolT ''notify_user'']"

definition loop_rootAgent :: agent where
  "loop_rootAgent = Agent LoopK ''root_agent'' [monitorTemperatureAgent] []"

lemmas sample_graph_defs = summaryAgent_def summary_rootAgent_def rollAgent_def primeAgent_def
  sequential_rootAgent_def search_rootAgent_def googleSearchAgent_def getWeatherAgent_def
  parallel_rootAgent_def monitorTemperatureAgent_def loop_rootAgent_def

section \<open>Drawing the samples\<close>

text \<open>No sample nests an empty SequentialAgent or LoopAgent, so each draws without error.\<close>

lemma samples_draw:
  "\<not> isl (getAgentGraph summary_rootAgent hl)" "\<not> isl (getAgentGraph sequential_rootAgent hl)"
  "\<not> isl (getAgentGraph search_rootAgent hl)" "\<not> isl (getAgentGraph parallel_rootAgent hl)"
  "\<not> isl (getAgentGraph loop_rootAgent hl)"
  by (simp_all only: getAgentGraph_def buildGraph_isl) (simp_all add: sample_graph_defs empty_composite_def)

text \<open>The AgentTool sample: a node for the root, a node for the wrapped agent with the robot icon, and the edge.\<close>

lemma summary_graph:
  "getAgentGraph summary_rootAgent [] = Inr
     [AddNode [] ''root_agent'' (plain_node_attrs (NodeA summary_rootAgent)),
      AddNode [] ''summary_agent'' (plain_node_attrs (NodeT (AgentToolT ''summary_agent''))),
      AddEdge [] ''root_agent'' ''summary_agent'' [(''arrowhead'', ''none''), (''color'', LIGHT_GRAY)]]"
  "getNodeCaption (NodeT (AgentToolT ''summary_agent'')) = robot_icon @ '' summary_agent''"
  by (code_simp, simp add: summary_rootAgent_def summaryAgent_def)

text \<open>The LoopAgent sample has one sub-agent, so its ring is an edge from that agent to itself.\<close>

lemma loop_sample_self_edge:
  "AddEdge [] ''monitor_temperature_agent'' ''monitor_temperature_agent'' [(''color'', LIGHT_GREEN)]
     \<in> set (projr (getAgentGraph loop_rootAgent []))"
  by code_simp

end
