(* ===== verification/AgentGraphDot.thy ===== *)
theory AgentGraphDot
  imports AgentGraph "HOL-Library.Sublist"
begin

text \<open>
  The DOT text of an agent tree (src/dev/src/server/agent_graph.ts, \<open>getAgentGraph\<close>
  and \<open>getAgentGraphAsDot\<close>) and the six tests of
  src/dev/test/server/agent_graph_test.ts that read it. \<open>getAgentGraph\<close> makes a
  strict \<open>Digraph\<close> named after the root agent with two graph attributes and
  runs \<open>buildGraph\<close> on it; the digraph is a record of its id, its strictness, its
  attributes and the calls made on it. The serialiser \<open>toDot\<close> of ts-graphviz is
  library code: it is a parameter, and \<open>dot_contract\<close> states what the tests
  rely on of it, that the text holds for each call on the graph the fragment
  ts-graphviz prints for it: \<open>strict digraph "id" {\<close>, each attribute as
  \<open>key = "value";\<close>, each node id quoted, each edge as \<open>"from" -> "to" [\<close>,
  each subgraph as \<open>subgraph "id" {\<close>. A test's \<open>toContain\<close> is \<open>sublist\<close>.
\<close>

section \<open>The digraph and its DOT text\<close>

record digraph =
  dg_id :: string
  dg_strict :: bool
  dg_attrs :: attrs
  dg_ops :: "gop list"

definition ROOT_GRAPH_ATTRS :: attrs where
  "ROOT_GRAPH_ATTRS = [(''rankdir'', ''LR''), (''bgcolor'', ''#333537'')]"

definition getAgentGraph_digraph :: "agent \<Rightarrow> highlights \<Rightarrow> graph_error + digraph" where
  "getAgentGraph_digraph rootAgent hl =
     (case getAgentGraph rootAgent hl of
        Inl e \<Rightarrow> Inl e
      | Inr ops \<Rightarrow> Inr \<lparr>dg_id = agent_name rootAgent, dg_strict = True,
                        dg_attrs = ROOT_GRAPH_ATTRS, dg_ops = ops\<rparr>)"

definition getAgentGraphAsDot ::
  "(digraph \<Rightarrow> string) \<Rightarrow> agent \<Rightarrow> highlights \<Rightarrow> graph_error + string" where
  "getAgentGraphAsDot toDot rootAgent hl = map_sum id toDot (getAgentGraph_digraph rootAgent hl)"

text \<open>The printed forms ts-graphviz gives a quoted id, an attribute and each graph call.\<close>

definition dq :: "string \<Rightarrow> string" where
  "dq s = [CHR 0x22] @ s @ [CHR 0x22]"

definition attr_text :: "string \<times> string \<Rightarrow> string" where
  "attr_text kv = fst kv @ '' = '' @ dq (snd kv) @ '';''"

fun gop_items :: "gop \<Rightarrow> string list" where
  "gop_items (AddNode g n at) = dq n # map attr_text at"
| "gop_items (AddEdge g f t at) =
     (dq f @ '' -> '' @ dq t @ (if at = [] then '';'' else '' ['')) # map attr_text at"
| "gop_items (AddSubgraph g i at) = (''subgraph '' @ dq i @ '' {'') # map attr_text at"

definition dot_items :: "digraph \<Rightarrow> string list" where
  "dot_items d =
     ((if dg_strict d then ''strict digraph '' else ''digraph '') @ dq (dg_id d) @ '' {'')
     # map attr_text (dg_attrs d) @ concat (map gop_items (dg_ops d))"

text \<open>
  ts-graphviz escapes a double quote or a backslash in a string, and keeps one node
  per id in a graph (a second \<open>addNode\<close> of the id replaces the first): the contract
  speaks of digraphs whose strings need no escape and whose nodes are distinct in
  each graph, as those of the tests.
\<close>

fun gop_strings :: "gop \<Rightarrow> string list" where
  "gop_strings (AddNode g n at) = n # concat (map (\<lambda>(k, v). [k, v]) at)"
| "gop_strings (AddEdge g f t at) = f # t # concat (map (\<lambda>(k, v). [k, v]) at)"
| "gop_strings (AddSubgraph g i at) = i # concat (map (\<lambda>(k, v). [k, v]) at)"

fun node_key :: "gop \<Rightarrow> (gid \<times> string) option" where
  "node_key (AddNode g n at) = Some (g, n)"
| "node_key _ = None"

definition plain_str :: "string \<Rightarrow> bool" where
  "plain_str s = (CHR 0x22 \<notin> set s \<and> CHR 0x5C \<notin> set s)"

definition dot_printable :: "digraph \<Rightarrow> bool" where
  "dot_printable d =
     (list_all plain_str (dg_id d # concat (map (\<lambda>(k, v). [k, v]) (dg_attrs d))
                          @ concat (map gop_strings (dg_ops d)))
      \<and> distinct (List.map_filter node_key (dg_ops d)))"

definition dot_contract :: "(digraph \<Rightarrow> string) \<Rightarrow> bool" where
  "dot_contract toDot =
     (\<forall>d. dot_printable d \<longrightarrow> (\<forall>x \<in> set (dot_items d). sublist x (toDot d)))"

text \<open>A printer that writes the items one per line meets the contract.\<close>

definition dot_lines :: "digraph \<Rightarrow> string" where
  "dot_lines d = concat (map (\<lambda>x. x @ [CHR 0x0A]) (dot_items d)) @ ''}''"

section \<open>The tests of agent_graph_test.ts\<close>

text \<open>
  A test passes when \<open>getAgentGraphAsDot\<close> returns and its text contains every
  expected fragment; a thrown error fails the test. The fragments are the
  literals of the test; its two emoji are written as their UTF-8 bytes.
\<close>

definition TEST_ROBOT :: string where
  "TEST_ROBOT = map char_of [0xF0 :: nat, 0x9F, 0xA4, 0x96]"

definition TEST_WRENCH :: string where
  "TEST_WRENCH = map char_of [0xF0 :: nat, 0x9F, 0x94, 0xA7]"

definition dot_test :: "(digraph \<Rightarrow> string) \<Rightarrow> agent \<Rightarrow> highlights \<Rightarrow> string list \<Rightarrow> bool" where
  "dot_test toDot rootAgent hl frags =
     (case getAgentGraphAsDot toDot rootAgent hl of
        Inl e \<Rightarrow> False
      | Inr dot \<Rightarrow> list_all (\<lambda>f. sublist f dot) frags)"

definition label_frag :: "string \<Rightarrow> string" where
  "label_frag v = ''label = '' @ dq v"

definition edge_frag :: "string \<Rightarrow> string \<Rightarrow> string" where
  "edge_frag f t = dq f @ '' -> '' @ dq t"

definition llm_with_tool :: "string \<Rightarrow> string \<Rightarrow> agent" where
  "llm_with_tool n t = Agent LlmAgentK n [] [FunctionToolT t]"

definition plain_llm :: "string \<Rightarrow> agent" where
  "plain_llm n = Agent LlmAgentK n [] []"

definition test_llm_function_tool :: "(agent \<Rightarrow> highlights \<Rightarrow> string list \<Rightarrow> bool) \<Rightarrow> bool" where
  "test_llm_function_tool expect =
     expect (llm_with_tool ''testAgent'' ''testTool'') []
       [''strict digraph '' @ dq ''testAgent'' @ '' {'', ''rankdir = '' @ dq ''LR'',
        dq ''testAgent'', label_frag (TEST_ROBOT @ '' testAgent''), dq ''testTool'',
        label_frag (TEST_WRENCH @ '' testTool''), edge_frag ''testAgent'' ''testTool'' @ '' ['']"

definition two_tool_agents :: "agent list" where
  "two_tool_agents = [llm_with_tool ''agent1'' ''tool1'', llm_with_tool ''agent2'' ''tool2'']"

definition tool_frags :: "string list" where
  "tool_frags =
     [dq ''agent1'', label_frag (TEST_ROBOT @ '' agent1''), dq ''tool1'',
      label_frag (TEST_WRENCH @ '' tool1''), dq ''agent2'', label_frag (TEST_ROBOT @ '' agent2''),
      dq ''tool2'', label_frag (TEST_WRENCH @ '' tool2'')]"

definition test_sequential :: "(agent \<Rightarrow> highlights \<Rightarrow> string list \<Rightarrow> bool) \<Rightarrow> bool" where
  "test_sequential expect =
     expect (Agent SequentialK ''sequentialAgent'' two_tool_agents []) []
       ([''strict digraph '' @ dq ''sequentialAgent'', ''rankdir = '' @ dq ''LR''] @ tool_frags @
        [edge_frag ''agent1'' ''tool1'', edge_frag ''agent2'' ''tool2'', edge_frag ''agent1'' ''agent2'',
         ''subgraph '' @ dq ''cluster_sequentialAgent (Sequential Agent)''])"

definition test_highlighted_edges :: "(agent \<Rightarrow> highlights \<Rightarrow> string list \<Rightarrow> bool) \<Rightarrow> bool" where
  "test_highlighted_edges expect =
     expect (Agent SequentialK ''sequentialAgent'' [plain_llm ''agent1'', plain_llm ''agent2''] [])
       [(''agent1'', ''agent2'')]
       [''strict digraph '' @ dq ''sequentialAgent'', ''rankdir = '' @ dq ''LR'', dq ''agent1'',
        label_frag (TEST_ROBOT @ '' agent1''), dq ''agent2'', label_frag (TEST_ROBOT @ '' agent2''),
        edge_frag ''agent1'' ''agent2'', ''subgraph '' @ dq ''cluster_sequentialAgent (Sequential Agent)'',
        label_frag ''cluster_sequentialAgent (Sequential Agent)'']"

definition test_highlighted_nodes :: "(agent \<Rightarrow> highlights \<Rightarrow> string list \<Rightarrow> bool) \<Rightarrow> bool" where
  "test_highlighted_nodes expect =
     expect (Agent SequentialK ''sequentialAgent'' [plain_llm ''agent1'', plain_llm ''agent2''] [])
       [(''agent1'', ''agent3'')]
       [''strict digraph '' @ dq ''sequentialAgent'', ''rankdir = '' @ dq ''LR'' @ '';'', dq ''agent1'',
        label_frag (TEST_ROBOT @ '' agent1'') @ '';'', dq ''agent2'',
        label_frag (TEST_ROBOT @ '' agent2'') @ '';'', edge_frag ''agent1'' ''agent2'',
        ''cluster_sequentialAgent (Sequential Agent)'' @ [CHR 0x22],
        label_frag ''cluster_sequentialAgent (Sequential Agent)'']"

definition test_loop :: "(agent \<Rightarrow> highlights \<Rightarrow> string list \<Rightarrow> bool) \<Rightarrow> bool" where
  "test_loop expect =
     expect (Agent LoopK ''loopAgent'' two_tool_agents []) []
       ([''strict digraph '' @ dq ''loopAgent'', ''rankdir = '' @ dq ''LR''] @ tool_frags @
        [edge_frag ''agent1'' ''agent2'', edge_frag ''agent2'' ''agent1'',
         edge_frag ''agent1'' ''tool1'', edge_frag ''agent2'' ''tool2'',
         ''subgraph '' @ dq ''cluster_loopAgent (Loop Agent)'',
         label_frag ''cluster_loopAgent (Loop Agent)''])"

definition test_parallel :: "(agent \<Rightarrow> highlights \<Rightarrow> string list \<Rightarrow> bool) \<Rightarrow> bool" where
  "test_parallel expect =
     expect (Agent ParallelK ''parallelAgent'' two_tool_agents []) []
       ([''strict digraph '' @ dq ''parallelAgent'', ''rankdir = '' @ dq ''LR''] @ tool_frags @
        [edge_frag ''agent1'' ''tool1'', edge_frag ''agent2'' ''tool2'',
         ''subgraph '' @ dq ''cluster_parallelAgent (Parallel Agent)'',
         label_frag ''cluster_parallelAgent (Parallel Agent)''])"

definition agent_graph_suite :: "((agent \<Rightarrow> highlights \<Rightarrow> string list \<Rightarrow> bool) \<Rightarrow> bool) list" where
  "agent_graph_suite = [test_llm_function_tool, test_sequential, test_highlighted_edges,
     test_highlighted_nodes, test_loop, test_parallel]"

text \<open>A fragment that names one of the test's emoji.\<close>

definition has_test_icon :: "string \<Rightarrow> bool" where
  "has_test_icon f = (sublist TEST_ROBOT f \<or> sublist TEST_WRENCH f)"

text \<open>
  Under the contract a test passes when each of its fragments lies inside one of
  the printed items of the digraph: this reduces a test to a computation on the
  graph calls.
\<close>

definition covered :: "agent \<Rightarrow> highlights \<Rightarrow> string list \<Rightarrow> bool" where
  "covered rootAgent hl frags =
     (case getAgentGraph_digraph rootAgent hl of
        Inl e \<Rightarrow> False
      | Inr d \<Rightarrow> dot_printable d \<and> list_all (\<lambda>f. list_ex (\<lambda>x. sublist f x) (dot_items d)) frags)"

section \<open>Lemmas\<close>

lemma dot_lines_contract: "dot_contract dot_lines"
  unfolding dot_contract_def dot_lines_def
proof (intro allI impI ballI)
  fix d x assume "x \<in> set (dot_items d)"
  then obtain ys zs where "dot_items d = ys @ x # zs" by (meson split_list)
  then show "sublist x (concat (map (\<lambda>x. x @ [CHR 0x0A]) (dot_items d)) @ ''}'')"
    by (simp add: sublist_appendI)
qed

lemma dot_test_covered:
  assumes c: "dot_contract toDot" and cv: "covered rootAgent hl frags"
  shows "dot_test toDot rootAgent hl frags"
proof -
  obtain d where d: "getAgentGraph_digraph rootAgent hl = Inr d" and pr: "dot_printable d"
    and fs: "list_all (\<lambda>f. list_ex (\<lambda>x. sublist f x) (dot_items d)) frags"
    using cv unfolding covered_def by (auto split: sum.splits)
  have "sublist f (toDot d)" if f: "f \<in> set frags" for f
  proof -
    obtain x where "x \<in> set (dot_items d)" "sublist f x"
      using fs f by (auto simp: list_all_iff list_ex_iff)
    with c pr show ?thesis unfolding dot_contract_def by (meson sublist_order.order_trans)
  qed
  then show ?thesis
    by (simp add: dot_test_def getAgentGraphAsDot_def d list_all_iff)
qed

section \<open>What the tests check\<close>

text \<open>
  C9. The six tests of agent_graph_test.ts check the graph the code builds, and
  fail only on its captions: for any serialiser that prints each call on the digraph
  as ts-graphviz does, the DOT text of every test contains each expected fragment
  that names no emoji; yet the captions carry the mis-encoded icons of
  agent_graph.ts, so printed line by line every one of the six tests fails.
\<close>

theorem agent_graph_tests_fail_on_icons:
  assumes c: "dot_contract toDot"
  shows "(\<forall>t \<in> set agent_graph_suite.
            t (\<lambda>a hl fs. dot_test toDot a hl (filter (\<lambda>f. \<not> has_test_icon f) fs)))
         \<and> (\<forall>t \<in> set agent_graph_suite. \<not> t (dot_test dot_lines))"
proof (intro conjI)
  have "test_llm_function_tool (\<lambda>a hl fs. dot_test toDot a hl (filter (\<lambda>f. \<not> has_test_icon f) fs))"
    unfolding test_llm_function_tool_def by (rule dot_test_covered [OF c]) code_simp
  moreover have "test_sequential (\<lambda>a hl fs. dot_test toDot a hl (filter (\<lambda>f. \<not> has_test_icon f) fs))"
    unfolding test_sequential_def by (rule dot_test_covered [OF c]) code_simp
  moreover have "test_highlighted_edges (\<lambda>a hl fs. dot_test toDot a hl (filter (\<lambda>f. \<not> has_test_icon f) fs))"
    unfolding test_highlighted_edges_def by (rule dot_test_covered [OF c]) code_simp
  moreover have "test_highlighted_nodes (\<lambda>a hl fs. dot_test toDot a hl (filter (\<lambda>f. \<not> has_test_icon f) fs))"
    unfolding test_highlighted_nodes_def by (rule dot_test_covered [OF c]) code_simp
  moreover have "test_loop (\<lambda>a hl fs. dot_test toDot a hl (filter (\<lambda>f. \<not> has_test_icon f) fs))"
    unfolding test_loop_def by (rule dot_test_covered [OF c]) code_simp
  moreover have "test_parallel (\<lambda>a hl fs. dot_test toDot a hl (filter (\<lambda>f. \<not> has_test_icon f) fs))"
    unfolding test_parallel_def by (rule dot_test_covered [OF c]) code_simp
  ultimately show "\<forall>t \<in> set agent_graph_suite.
      t (\<lambda>a hl fs. dot_test toDot a hl (filter (\<lambda>f. \<not> has_test_icon f) fs))"
    by (simp add: agent_graph_suite_def)
  show "\<forall>t \<in> set agent_graph_suite. \<not> t (dot_test dot_lines)"
    unfolding agent_graph_suite_def by code_simp
qed

theorem agent_graph_tests_fail_on_icons_witness:
  "dot_contract dot_lines \<and> test_loop (\<lambda>a hl fs. dot_test dot_lines a hl (filter (\<lambda>f. \<not> has_test_icon f) fs))
   \<and> \<not> test_loop (dot_test dot_lines)"
  using agent_graph_tests_fail_on_icons [of dot_lines] dot_lines_contract by (simp add: agent_graph_suite_def)

end
