(* ===== verification/GeminiConfig.thy ===== *)
theory GeminiConfig
  imports Prelude "HOL-Library.AList"
begin

text \<open>
  Configuration of the Gemini model client: the constructor of class \<open>Gemini\<close>
  and the clients it builds (google_llm.ts, held twice, in two revisions with the
  same constructor and client getters, in src/dev/test/server/agent_graph_test.ts;
  the line numbers below are those of the first revision, lines 187-692). Optional
  string parameters and environment variables are \<open>string option\<close> read by
  truthiness; \<open>process.env\<close> is a function \<open>env\<close>, \<open>typeof process === 'object'\<close>
  the flag \<open>canReadEnv\<close>. \<open>isGemini3PreviewModel\<close> lives in utils/model_name.js,
  outside the sources, and is a parameter \<open>is_g3p\<close>. The three \<open>throw new
  Error(...)\<close> are the constructors of \<open>config_error\<close>; the log calls are not
  modelled.
\<close>

record gemini_params =
  p_model :: "string option"
  p_apiKey :: "string option"
  p_vertexai :: "bool option"
  p_project :: "string option"
  p_location :: "string option"
  p_apiEndpoint :: "string option"

record gemini =
  g_model :: string
  g_apiKey :: "string option"
  g_vertexai :: bool
  g_project :: "string option"
  g_location :: "string option"
  g_apiEndpoint :: "string option"
  g_isGemini3Preview :: bool

datatype config_error = ProjectMissing | LocationMissing | ApiKeyMissing

type_synonym environment = "string \<Rightarrow> string option"

definition GEMINI3_PREVIEW_API_ENDPOINT :: string where
  "GEMINI3_PREVIEW_API_ENDPOINT = ''https://aiplatform.googleapis.com/v1/publishers/google''"

definition DEFAULT_MODEL :: string where
  "DEFAULT_MODEL = ''gemini-2.5-flash''"

section \<open>String helpers\<close>

definition ascii_lower :: "char \<Rightarrow> char" where
  "ascii_lower c = (let n = (of_char c :: nat) in if 65 \<le> n \<and> n \<le> 90 then char_of (n + 32) else c)"

definition toLowerCase :: "string \<Rightarrow> string" where
  "toLowerCase s = map ascii_lower s"

section \<open>The constructor, step by step\<close>

definition env_api_key :: "bool \<Rightarrow> environment \<Rightarrow> string option" where
  "env_api_key canReadEnv env =
     (if canReadEnv then js_or (env ''GOOGLE_GENAI_API_KEY'') (env ''GEMINI_API_KEY'') else None)"

definition resolve_endpoint :: "bool \<Rightarrow> environment \<Rightarrow> bool \<Rightarrow> string option \<Rightarrow> string option" where
  "resolve_endpoint canReadEnv env isG3P apiEndpoint =
     (let e1 = (if \<not> js_truthy apiEndpoint \<and> canReadEnv then env ''GEMINI_API_ENDPOINT'' else apiEndpoint)
      in if \<not> js_truthy e1 \<and> isG3P then Some GEMINI3_PREVIEW_API_ENDPOINT else e1)"

definition vertex_from_env :: "bool \<Rightarrow> environment \<Rightarrow> bool option \<Rightarrow> bool" where
  "vertex_from_env canReadEnv env vertexai =
     (let useVertexAI = (vertexai = Some True) in
      if \<not> useVertexAI \<and> canReadEnv then
        (case env ''GOOGLE_GENAI_USE_VERTEXAI'' of
           Some v \<Rightarrow> (if v \<noteq> [] then toLowerCase v = ''true'' \<or> v = ''1'' else useVertexAI)
         | None \<Rightarrow> useVertexAI)
      else useVertexAI)"

text \<open>The Gemini 3 preview switch: \<open>(useVertexAI, apiKey)\<close> after it.\<close>

definition gemini3_switch ::
  "bool \<Rightarrow> environment \<Rightarrow> bool \<Rightarrow> bool \<Rightarrow> string option \<Rightarrow> bool \<times> string option" where
  "gemini3_switch canReadEnv env isG3P useVertexAI apiKey =
     (if isG3P \<and> useVertexAI then
        (let availableApiKey = js_or apiKey (env_api_key canReadEnv env) in
         if js_truthy availableApiKey then (False, availableApiKey) else (useVertexAI, apiKey))
      else (useVertexAI, apiKey))"

definition check_credentials :: "bool \<Rightarrow> environment \<Rightarrow> gemini \<Rightarrow> config_error + gemini" where
  "check_credentials canReadEnv env g =
     (if g_vertexai g then
        (let project = (if canReadEnv \<and> \<not> js_truthy (g_project g) then env ''GOOGLE_CLOUD_PROJECT'' else g_project g);
             location = (if canReadEnv \<and> \<not> js_truthy (g_location g) then env ''GOOGLE_CLOUD_LOCATION'' else g_location g)
         in if \<not> js_truthy project then Inl ProjectMissing
            else if \<not> js_truthy location then Inl LocationMissing
            else Inr (g\<lparr>g_project := project, g_location := location\<rparr>))
      else
        (let apiKey = (if \<not> js_truthy (g_apiKey g) \<and> canReadEnv then env_api_key canReadEnv env else g_apiKey g)
         in if \<not> js_truthy apiKey then Inl ApiKeyMissing else Inr (g\<lparr>g_apiKey := apiKey\<rparr>)))"

definition Gemini_new ::
  "(string \<Rightarrow> bool) \<Rightarrow> bool \<Rightarrow> environment \<Rightarrow> gemini_params \<Rightarrow> config_error + gemini" where
  "Gemini_new is_g3p canReadEnv env p =
     (let model = (if js_truthy (p_model p) then the (p_model p) else DEFAULT_MODEL);
          isG3P = is_g3p model;
          apiEndpoint = resolve_endpoint canReadEnv env isG3P (p_apiEndpoint p);
          useVertexAI = vertex_from_env canReadEnv env (p_vertexai p);
          (vertexai, apiKey) = gemini3_switch canReadEnv env isG3P useVertexAI (p_apiKey p)
      in check_credentials canReadEnv env
           \<lparr>g_model = model, g_apiKey = apiKey, g_vertexai = vertexai, g_project = p_project p,
            g_location = p_location p, g_apiEndpoint = apiEndpoint, g_isGemini3Preview = isG3P\<rparr>)"

section \<open>The API clients\<close>

text \<open>
  The options of the \<open>GoogleGenAI\<close> clients the getters build: the Vertex AI client
  with project and location, or the API-key client with its \<open>httpOptions\<close>
  (\<open>baseUrl\<close>, \<open>apiVersion\<close>; an absent key is \<open>None\<close>). Headers are left out.
\<close>

record http_options =
  h_baseUrl :: "string option"
  h_apiVersion :: "string option"

datatype client_options =
    VertexClient "string option" "string option"
  | KeyClient "string option" http_options

definition apiClient :: "gemini \<Rightarrow> client_options" where
  "apiClient g =
     (if g_vertexai g then VertexClient (g_project g) (g_location g)
      else
        (let base = \<lparr>h_baseUrl = None, h_apiVersion = None\<rparr>;
             opts = (if js_truthy (g_apiEndpoint g)
                     then (let o1 = base\<lparr>h_baseUrl := g_apiEndpoint g\<rparr> in
                           if g_isGemini3Preview g then o1\<lparr>h_apiVersion := Some []\<rparr> else o1)
                     else base)
         in KeyClient (g_apiKey g) opts))"

datatype llm_variant = VERTEX_AI | GEMINI_API

definition apiBackend :: "gemini \<Rightarrow> llm_variant" where
  "apiBackend g = (case apiClient g of VertexClient _ _ \<Rightarrow> VERTEX_AI | KeyClient _ _ \<Rightarrow> GEMINI_API)"

definition liveApiVersion :: "gemini \<Rightarrow> string" where
  "liveApiVersion g = (if apiBackend g = VERTEX_AI then ''v1beta1'' else ''v1alpha'')"

definition liveApiClient :: "gemini \<Rightarrow> string option \<times> http_options" where
  "liveApiClient g =
     (let o0 = \<lparr>h_baseUrl = None, h_apiVersion = Some (liveApiVersion g)\<rparr>;
          opts = (if js_truthy (g_apiEndpoint g)
                  then (let o1 = o0\<lparr>h_baseUrl := g_apiEndpoint g\<rparr> in
                        if g_isGemini3Preview g then o1\<lparr>h_apiVersion := Some []\<rparr> else o1)
                  else o0)
      in (g_apiKey g, opts))"

section \<open>preprocessRequest\<close>

text \<open>
  The parts of a request reduced to what the preprocessing touches: the
  \<open>displayName\<close> of an inline blob or a file reference.
\<close>

record data_ref =
  displayName :: "string option"

record req_part =
  inlineData :: "data_ref option"
  fileData :: "data_ref option"

record llm_request =
  req_labels :: "(string \<times> string) list option"
  req_has_config :: bool
  req_contents :: "req_part list option list"

definition removeDisplayNameIfPresent :: "data_ref option \<Rightarrow> data_ref option" where
  "removeDisplayNameIfPresent d =
     (case d of None \<Rightarrow> None
      | Some r \<Rightarrow> Some (if js_truthy (displayName r) then r\<lparr>displayName := None\<rparr> else r))"

definition strip_part :: "req_part \<Rightarrow> req_part" where
  "strip_part p = p\<lparr>inlineData := removeDisplayNameIfPresent (inlineData p),
                    fileData := removeDisplayNameIfPresent (fileData p)\<rparr>"

definition preprocessRequest :: "gemini \<Rightarrow> llm_request \<Rightarrow> llm_request" where
  "preprocessRequest g r =
     (if apiBackend g = GEMINI_API then
        r\<lparr>req_labels := (if req_has_config r then None else req_labels r),
          req_contents := map (map_option (map strip_part)) (req_contents r)\<rparr>
      else r)"

definition part_has_display_name :: "req_part \<Rightarrow> bool" where
  "part_has_display_name p =
     ((case inlineData p of None \<Rightarrow> False | Some d \<Rightarrow> js_truthy (displayName d)) \<or>
      (case fileData p of None \<Rightarrow> False | Some d \<Rightarrow> js_truthy (displayName d)))"

section \<open>connect\<close>

text \<open>
  \<open>connect(llmRequest)\<close> (lines 622-663) completes the request's \<open>liveConnectConfig\<close>
  in place and opens a live session with it. The configuration is reduced to what
  \<open>connect\<close> writes: its \<open>httpOptions\<close> (headers as an association list in key
  order, \<open>apiVersion\<close>), its \<open>systemInstruction\<close> (role and the texts of its
  parts) and its \<open>tools\<close>. The request's \<open>config\<close> carries the system instruction,
  read as the string the code casts it to, and the tools; the tracking headers are a
  parameter. \<open>connect\<close> returns the updated request and the arguments of
  \<open>live.connect\<close>: the live client's options, the model and the configuration.
  Writing a field of an absent \<open>liveConnectConfig\<close> throws a \<open>TypeError\<close>.
\<close>

record live_http_options =
  lh_headers :: "(string \<times> string) list option"
  lh_apiVersion :: "string option"

record live_connect_config =
  lc_httpOptions :: "live_http_options option"
  lc_systemInstruction :: "(string \<times> string list) option"
  lc_tools :: "string list option"

record gen_config =
  gc_systemInstruction :: "string option"
  gc_tools :: "string list option"

record live_request =
  lr_model :: "string option"
  lr_config :: "gen_config option"
  lr_liveConnectConfig :: "live_connect_config option"

datatype live_error = LiveTypeError

record live_connect_call =
  lcc_client :: "string option \<times> http_options"
  lcc_model :: string
  lcc_config :: live_connect_config

text \<open>\<open>Object.assign(headers, trackingHeaders)\<close>: each tracking header in turn overwrites or appends.\<close>

definition assign_headers :: "(string \<times> string) list \<Rightarrow> (string \<times> string) list \<Rightarrow> (string \<times> string) list" where
  "assign_headers h t = fold (\<lambda>(k, v). AList.update k v) t h"

definition set_live_http_options :: "gemini \<Rightarrow> (string \<times> string) list \<Rightarrow> live_connect_config \<Rightarrow> live_connect_config" where
  "set_live_http_options g trackingHeaders lc =
     (case lc_httpOptions lc of
        None \<Rightarrow> lc
      | Some ho \<Rightarrow>
          lc\<lparr>lc_httpOptions := Some (ho\<lparr>
               lh_headers := Some (assign_headers (case lh_headers ho of None \<Rightarrow> [] | Some h \<Rightarrow> h) trackingHeaders),
               lh_apiVersion := Some (if g_isGemini3Preview g then [] else liveApiVersion g)\<rparr>)\<rparr>)"

definition connect ::
  "gemini \<Rightarrow> (string \<times> string) list \<Rightarrow> live_request \<Rightarrow> live_error + live_request \<times> live_connect_call" where
  "connect g trackingHeaders r =
     (let sys = (case lr_config r of None \<Rightarrow> None | Some c \<Rightarrow> gc_systemInstruction c);
          tools = (case lr_config r of None \<Rightarrow> None | Some c \<Rightarrow> gc_tools c)
      in case lr_liveConnectConfig r of
           None \<Rightarrow> Inl LiveTypeError
         | Some lc0 \<Rightarrow>
             (let lc1 = set_live_http_options g trackingHeaders lc0;
                  lc2 = (if js_truthy sys then lc1\<lparr>lc_systemInstruction := Some (''system'', [the sys])\<rparr> else lc1);
                  lc3 = lc2\<lparr>lc_tools := tools\<rparr>
              in Inr (r\<lparr>lr_liveConnectConfig := Some lc3\<rparr>,
                      \<lparr>lcc_client = liveApiClient g,
                       lcc_model = (case lr_model r of Some m \<Rightarrow> m | None \<Rightarrow> g_model g),
                       lcc_config = lc3\<rparr>)))"

section \<open>Lemmas on the constructor\<close>

lemma Gemini_new_unfold:
  "Gemini_new is_g3p c env p =
     check_credentials c env
       \<lparr>g_model = (if js_truthy (p_model p) then the (p_model p) else DEFAULT_MODEL),
        g_apiKey = snd (gemini3_switch c env (is_g3p (if js_truthy (p_model p) then the (p_model p) else DEFAULT_MODEL))
                     (vertex_from_env c env (p_vertexai p)) (p_apiKey p)),
        g_vertexai = fst (gemini3_switch c env (is_g3p (if js_truthy (p_model p) then the (p_model p) else DEFAULT_MODEL))
                     (vertex_from_env c env (p_vertexai p)) (p_apiKey p)),
        g_project = p_project p, g_location = p_location p,
        g_apiEndpoint = resolve_endpoint c env (is_g3p (if js_truthy (p_model p) then the (p_model p) else DEFAULT_MODEL))
                     (p_apiEndpoint p),
        g_isGemini3Preview = is_g3p (if js_truthy (p_model p) then the (p_model p) else DEFAULT_MODEL)\<rparr>"
  by (simp add: Gemini_new_def Let_def split: prod.splits)

lemma check_credentials_Inr:
  assumes "check_credentials c env g = Inr g'"
  shows "g_vertexai g' = g_vertexai g \<and> g_isGemini3Preview g' = g_isGemini3Preview g
    \<and> g_apiEndpoint g' = g_apiEndpoint g \<and> g_model g' = g_model g
    \<and> (if g_vertexai g' then js_truthy (g_project g') \<and> js_truthy (g_location g') \<and> g_apiKey g' = g_apiKey g
       else js_truthy (g_apiKey g'))"
  using assms by (auto simp: check_credentials_def Let_def split: if_splits)

lemma gemini3_switch_fst:
  "fst (gemini3_switch c env isG3P v k) \<longleftrightarrow> v \<and> \<not> (isG3P \<and> js_truthy (js_or k (env_api_key c env)))"
  by (auto simp: gemini3_switch_def Let_def)

lemma resolve_endpoint_cases:
  "resolve_endpoint c env isG3P e =
     (if js_truthy e then e
      else if c \<and> js_truthy (env ''GEMINI_API_ENDPOINT'') then env ''GEMINI_API_ENDPOINT''
      else if isG3P then Some GEMINI3_PREVIEW_API_ENDPOINT
      else if c then env ''GEMINI_API_ENDPOINT'' else e)"
  by (simp add: resolve_endpoint_def Let_def)

lemma assign_headers_map_of:
  "map_of (assign_headers h t) = map_of h ++ map_of (rev t)"
  unfolding assign_headers_def
  by (induction t arbitrary: h) (auto simp: update_conv' map_add_assoc[symmetric])

lemma update_present: "map_of al k = Some v \<Longrightarrow> AList.update k v al = al"
  by (induction al) auto

lemma fold_update_present:
  "\<forall>(k, v) \<in> set t. map_of h k = Some v \<Longrightarrow> fold (\<lambda>(k, v). AList.update k v) t h = h"
  by (induction t) (auto simp: update_present)

lemma assign_headers_idem:
  assumes "distinct (map fst t)"
  shows "assign_headers (assign_headers h t) t = assign_headers h t"
proof -
  have "map_of (assign_headers h t) k = Some v" if "(k, v) \<in> set t" for k v
  proof -
    have "map_of (rev t) k = Some v"
      using that assms by (intro map_of_is_SomeI) (simp_all add: rev_map [symmetric])
    then show ?thesis by (simp add: assign_headers_map_of)
  qed
  then show ?thesis
    unfolding assign_headers_def [of "assign_headers h t"]
    by (intro fold_update_present) auto
qed

lemma set_live_http_options_idem:
  "distinct (map fst th) \<Longrightarrow>
   set_live_http_options g th (set_live_http_options g th lc) = set_live_http_options g th lc"
  by (simp add: set_live_http_options_def assign_headers_idem split: option.splits)

lemma set_live_http_options_other_fields:
  "set_live_http_options g th (lc\<lparr>lc_tools := x\<rparr>) = (set_live_http_options g th lc)\<lparr>lc_tools := x\<rparr>"
  "set_live_http_options g th (lc\<lparr>lc_systemInstruction := y\<rparr>)
     = (set_live_http_options g th lc)\<lparr>lc_systemInstruction := y\<rparr>"
  by (simp_all add: set_live_http_options_def split: option.splits)

section \<open>Properties of the client configuration\<close>

text \<open>
  C12. A constructed Gemini client always has credentials for the mode it ends in:
  a project and a location in Vertex AI mode, an API key otherwise; the constructor
  throws rather than return a client without them.
\<close>

theorem Gemini_new_credentials:
  assumes "Gemini_new is_g3p c env p = Inr g"
  shows "if g_vertexai g then js_truthy (g_project g) \<and> js_truthy (g_location g)
         else js_truthy (g_apiKey g)"
  using check_credentials_Inr [OF assms [unfolded Gemini_new_unfold]] by (simp split: if_splits)

theorem Gemini_new_credentials_witness:
  "Gemini_new (\<lambda>_. False) True (\<lambda>_. None)
     \<lparr>p_model = None, p_apiKey = Some ''test-key'', p_vertexai = None, p_project = None,
      p_location = None, p_apiEndpoint = None\<rparr>
   = Inr \<lparr>g_model = ''gemini-2.5-flash'', g_apiKey = Some ''test-key'', g_vertexai = False,
          g_project = None, g_location = None, g_apiEndpoint = None, g_isGemini3Preview = False\<rparr>
   \<and> js_truthy (Some ''test-key'')"
proof -
  have ok: "Gemini_new (\<lambda>_. False) True (\<lambda>_. None)
     \<lparr>p_model = None, p_apiKey = Some ''test-key'', p_vertexai = None, p_project = None,
      p_location = None, p_apiEndpoint = None\<rparr>
   = Inr \<lparr>g_model = ''gemini-2.5-flash'', g_apiKey = Some ''test-key'', g_vertexai = False,
          g_project = None, g_location = None, g_apiEndpoint = None, g_isGemini3Preview = False\<rparr>"
    by code_simp
  show ?thesis using ok Gemini_new_credentials [OF ok] by simp
qed

text \<open>
  C13. For a Gemini 3 preview model the client ends in Vertex AI mode exactly when
  Vertex AI was asked for (by the parameter or by \<open>GOOGLE_GENAI_USE_VERTEXAI\<close>) and
  no API key is available, from the parameter or from the environment.
\<close>

theorem Gemini3_vertex_mode:
  assumes "Gemini_new is_g3p c env p = Inr g" and "g_isGemini3Preview g"
  shows "g_vertexai g \<longleftrightarrow>
    vertex_from_env c env (p_vertexai p) \<and> \<not> js_truthy (js_or (p_apiKey p) (env_api_key c env))"
  using check_credentials_Inr [OF assms(1) [unfolded Gemini_new_unfold]] assms(2)
  by (simp add: gemini3_switch_fst)

theorem Gemini3_vertex_mode_witness:
  "\<not> g_vertexai (projr (Gemini_new (\<lambda>m. m = ''gemini-3-pro-preview'') True
      (\<lambda>k. if k = ''GEMINI_API_KEY'' then Some ''k'' else None)
      \<lparr>p_model = Some ''gemini-3-pro-preview'', p_apiKey = None, p_vertexai = Some True,
       p_project = None, p_location = None, p_apiEndpoint = None\<rparr>))"
proof -
  let ?r = "Gemini_new (\<lambda>m. m = ''gemini-3-pro-preview'') True
      (\<lambda>k. if k = ''GEMINI_API_KEY'' then Some ''k'' else None)
      \<lparr>p_model = Some ''gemini-3-pro-preview'', p_apiKey = None, p_vertexai = Some True,
       p_project = None, p_location = None, p_apiEndpoint = None\<rparr>"
  have ok: "?r = Inr (projr ?r)" by code_simp
  have g3: "g_isGemini3Preview (projr ?r)" by code_simp
  have key: "js_truthy (js_or None (env_api_key True (\<lambda>k. if k = ''GEMINI_API_KEY'' then Some ''k'' else None)))"
    by code_simp
  show ?thesis using Gemini3_vertex_mode [OF ok g3] key by simp
qed

text \<open>
  C14. The API endpoint of a constructed client follows a fixed precedence: the
  \<open>apiEndpoint\<close> parameter, then \<open>GEMINI_API_ENDPOINT\<close>, then, for a Gemini 3
  preview model, the aiplatform endpoint; with none of them it is unset.
\<close>

theorem Gemini_new_endpoint:
  assumes "Gemini_new is_g3p c env p = Inr g"
  shows "if js_truthy (p_apiEndpoint p) then g_apiEndpoint g = p_apiEndpoint p
    else if c \<and> js_truthy (env ''GEMINI_API_ENDPOINT'') then g_apiEndpoint g = env ''GEMINI_API_ENDPOINT''
    else if g_isGemini3Preview g then g_apiEndpoint g = Some GEMINI3_PREVIEW_API_ENDPOINT
    else \<not> js_truthy (g_apiEndpoint g)"
  using check_credentials_Inr [OF assms [unfolded Gemini_new_unfold]]
  by (auto simp: resolve_endpoint_cases)

theorem Gemini_new_endpoint_witness:
  "g_apiEndpoint (projr (Gemini_new (\<lambda>_. False) True
      (\<lambda>k. if k = ''GEMINI_API_ENDPOINT'' then Some ''https://custom-endpoint.com'' else None)
      \<lparr>p_model = None, p_apiKey = Some ''test-key'', p_vertexai = None,
       p_project = None, p_location = None, p_apiEndpoint = None\<rparr>))
   = Some ''https://custom-endpoint.com''"
proof -
  let ?env = "\<lambda>k. if k = ''GEMINI_API_ENDPOINT'' then Some ''https://custom-endpoint.com'' else None"
  let ?r = "Gemini_new (\<lambda>_. False) True ?env
      \<lparr>p_model = None, p_apiKey = Some ''test-key'', p_vertexai = None,
       p_project = None, p_location = None, p_apiEndpoint = None\<rparr>"
  have ok: "?r = Inr (projr ?r)" by code_simp
  show ?thesis using Gemini_new_endpoint [OF ok] by simp
qed

text \<open>
  C15. A Gemini 3 preview client in API-key mode always talks to a non-empty custom
  base URL with an empty API version, so that the SDK adds no second version prefix;
  its live client does the same.
\<close>

theorem Gemini3_key_client:
  assumes "Gemini_new is_g3p c env p = Inr g" and "g_isGemini3Preview g" and "\<not> g_vertexai g"
  shows "\<exists>u. u \<noteq> [] \<and> apiClient g = KeyClient (g_apiKey g) \<lparr>h_baseUrl = Some u, h_apiVersion = Some []\<rparr>
     \<and> liveApiClient g = (g_apiKey g, \<lparr>h_baseUrl = Some u, h_apiVersion = Some []\<rparr>)"
proof -
  from Gemini_new_endpoint [OF assms(1)] assms(2) have "js_truthy (g_apiEndpoint g)"
    by (auto simp: GEMINI3_PREVIEW_API_ENDPOINT_def split: if_splits)
  then obtain u where u: "g_apiEndpoint g = Some u" "u \<noteq> []" by (cases "g_apiEndpoint g") auto
  with assms(2,3) show ?thesis by (auto simp: apiClient_def liveApiClient_def Let_def)
qed

theorem Gemini3_key_client_witness:
  "\<exists>u. u \<noteq> [] \<and> apiClient (projr (Gemini_new (\<lambda>m. m = ''gemini-3-flash-preview'') True (\<lambda>_. None)
      \<lparr>p_model = Some ''gemini-3-flash-preview'', p_apiKey = Some ''test-key'', p_vertexai = None,
       p_project = None, p_location = None, p_apiEndpoint = None\<rparr>))
   = KeyClient (Some ''test-key'') \<lparr>h_baseUrl = Some u, h_apiVersion = Some []\<rparr>"
proof -
  let ?r = "Gemini_new (\<lambda>m. m = ''gemini-3-flash-preview'') True (\<lambda>_. None)
      \<lparr>p_model = Some ''gemini-3-flash-preview'', p_apiKey = Some ''test-key'', p_vertexai = None,
       p_project = None, p_location = None, p_apiEndpoint = None\<rparr>"
  have ok: "?r = Inr (projr ?r)" by code_simp
  have g: "g_isGemini3Preview (projr ?r)" "\<not> g_vertexai (projr ?r)" "g_apiKey (projr ?r) = Some ''test-key''"
    by code_simp+
  from Gemini3_key_client [OF ok g(1,2)] g(3) show ?thesis by auto
qed

text \<open>
  C16. Against the Gemini API backend, \<open>preprocessRequest\<close> clears the labels of a
  configured request and leaves no inline blob or file reference with a display name,
  changing nothing else; against Vertex AI it leaves the request as it is.
\<close>

theorem preprocessRequest_display_names:
  "(apiBackend g = GEMINI_API \<longrightarrow>
      list_all (pred_option (list_all (\<lambda>q. \<not> part_has_display_name q))) (req_contents (preprocessRequest g r))
      \<and> (req_has_config r \<longrightarrow> req_labels (preprocessRequest g r) = None)
      \<and> length (req_contents (preprocessRequest g r)) = length (req_contents r))
   \<and> (apiBackend g = VERTEX_AI \<longrightarrow> preprocessRequest g r = r)"
proof -
  have strip: "\<not> part_has_display_name (strip_part q)" for q
    by (cases "inlineData q"; cases "fileData q")
       (auto simp: part_has_display_name_def strip_part_def removeDisplayNameIfPresent_def)
  show ?thesis
    by (auto simp: preprocessRequest_def list_all_iff option.pred_set strip)
qed

theorem preprocessRequest_display_names_witness:
  "req_contents (preprocessRequest
      \<lparr>g_model = ''gemini-2.5-flash'', g_apiKey = Some ''k'', g_vertexai = False, g_project = None,
       g_location = None, g_apiEndpoint = None, g_isGemini3Preview = False\<rparr>
      \<lparr>req_labels = Some [(''a'', ''b'')], req_has_config = True,
       req_contents = [Some [\<lparr>inlineData = Some \<lparr>displayName = Some ''x''\<rparr>, fileData = None\<rparr>]]\<rparr>)
   = [Some [\<lparr>inlineData = Some \<lparr>displayName = None\<rparr>, fileData = None\<rparr>]]"
proof -
  have "apiBackend \<lparr>g_model = ''gemini-2.5-flash'', g_apiKey = Some ''k'', g_vertexai = False, g_project = None,
       g_location = None, g_apiEndpoint = None, g_isGemini3Preview = False\<rparr> = GEMINI_API"
    by (simp add: apiBackend_def apiClient_def Let_def)
  with preprocessRequest_display_names show ?thesis
    by (simp add: preprocessRequest_def strip_part_def removeDisplayNameIfPresent_def)
qed

text \<open>
  C17. \<open>connect\<close> throws a TypeError when the request has no \<open>liveConnectConfig\<close>.
  Otherwise it opens the session on the live client with the request's model, or
  the client's model when the request has none. The configuration it passes is the
  one it leaves in the request. That configuration has the request's tools and,
  when the request's system instruction is non-empty, a system-role instruction
  with that text. Where the request has \<open>httpOptions\<close>, the tracking headers
  overwrite or extend the request's headers, and \<open>apiVersion\<close> is empty for a
  Gemini 3 preview model and the live API version otherwise.
\<close>

theorem connect_live_config:
  "case lr_liveConnectConfig r of
     None \<Rightarrow> connect g trackingHeaders r = Inl LiveTypeError
   | Some lc \<Rightarrow>
       (\<exists>r' c. connect g trackingHeaders r = Inr (r', c)
          \<and> lr_liveConnectConfig r' = Some (lcc_config c) \<and> lcc_client c = liveApiClient g
          \<and> lcc_model c = (case lr_model r of Some m \<Rightarrow> m | None \<Rightarrow> g_model g)
          \<and> lc_tools (lcc_config c) = (case lr_config r of None \<Rightarrow> None | Some cf \<Rightarrow> gc_tools cf)
          \<and> lc_systemInstruction (lcc_config c) =
              (case lr_config r of
                 Some cf \<Rightarrow> if js_truthy (gc_systemInstruction cf)
                           then Some (''system'', [the (gc_systemInstruction cf)])
                           else lc_systemInstruction lc
               | None \<Rightarrow> lc_systemInstruction lc)
          \<and> (case lc_httpOptions lc of
               None \<Rightarrow> lc_httpOptions (lcc_config c) = None
             | Some ho \<Rightarrow> (\<exists>h'. lc_httpOptions (lcc_config c) =
                  Some (ho\<lparr>lh_headers := Some h',
                           lh_apiVersion := Some (if g_isGemini3Preview g then [] else liveApiVersion g)\<rparr>)
                  \<and> map_of h' = map_of (case lh_headers ho of None \<Rightarrow> [] | Some h \<Rightarrow> h) ++ map_of (rev trackingHeaders))))"
proof (cases "lr_liveConnectConfig r")
  case None
  then show ?thesis by (simp add: connect_def Let_def)
next
  case (Some lc)
  then show ?thesis
    by (cases "lc_httpOptions lc"; cases "lr_config r")
       (auto simp: connect_def set_live_http_options_def Let_def assign_headers_map_of)
qed
text \<open>
  C18. \<open>connect\<close> can be retried: it completes the request's live configuration in
  place, and a second call on the completed request passes the same arguments to
  \<open>live.connect\<close> and leaves the request unchanged, when the tracking headers have
  distinct names (they are the keys of an object).
\<close>

theorem connect_retry:
  assumes "connect g th r = Inr (r', c)" and "distinct (map fst th)"
  shows "connect g th r' = Inr (r', c)"
  using assms
  by (auto simp: connect_def Let_def set_live_http_options_idem set_live_http_options_other_fields
           split: option.splits if_splits)

theorem connect_retry_witness:
  "connect \<lparr>g_model = ''gemini-2.5-flash'', g_apiKey = Some ''k'', g_vertexai = False, g_project = None,
       g_location = None, g_apiEndpoint = None, g_isGemini3Preview = False\<rparr>
     [(''x-goog-api-client'', ''google-adk''), (''user-agent'', ''google-adk'')]
     (fst (projr (connect \<lparr>g_model = ''gemini-2.5-flash'', g_apiKey = Some ''k'', g_vertexai = False,
          g_project = None, g_location = None, g_apiEndpoint = None, g_isGemini3Preview = False\<rparr>
        [(''x-goog-api-client'', ''google-adk''), (''user-agent'', ''google-adk'')]
        \<lparr>lr_model = None,
         lr_config = Some \<lparr>gc_systemInstruction = Some ''be brief'', gc_tools = None\<rparr>,
         lr_liveConnectConfig = Some \<lparr>lc_httpOptions = Some \<lparr>lh_headers = Some [(''user-agent'', ''old'')],
             lh_apiVersion = None\<rparr>, lc_systemInstruction = None, lc_tools = Some [''t'']\<rparr>\<rparr>)))
   = connect \<lparr>g_model = ''gemini-2.5-flash'', g_apiKey = Some ''k'', g_vertexai = False, g_project = None,
       g_location = None, g_apiEndpoint = None, g_isGemini3Preview = False\<rparr>
     [(''x-goog-api-client'', ''google-adk''), (''user-agent'', ''google-adk'')]
     \<lparr>lr_model = None,
      lr_config = Some \<lparr>gc_systemInstruction = Some ''be brief'', gc_tools = None\<rparr>,
      lr_liveConnectConfig = Some \<lparr>lc_httpOptions = Some \<lparr>lh_headers = Some [(''user-agent'', ''old'')],
          lh_apiVersion = None\<rparr>, lc_systemInstruction = None, lc_tools = Some [''t'']\<rparr>\<rparr>"
  (is "connect ?g ?th (fst (projr (connect ?g ?th ?r))) = connect ?g ?th ?r")
proof -
  have "\<exists>r' c. connect ?g ?th ?r = Inr (r', c)"
    by (simp add: connect_def Let_def)
  then obtain r' c where rc: "connect ?g ?th ?r = Inr (r', c)" by blast
  have "distinct (map fst ?th)" by simp
  with connect_retry [OF rc] rc show ?thesis by simp
qed
end
