(* ===== verification/GeminiStream.thy ===== *)
theory GeminiStream
  imports GeminiConfig
begin

text \<open>
  The response side of the Gemini client: \<open>generateContentAsync\<close> of
  google_llm.ts in its two revisions held in src/dev/test/server/agent_graph_test.ts
  (revision 1: lines 411-523, revision 2: lines 926-1313). The streamed responses
  are a list of chunks, each the \<open>LlmResponse\<close> that \<open>createLlmResponse\<close> made of
  it together with whether its first candidate finished with \<open>STOP\<close>. A part keeps
  what the code reads: its text, the \<open>thought\<close> flag, the thought signature,
  whether it has inline data, and its function call (by name). What the generator
  yields is a list of \<open>yielded\<close> values: a fresh aggregate
  \<open>{content: {role: 'model', parts}, usageMetadata}\<close> (\<open>Flush\<close>) or the chunk's
  response object itself (\<open>Resp\<close>), with the changes the loop made to it.
\<close>

record part =
  pt_text :: "string option"
  pt_thought :: bool
  pt_sig :: "string option"
  pt_inline :: bool
  pt_call :: "string option"

record content =
  ct_parts :: "part list option"

record llm_response =
  r_content :: "content option"
  r_partial :: bool
  r_usage :: "nat option"

record chunk =
  c_resp :: llm_response
  c_stop :: bool

datatype yielded = Flush "part list" "nat option" | Resp llm_response

text \<open>
  The local variables of the streaming loop (\<open>thoughtText\<close>,
  \<open>thoughtSignature\<close>, \<open>text\<close>, \<open>usageMetadata\<close>, whether \<open>lastResponse\<close>
  finished with \<open>STOP\<close>) and, for revision 2, the instance field
  \<open>cachedThoughtSignature\<close>.
\<close>

record acc =
  a_thought :: string
  a_sig :: "string option"
  a_text :: string
  a_usage :: "nat option"
  a_last_stop :: "bool option"
  a_cache :: "string option"

definition start_acc :: "string option \<Rightarrow> acc" where
  "start_acc cache = \<lparr>a_thought = [], a_sig = None, a_text = [], a_usage = None,
     a_last_stop = None, a_cache = cache\<rparr>"

section \<open>Helpers shared by both revisions\<close>

definition resp_parts :: "llm_response \<Rightarrow> part list option" where
  "resp_parts r = (case r_content r of None \<Rightarrow> None | Some c \<Rightarrow> ct_parts c)"

definition first_part :: "llm_response \<Rightarrow> part option" where
  "first_part r = (case resp_parts r of Some (p # _) \<Rightarrow> Some p | _ \<Rightarrow> None)"

definition has_text :: "part option \<Rightarrow> bool" where
  "has_text fp = (case fp of None \<Rightarrow> False | Some p \<Rightarrow> js_truthy (pt_text p))"

definition text_part :: "string \<Rightarrow> part" where
  "text_part t = \<lparr>pt_text = Some t, pt_thought = False, pt_sig = None, pt_inline = False, pt_call = None\<rparr>"

definition thought_part :: "string \<Rightarrow> string option \<Rightarrow> part" where
  "thought_part t sig = \<lparr>pt_text = Some t, pt_thought = True,
     pt_sig = (if js_truthy sig then sig else None), pt_inline = False, pt_call = None\<rparr>"

text \<open>The parts of a flush: the accumulated thought, then the accumulated text.\<close>

definition flush_parts :: "acc \<Rightarrow> part list" where
  "flush_parts st =
     (if a_thought st \<noteq> [] then [thought_part (a_thought st) (a_sig st)] else [])
     @ (if a_text st \<noteq> [] then [text_part (a_text st)] else [])"

definition reset_acc :: "acc \<Rightarrow> acc" where
  "reset_acc st = st\<lparr>a_thought := [], a_sig := None, a_text := []\<rparr>"

text \<open>The text branch: the first part's text joins the thought or the answer text.\<close>

definition accumulate :: "bool \<Rightarrow> part \<Rightarrow> acc \<Rightarrow> acc" where
  "accumulate caching fp st =
     (if pt_thought fp
      then (let st' = st\<lparr>a_thought := a_thought st @ the (pt_text fp)\<rparr> in
            if js_truthy (pt_sig fp)
            then (if caching then st'\<lparr>a_sig := pt_sig fp, a_cache := pt_sig fp\<rparr> else st'\<lparr>a_sig := pt_sig fp\<rparr>)
            else st')
      else st\<lparr>a_text := a_text st @ the (pt_text fp)\<rparr>)"

definition flush_due :: "acc \<Rightarrow> part option \<Rightarrow> bool" where
  "flush_due st fp = ((a_thought st \<noteq> [] \<or> a_text st \<noteq> []) \<and> (case fp of None \<Rightarrow> True | Some p \<Rightarrow> \<not> pt_inline p))"

definition final_flush :: "acc \<Rightarrow> yielded list" where
  "final_flush st =
     (if (a_text st \<noteq> [] \<or> a_thought st \<noteq> []) \<and> a_last_stop st = Some True
      then [Flush (flush_parts st) (a_usage st)] else [])"

section \<open>Request headers\<close>

text \<open>
  Before the SDK call, both revisions replace the request's
  \<open>config.httpOptions.headers\<close> by the object literal \<open>{...headers, ...trackingHeaders}\<close>
  (revision 1, lines 423-428). An object literal defines its properties in order, a
  repeated key keeping its first position and taking the last value.
\<close>

definition spread_object :: "(string \<times> string) list \<Rightarrow> (string \<times> string) list" where
  "spread_object kvs = fold (\<lambda>(k, v). AList.update k v) kvs []"

definition request_headers :: "(string \<times> string) list option \<Rightarrow> (string \<times> string) list \<Rightarrow> (string \<times> string) list" where
  "request_headers headers trackingHeaders =
     spread_object ((case headers of None \<Rightarrow> [] | Some h \<Rightarrow> h) @ trackingHeaders)"

section \<open>Revision 1\<close>

definition stream_step_v1 :: "acc \<Rightarrow> chunk \<Rightarrow> acc \<times> yielded list" where
  "stream_step_v1 st ch =
     (let r = c_resp ch; fp = first_part r;
          st1 = st\<lparr>a_usage := r_usage r, a_last_stop := Some (c_stop ch)\<rparr>
      in if has_text fp then (accumulate False (the fp) st1, [Resp (r\<lparr>r_partial := True\<rparr>)])
         else if flush_due st1 fp then (reset_acc st1, [Flush (flush_parts st1) (r_usage r), Resp r])
         else (st1, [Resp r]))"

fun stream_run_v1 :: "acc \<Rightarrow> chunk list \<Rightarrow> acc \<times> yielded list" where
  "stream_run_v1 st [] = (st, [])"
| "stream_run_v1 st (ch # chs) =
     (let (st', ys) = stream_step_v1 st ch; (st'', zs) = stream_run_v1 st' chs in (st'', ys @ zs))"

definition generate_stream_v1 :: "chunk list \<Rightarrow> yielded list" where
  "generate_stream_v1 chs = (let (st, ys) = stream_run_v1 (start_acc None) chs in ys @ final_flush st)"

section \<open>Revision 2: thought signatures for Gemini 3\<close>

definition signed :: "part \<Rightarrow> bool" where
  "signed p = js_truthy (pt_sig p)"

definition has_call :: "part \<Rightarrow> bool" where
  "has_call p = (pt_call p \<noteq> None)"

text \<open>\<open>llmResponse.content?.parts?.some((part) => part.functionCall)\<close>.\<close>

definition resp_calls :: "llm_response \<Rightarrow> bool" where
  "resp_calls r = (case resp_parts r of None \<Rightarrow> False | Some ps \<Rightarrow> list_ex has_call ps)"

definition resp_signed :: "llm_response \<Rightarrow> bool" where
  "resp_signed r = (case resp_parts r of None \<Rightarrow> False | Some ps \<Rightarrow> list_ex signed ps)"

definition set_parts :: "part list \<Rightarrow> llm_response \<Rightarrow> llm_response" where
  "set_parts ps r = r\<lparr>r_content := map_option (\<lambda>c. c\<lparr>ct_parts := Some ps\<rparr>) (r_content r)\<rparr>"

text \<open>The loop that gives the first function call the signature and stops there.\<close>

fun set_first_call :: "string option \<Rightarrow> part list \<Rightarrow> part list" where
  "set_first_call s [] = []"
| "set_first_call s (p # ps) = (if has_call p then p\<lparr>pt_sig := s\<rparr> # ps else p # set_first_call s ps)"

text \<open>The loop with \<open>signatureApplied\<close>: the first function call gets the signature unless it has one.\<close>

fun set_first_call_if_unsigned :: "string option \<Rightarrow> part list \<Rightarrow> part list" where
  "set_first_call_if_unsigned s [] = []"
| "set_first_call_if_unsigned s (p # ps) =
     (if has_call p then (if signed p then p else p\<lparr>pt_sig := s\<rparr>) # ps
      else p # set_first_call_if_unsigned s ps)"

text \<open>The loop that gives the first function call without a signature the signature.\<close>

fun set_first_unsigned_call :: "string option \<Rightarrow> part list \<Rightarrow> part list" where
  "set_first_unsigned_call s [] = []"
| "set_first_unsigned_call s (p # ps) =
     (if has_call p \<and> \<not> signed p then p\<lparr>pt_sig := s\<rparr> # ps else p # set_first_unsigned_call s ps)"

text \<open>The loop at the head of each chunk: the first signature of the chunk, when none is held yet.\<close>

definition capture_sig :: "bool \<Rightarrow> llm_response \<Rightarrow> acc \<Rightarrow> acc" where
  "capture_sig g3 r st =
     (case resp_parts r of
        Some ps \<Rightarrow>
          (if g3 \<and> \<not> js_truthy (a_sig st)
           then (case find signed ps of None \<Rightarrow> st | Some p \<Rightarrow> st\<lparr>a_sig := pt_sig p, a_cache := pt_sig p\<rparr>)
           else st)
      | None \<Rightarrow> st)"

text \<open>The merge branch: the accumulated thought and text are prepended to the function-call parts.\<close>

definition merge_parts :: "acc \<Rightarrow> llm_response \<Rightarrow> llm_response" where
  "merge_parts st r =
     (let ps = (case resp_parts r of None \<Rightarrow> [] | Some ps \<Rightarrow> ps);
          ps' = (if a_thought st = [] \<and> js_truthy (a_sig st) then set_first_call_if_unsigned (a_sig st) ps else ps)
      in set_parts (flush_parts st @ ps') r)"

text \<open>The block run before every yield of a Gemini 3 function-call response.\<close>

definition post_sign :: "string option \<Rightarrow> string option \<Rightarrow> part list \<Rightarrow> part list" where
  "post_sign sig cache ps =
     (let ps1 = (if \<not> list_ex signed ps \<and> js_truthy sig then set_first_call sig ps else ps)
      in if length (filter signed ps1) = 0
         then (let s = js_or sig cache in if js_truthy s then set_first_unsigned_call s ps1 else ps1)
         else ps1)"

definition sign_calls :: "bool \<Rightarrow> bool \<Rightarrow> acc \<Rightarrow> llm_response \<Rightarrow> llm_response" where
  "sign_calls g3 calls st r =
     (case resp_parts r of
        Some ps \<Rightarrow> if g3 \<and> calls then set_parts (post_sign (a_sig st) (a_cache st) ps) r else r
      | None \<Rightarrow> r)"

definition stream_step_v2 :: "bool \<Rightarrow> acc \<Rightarrow> chunk \<Rightarrow> acc \<times> yielded list" where
  "stream_step_v2 g3 st ch =
     (let r = c_resp ch; fp = first_part r; calls = resp_calls r;
          st1 = capture_sig g3 r (st\<lparr>a_usage := r_usage r, a_last_stop := Some (c_stop ch)\<rparr>)
      in if has_text fp then
           (let st2 = accumulate True (the fp) st1;
                st3 = (if g3 \<and> calls then reset_acc st2 else st2)
            in (st3, [Resp (sign_calls g3 calls st3 (r\<lparr>r_partial := True\<rparr>))]))
         else if flush_due st1 fp then
           (if g3 \<and> calls \<and> r_content r \<noteq> None
            then (reset_acc st1, [Resp (sign_calls g3 calls (reset_acc st1) (merge_parts st1 r))])
            else (reset_acc st1, [Flush (flush_parts st1) (r_usage r), Resp (sign_calls g3 calls (reset_acc st1) r)]))
         else (st1, [Resp (sign_calls g3 calls st1 r)]))"

fun stream_run_v2 :: "bool \<Rightarrow> acc \<Rightarrow> chunk list \<Rightarrow> acc \<times> yielded list" where
  "stream_run_v2 g3 st [] = (st, [])"
| "stream_run_v2 g3 st (ch # chs) =
     (let (st', ys) = stream_step_v2 g3 st ch; (st'', zs) = stream_run_v2 g3 st' chs in (st'', ys @ zs))"

text \<open>
  A streaming call of revision 2 on an instance whose \<open>cachedThoughtSignature\<close>
  is \<open>cache\<close>: what it yields and the field's value afterwards.
\<close>

definition generate_stream_v2 :: "bool \<Rightarrow> string option \<Rightarrow> chunk list \<Rightarrow> yielded list \<times> string option" where
  "generate_stream_v2 g3 cache chs =
     (let (st, ys) = stream_run_v2 g3 (start_acc cache) chs in (ys @ final_flush st, a_cache st))"


section \<open>Observations\<close>

definition part_answer_text :: "part \<Rightarrow> string" where
  "part_answer_text p = (if pt_thought p then [] else (case pt_text p of None \<Rightarrow> [] | Some t \<Rightarrow> t))"

definition part_thought_text :: "part \<Rightarrow> string" where
  "part_thought_text p = (if pt_thought p then (case pt_text p of None \<Rightarrow> [] | Some t \<Rightarrow> t) else [])"

definition flushed_text :: "yielded \<Rightarrow> string" where
  "flushed_text y = (case y of Flush ps _ \<Rightarrow> concat (map part_answer_text ps) | Resp _ \<Rightarrow> [])"

definition flushed_thought :: "yielded \<Rightarrow> string" where
  "flushed_thought y = (case y of Flush ps _ \<Rightarrow> concat (map part_thought_text ps) | Resp _ \<Rightarrow> [])"

text \<open>The text a chunk contributes: the text of its first part, when it has one.\<close>

definition chunk_text :: "chunk \<Rightarrow> string" where
  "chunk_text ch = (let fp = first_part (c_resp ch) in
     if has_text fp \<and> \<not> pt_thought (the fp) then the (pt_text (the fp)) else [])"

definition chunk_thought :: "chunk \<Rightarrow> string" where
  "chunk_thought ch = (let fp = first_part (c_resp ch) in
     if has_text fp \<and> pt_thought (the fp) then the (pt_text (the fp)) else [])"

definition resp_of :: "yielded \<Rightarrow> llm_response option" where
  "resp_of y = (case y of Resp r \<Rightarrow> Some r | Flush _ _ \<Rightarrow> None)"

definition marked :: "chunk \<Rightarrow> llm_response" where
  "marked ch = (if has_text (first_part (c_resp ch)) then (c_resp ch)\<lparr>r_partial := True\<rparr> else c_resp ch)"

text \<open>A chunk whose only part is a text (or thought) part, used in the examples.\<close>

definition text_chunk :: "string \<Rightarrow> bool \<Rightarrow> bool \<Rightarrow> chunk" where
  "text_chunk t th stop = \<lparr>c_resp = \<lparr>r_content = Some \<lparr>ct_parts = Some [\<lparr>pt_text = Some t, pt_thought = th,
     pt_sig = None, pt_inline = False, pt_call = None\<rparr>]\<rparr>, r_partial = False, r_usage = None\<rparr>, c_stop = stop\<rparr>"

text \<open>A chunk whose first part is a text and whose second part is a function call.\<close>

definition text_call_chunk :: "string \<Rightarrow> string \<Rightarrow> bool \<Rightarrow> chunk" where
  "text_call_chunk t f stop = \<lparr>c_resp = \<lparr>r_content = Some \<lparr>ct_parts = Some [text_part t,
     \<lparr>pt_text = None, pt_thought = False, pt_sig = None, pt_inline = False, pt_call = Some f\<rparr>]\<rparr>,
     r_partial = False, r_usage = None\<rparr>, c_stop = stop\<rparr>"

text \<open>
  The invariant of the accumulator of revision 2: a signature held by the loop is
  also the cached one. Forgetting the cache relates revision 2 to revision 1.
\<close>

definition sig_inv :: "acc \<Rightarrow> bool" where
  "sig_inv st = (js_truthy (a_sig st) \<longrightarrow> js_truthy (a_cache st))"

definition forget_cache :: "acc \<Rightarrow> acc" where
  "forget_cache st = st\<lparr>a_cache := None\<rparr>"

section \<open>Lemmas on revision 1\<close>

lemma flush_parts_texts:
  "concat (map part_answer_text (flush_parts st)) = a_text st"
  "concat (map part_thought_text (flush_parts st)) = a_thought st"
  by (simp_all add: flush_parts_def part_answer_text_def part_thought_text_def thought_part_def text_part_def)

lemma flush_parts_nonempty: "flush_parts st = [] \<longleftrightarrow> a_thought st = [] \<and> a_text st = []"
  by (simp add: flush_parts_def)

lemma accumulate_fields:
  "a_text (accumulate c fp st) = a_text st @ (if pt_thought fp then [] else the (pt_text fp))"
  "a_thought (accumulate c fp st) = a_thought st @ (if pt_thought fp then the (pt_text fp) else [])"
  "a_last_stop (accumulate c fp st) = a_last_stop st"
  "a_usage (accumulate c fp st) = a_usage st"
  by (simp_all add: accumulate_def Let_def)

lemmas step_v1_simps = stream_step_v1_def Let_def reset_acc_def flush_parts_texts accumulate_fields
  chunk_text_def chunk_thought_def flushed_text_def flushed_thought_def

lemma step_v1_texts:
  assumes "stream_step_v1 st ch = (st', ys)"
  shows "concat (map flushed_text ys) @ a_text st' = a_text st @ chunk_text ch
    \<and> concat (map flushed_thought ys) @ a_thought st' = a_thought st @ chunk_thought ch
    \<and> a_last_stop st' = Some (c_stop ch)"
  using assms by (auto simp: step_v1_simps split: if_splits)

lemma run_v1_texts:
  assumes "stream_run_v1 st chs = (st', ys)"
  shows "concat (map flushed_text ys) @ a_text st' = a_text st @ concat (map chunk_text chs)
    \<and> concat (map flushed_thought ys) @ a_thought st' = a_thought st @ concat (map chunk_thought chs)
    \<and> (chs \<noteq> [] \<longrightarrow> a_last_stop st' = Some (c_stop (last chs)))"
  using assms
proof (induction chs arbitrary: st st' ys)
  case Nil
  then show ?case by simp
next
  case (Cons ch chs)
  obtain st1 ys1 where s1: "stream_step_v1 st ch = (st1, ys1)" by (cases "stream_step_v1 st ch")
  obtain st2 ys2 where s2: "stream_run_v1 st1 chs = (st2, ys2)" by (cases "stream_run_v1 st1 chs")
  from Cons.prems s1 s2 have "st' = st2" "ys = ys1 @ ys2" by auto
  moreover have "chs = [] \<Longrightarrow> st2 = st1" using s2 by simp
  ultimately show ?case using step_v1_texts [OF s1] Cons.IH [OF s2] by auto
qed

lemma map_filter_append: "List.map_filter f (xs @ ys) = List.map_filter f xs @ List.map_filter f ys"
  by (induction xs) (auto split: option.splits)

lemma step_v1_resps: "stream_step_v1 st ch = (st', ys) \<Longrightarrow> List.map_filter resp_of ys = [marked ch]"
  by (auto simp: stream_step_v1_def Let_def marked_def resp_of_def split: if_splits)

lemma run_v1_resps: "stream_run_v1 st chs = (st', ys) \<Longrightarrow> List.map_filter resp_of ys = map marked chs"
proof (induction chs arbitrary: st st' ys)
  case Nil
  then show ?case by simp
next
  case (Cons ch chs)
  obtain st1 ys1 where s1: "stream_step_v1 st ch = (st1, ys1)" by (cases "stream_step_v1 st ch")
  obtain st2 ys2 where s2: "stream_run_v1 st1 chs = (st2, ys2)" by (cases "stream_run_v1 st1 chs")
  from Cons.prems s1 s2 have "ys = ys1 @ ys2" by auto
  with step_v1_resps [OF s1] Cons.IH [OF s2] show ?case by (simp add: map_filter_append)
qed

lemma final_flush_resps: "List.map_filter resp_of (final_flush st) = []"
  by (simp add: final_flush_def resp_of_def)

section \<open>Lemmas on revision 2\<close>

lemma set_first_calls_has_call [simp]:
  "list_ex has_call (set_first_call s ps) = list_ex has_call ps"
  "list_ex has_call (set_first_call_if_unsigned s ps) = list_ex has_call ps"
  "list_ex has_call (set_first_unsigned_call s ps) = list_ex has_call ps"
  by (induction ps) (auto simp: has_call_def)

lemma set_first_unsigned_call_signed:
  "list_ex (\<lambda>p. has_call p \<and> \<not> signed p) ps \<Longrightarrow> js_truthy s \<Longrightarrow> list_ex signed (set_first_unsigned_call s ps)"
  by (induction ps) (auto simp: signed_def)

lemma list_ex_unsigned_call: "list_ex has_call ps \<Longrightarrow> \<not> list_ex signed ps \<Longrightarrow> list_ex (\<lambda>p. has_call p \<and> \<not> signed p) ps"
  by (induction ps) auto

lemma list_ex_filter: "list_ex P xs \<longleftrightarrow> length (filter P xs) \<noteq> 0"
  by (induction xs) auto

lemma resp_parts_Some_content: "resp_parts r = Some ps \<Longrightarrow> r_content r \<noteq> None"
  by (auto simp: resp_parts_def split: option.splits)

lemma post_sign_signed:
  assumes "list_ex has_call ps" and "js_truthy (js_or sig cache)"
  shows "list_ex signed (post_sign sig cache ps)"
proof -
  define ps1 where "ps1 = (if \<not> list_ex signed ps \<and> js_truthy sig then set_first_call sig ps else ps)"
  have c: "list_ex has_call ps1" using assms(1) by (simp add: ps1_def)
  show ?thesis
  proof (cases "length (filter signed ps1) = 0")
    case True
    then have "\<not> list_ex signed ps1" by (simp add: list_ex_filter)
    with c assms(2) show ?thesis
      by (simp add: post_sign_def Let_def ps1_def [symmetric] True set_first_unsigned_call_signed list_ex_unsigned_call)
        (simp add: list_ex_filter)
  next
    case False
    then have "list_ex signed ps1" by (simp add: list_ex_filter)
    with False show ?thesis by (simp add: post_sign_def Let_def ps1_def [symmetric])
  qed
qed

lemma resp_parts_set_parts [simp]:
  "resp_parts (set_parts ps r) = (case r_content r of None \<Rightarrow> None | Some _ \<Rightarrow> Some ps)"
  by (simp add: set_parts_def resp_parts_def split: option.splits)

lemma resp_parts_partial [simp]: "resp_parts (r\<lparr>r_partial := b\<rparr>) = resp_parts r"
  by (simp add: resp_parts_def)

lemma resp_calls_content: "resp_calls r \<Longrightarrow> \<exists>ps. resp_parts r = Some ps \<and> list_ex has_call ps \<and> r_content r \<noteq> None"
  by (auto simp: resp_calls_def resp_parts_def split: option.splits)

lemma sign_calls_signed:
  assumes "resp_calls r" and "js_truthy (a_cache st)"
  shows "resp_signed (sign_calls True True st r)"
proof -
  obtain ps where "resp_parts r = Some ps" "list_ex has_call ps" "r_content r \<noteq> None"
    using resp_calls_content [OF assms(1)] by blast
  with assms(2) show ?thesis
    by (auto simp: sign_calls_def resp_signed_def post_sign_signed js_or_def)
qed

lemma sign_calls_calls [simp]: "resp_calls (sign_calls g3 c st r) = resp_calls r"
  by (auto simp: sign_calls_def resp_calls_def post_sign_def Let_def resp_parts_Some_content split: option.splits)

lemma flush_parts_no_call: "\<not> list_ex has_call (flush_parts st)"
  by (simp add: flush_parts_def has_call_def thought_part_def text_part_def)

lemma merge_parts_calls [simp]: "resp_calls (merge_parts st r) = resp_calls r"
  by (auto simp: merge_parts_def resp_calls_def Let_def flush_parts_no_call split: option.splits)
     (auto simp: resp_parts_def split: option.splits)

lemma resp_calls_partial [simp]: "resp_calls (r\<lparr>r_partial := b\<rparr>) = resp_calls r"
  by (simp add: resp_calls_def)

lemma acc_cache_simps [simp]:
  "a_cache (reset_acc st) = a_cache st"
  "a_sig (reset_acc st) = None"
  "a_cache (accumulate True fp st) = (if pt_thought fp \<and> js_truthy (pt_sig fp) then pt_sig fp else a_cache st)"
  "a_sig (accumulate True fp st) = (if pt_thought fp \<and> js_truthy (pt_sig fp) then pt_sig fp else a_sig st)"
  by (simp_all add: reset_acc_def accumulate_def Let_def)

lemma find_signed: "find signed ps = Some p \<Longrightarrow> js_truthy (pt_sig p)"
  by (metis find_Some_iff signed_def)

lemma find_signed_ex: "list_ex signed ps \<Longrightarrow> \<exists>p. find signed ps = Some p"
  by (induction ps) auto

lemma capture_sig_inv: "sig_inv st \<Longrightarrow> sig_inv (capture_sig g3 r st)"
  using find_signed by (fastforce simp: capture_sig_def sig_inv_def split: option.splits)

lemma capture_sig_mono: "js_truthy (a_cache st) \<Longrightarrow> js_truthy (a_cache (capture_sig g3 r st))"
  using find_signed by (fastforce simp: capture_sig_def split: option.splits)

lemma capture_sig_signed:
  "sig_inv st \<Longrightarrow> resp_signed r \<Longrightarrow> js_truthy (a_cache (capture_sig True r st))"
  using find_signed find_signed_ex
  by (fastforce simp: capture_sig_def sig_inv_def resp_signed_def split: option.splits)

lemma sig_inv_steps [simp]:
  "sig_inv (reset_acc st)"
  "sig_inv st \<Longrightarrow> sig_inv (accumulate True fp st)"
  "sig_inv (st\<lparr>a_usage := u, a_last_stop := l\<rparr>) = sig_inv st"
  by (simp_all add: sig_inv_def)

lemma step_v2_cache:
  assumes "stream_step_v2 g3 st ch = (st', ys)" and "sig_inv st"
  shows "sig_inv st' \<and> (js_truthy (a_cache st) \<longrightarrow> js_truthy (a_cache st'))
    \<and> (g3 \<and> resp_signed (c_resp ch) \<longrightarrow> js_truthy (a_cache st'))"
proof -
  define st1 where "st1 = capture_sig g3 (c_resp ch) (st\<lparr>a_usage := r_usage (c_resp ch), a_last_stop := Some (c_stop ch)\<rparr>)"
  have i1: "sig_inv st1" using assms(2) capture_sig_inv by (simp add: st1_def)
  have m1: "js_truthy (a_cache st) \<longrightarrow> js_truthy (a_cache st1)"
    using capture_sig_mono by (simp add: st1_def)
  have s1: "g3 \<and> resp_signed (c_resp ch) \<longrightarrow> js_truthy (a_cache st1)"
    using assms(2) capture_sig_signed by (simp add: st1_def)
  have "st' = st1 \<or> st' = reset_acc st1 \<or> st' = accumulate True (the (first_part (c_resp ch))) st1
    \<or> st' = reset_acc (accumulate True (the (first_part (c_resp ch))) st1)"
    using assms(1) by (auto simp: stream_step_v2_def Let_def st1_def split: if_splits)
  with i1 m1 s1 show ?thesis by auto
qed

lemma step_v2_signed:
  assumes "stream_step_v2 True st ch = (st', ys)" and "js_truthy (a_cache st)"
    and "Resp r \<in> set ys" and "resp_calls r"
  shows "resp_signed r"
proof -
  define st1 where "st1 = capture_sig True (c_resp ch) (st\<lparr>a_usage := r_usage (c_resp ch), a_last_stop := Some (c_stop ch)\<rparr>)"
  have m1: "js_truthy (a_cache st1)" using assms(2) capture_sig_mono by (simp add: st1_def)
  obtain X r0 where r: "r = sign_calls True (resp_calls (c_resp ch)) X r0" and c: "resp_calls r0 = resp_calls (c_resp ch)"
    and x: "js_truthy (a_cache X)"
    using assms(1,3) m1 by (auto simp: stream_step_v2_def Let_def st1_def [symmetric] split: if_splits)
  have "resp_calls (c_resp ch)" using assms(4) c by (simp add: r)
  with r c x show ?thesis by (simp add: sign_calls_signed)
qed

lemma run_v2_cache:
  assumes "stream_run_v2 g3 st chs = (st', ys)" and "sig_inv st"
  shows "sig_inv st' \<and> (js_truthy (a_cache st) \<longrightarrow> js_truthy (a_cache st'))
    \<and> (g3 \<and> list_ex (\<lambda>ch. resp_signed (c_resp ch)) chs \<longrightarrow> js_truthy (a_cache st'))"
  using assms
proof (induction chs arbitrary: st st' ys)
  case Nil
  then show ?case by simp
next
  case (Cons ch chs)
  obtain st1 ys1 where s1: "stream_step_v2 g3 st ch = (st1, ys1)" by (cases "stream_step_v2 g3 st ch")
  obtain st2 ys2 where s2: "stream_run_v2 g3 st1 chs = (st2, ys2)" by (cases "stream_run_v2 g3 st1 chs")
  from Cons.prems s1 s2 have "st' = st2" by auto
  moreover note step = step_v2_cache [OF s1 Cons.prems(2)]
  moreover note Cons.IH [OF s2] 
  ultimately show ?case by auto
qed

lemma run_v2_signed:
  assumes "stream_run_v2 True st chs = (st', ys)" and "sig_inv st" and "js_truthy (a_cache st)"
    and "Resp r \<in> set ys" and "resp_calls r"
  shows "resp_signed r"
  using assms
proof (induction chs arbitrary: st st' ys)
  case Nil
  then show ?case by simp
next
  case (Cons ch chs)
  obtain st1 ys1 where s1: "stream_step_v2 True st ch = (st1, ys1)" by (cases "stream_step_v2 True st ch")
  obtain st2 ys2 where s2: "stream_run_v2 True st1 chs = (st2, ys2)" by (cases "stream_run_v2 True st1 chs")
  from Cons.prems s1 s2 have ys: "ys = ys1 @ ys2" by auto
  have c1: "sig_inv st1 \<and> js_truthy (a_cache st1)" using step_v2_cache [OF s1 Cons.prems(2)] Cons.prems(3) by simp
  show ?case
  proof (cases "Resp r \<in> set ys1")
    case True
    then show ?thesis using step_v2_signed [OF s1 Cons.prems(3)] Cons.prems(5) by blast
  next
    case False
    with Cons.prems(4) ys have "Resp r \<in> set ys2" by simp
    with Cons.IH [OF s2] c1 Cons.prems(5) show ?thesis by blast
  qed
qed

lemma sig_inv_start [simp]: "sig_inv (start_acc c)"
  by (simp add: sig_inv_def start_acc_def)

lemma generate_stream_v2_split:
  "\<exists>st ys. stream_run_v2 g3 (start_acc cache) chs = (st, ys) \<and> generate_stream_v2 g3 cache chs = (ys @ final_flush st, a_cache st)"
  by (cases "stream_run_v2 g3 (start_acc cache) chs") (simp add: generate_stream_v2_def)

lemma final_flush_no_resp: "Resp r \<notin> set (final_flush st)"
  by (simp add: final_flush_def)

lemma generate_v2_signed:
  assumes "Resp r \<in> set (fst (generate_stream_v2 True cache chs))" and "resp_calls r" and "js_truthy cache"
  shows "resp_signed r"
proof -
  obtain st ys where r: "stream_run_v2 True (start_acc cache) chs = (st, ys)"
    and g: "generate_stream_v2 True cache chs = (ys @ final_flush st, a_cache st)"
    using generate_stream_v2_split by blast
  from assms(1) g final_flush_no_resp have "Resp r \<in> set ys" by auto
  with run_v2_signed [OF r sig_inv_start] assms(2,3) show ?thesis by (simp add: start_acc_def)
qed

lemma generate_v2_cache:
  "js_truthy cache \<or> list_ex (\<lambda>ch. resp_signed (c_resp ch)) chs \<Longrightarrow> js_truthy (snd (generate_stream_v2 True cache chs))"
proof -
  assume a: "js_truthy cache \<or> list_ex (\<lambda>ch. resp_signed (c_resp ch)) chs"
  obtain st ys where r: "stream_run_v2 True (start_acc cache) chs = (st, ys)"
    and g: "generate_stream_v2 True cache chs = (ys @ final_flush st, a_cache st)"
    using generate_stream_v2_split by blast
  from run_v2_cache [OF r sig_inv_start] a show ?thesis by (auto simp: g start_acc_def)
qed

lemma forget_cache_simps [simp]:
  "a_thought (forget_cache st) = a_thought st" "a_text (forget_cache st) = a_text st"
  "a_sig (forget_cache st) = a_sig st" "a_usage (forget_cache st) = a_usage st"
  "a_last_stop (forget_cache st) = a_last_stop st"
  "flush_parts (forget_cache st) = flush_parts st"
  "flush_due (forget_cache st) fp = flush_due st fp"
  "final_flush (forget_cache st) = final_flush st"
  "forget_cache (reset_acc st) = reset_acc (forget_cache st)"
  "forget_cache (accumulate True p st) = accumulate False p (forget_cache st)"
  by (simp_all add: forget_cache_def flush_parts_def flush_due_def final_flush_def reset_acc_def
      accumulate_def Let_def)

lemma capture_sign_generic [simp]: "capture_sig False r st = st" "sign_calls False c st r = r"
  by (simp_all add: capture_sig_def sign_calls_def split: option.splits)

lemma step_v2_generic:
  "stream_step_v2 False st ch = (st', ys) \<Longrightarrow> stream_step_v1 (forget_cache st) ch = (forget_cache st', ys)"
  by (auto simp: stream_step_v2_def stream_step_v1_def Let_def forget_cache_def flush_parts_def flush_due_def
      reset_acc_def accumulate_def split: if_splits)

lemma run_v2_generic:
  "stream_run_v2 False st chs = (st', ys) \<Longrightarrow> stream_run_v1 (forget_cache st) chs = (forget_cache st', ys)"
proof (induction chs arbitrary: st st' ys)
  case Nil
  then show ?case by simp
next
  case (Cons ch chs)
  obtain st1 ys1 where s1: "stream_step_v2 False st ch = (st1, ys1)" by (cases "stream_step_v2 False st ch")
  obtain st2 ys2 where s2: "stream_run_v2 False st1 chs = (st2, ys2)" by (cases "stream_run_v2 False st1 chs")
  from Cons.prems s1 s2 have "st' = st2" "ys = ys1 @ ys2" by auto
  with step_v2_generic [OF s1] Cons.IH [OF s2] show ?case by simp
qed




lemma generate_stream_v1_split:
  "\<exists>st ys. stream_run_v1 (start_acc None) chs = (st, ys) \<and> generate_stream_v1 chs = ys @ final_flush st"
  by (cases "stream_run_v1 (start_acc None) chs") (simp add: generate_stream_v1_def)

lemma final_flush_texts:
  assumes "a_last_stop st = Some True"
  shows "concat (map flushed_text (final_flush st)) = a_text st"
    "concat (map flushed_thought (final_flush st)) = a_thought st"
  using assms by (auto simp: final_flush_def flushed_text_def flushed_thought_def flush_parts_texts)

text \<open>
  C19. Revision 1 streams the whole text: when the stream ends with a chunk that
  finished with STOP, the aggregated responses it yields carry, in order, exactly
  the answer text of the chunks and exactly their thought text.
\<close>

theorem stream_v1_text_conserved:
  assumes "chs \<noteq> []" and "c_stop (last chs)"
  shows "concat (map flushed_text (generate_stream_v1 chs)) = concat (map chunk_text chs)
    \<and> concat (map flushed_thought (generate_stream_v1 chs)) = concat (map chunk_thought chs)"
proof -
  obtain st ys where r: "stream_run_v1 (start_acc None) chs = (st, ys)"
    and g: "generate_stream_v1 chs = ys @ final_flush st"
    using generate_stream_v1_split by blast
  note inv = run_v1_texts [OF r]
  with assms have "a_last_stop st = Some True" by simp
  with inv g show ?thesis by (simp add: final_flush_texts start_acc_def)
qed

theorem stream_v1_text_conserved_witness:
  "concat (map flushed_text (generate_stream_v1 [text_chunk ''Hel'' False False, text_chunk ''lo'' False True]))
     = ''Hello''"
  using stream_v1_text_conserved [of "[text_chunk ''Hel'' False False, text_chunk ''lo'' False True]"]
  by (simp add: text_chunk_def chunk_text_def chunk_thought_def first_part_def resp_parts_def has_text_def)

text \<open>Without a final STOP the accumulated text is not aggregated.\<close>

lemma stream_v1_text_lost_without_stop:
  "concat (map chunk_text [text_chunk ''Hi'' False False]) = ''Hi''
   \<and> concat (map flushed_text (generate_stream_v1 [text_chunk ''Hi'' False False])) = []"
  by (simp add: text_chunk_def chunk_text_def first_part_def resp_parts_def has_text_def generate_stream_v1_def
      stream_step_v1_def accumulate_def start_acc_def final_flush_def flushed_text_def)

text \<open>
  C20. Revision 1 forwards every chunk: leaving the aggregates aside, the generator
  yields the response of each chunk once and in order, marked partial exactly when
  its first part has text.
\<close>

theorem stream_v1_forwards_chunks: "List.map_filter resp_of (generate_stream_v1 chs) = map marked chs"
proof -
  obtain st ys where r: "stream_run_v1 (start_acc None) chs = (st, ys)"
    and g: "generate_stream_v1 chs = ys @ final_flush st"
    using generate_stream_v1_split by blast
  show ?thesis using run_v1_resps [OF r] by (simp add: g map_filter_append final_flush_resps)
qed

text \<open>
  C21. Revision 2 without Gemini 3 is revision 1: for a model other than the
  Gemini 3 preview, the stream it yields is the one revision 1 yields, whatever
  signature the instance has cached.
\<close>

theorem stream_v2_generic_is_v1: "fst (generate_stream_v2 False cache chs) = generate_stream_v1 chs"
proof -
  obtain st ys where r: "stream_run_v2 False (start_acc cache) chs = (st, ys)"
    and g: "generate_stream_v2 False cache chs = (ys @ final_flush st, a_cache st)"
    using generate_stream_v2_split by blast
  have "forget_cache (start_acc cache) = start_acc None" by (simp add: forget_cache_def start_acc_def)
  with run_v2_generic [OF r] have "stream_run_v1 (start_acc None) chs = (forget_cache st, ys)" by simp
  then show ?thesis by (simp add: g generate_stream_v1_def)
qed

text \<open>
  With Gemini 3, a thought signature held by the instance, or met in an
  earlier streaming call, is put on every function-call response that a later
  streaming call yields: the cached signature is kept across calls, and each
  yielded response with a function call carries a signature.
\<close>

theorem stream_v2_signature_carried:
  assumes "js_truthy cache \<or> list_ex (\<lambda>ch. resp_signed (c_resp ch)) chs1"
    and "Resp r \<in> set (fst (generate_stream_v2 True (snd (generate_stream_v2 True cache chs1)) chs2))"
    and "resp_calls r"
  shows "resp_signed r"
  using generate_v2_signed [OF assms(2,3) generate_v2_cache [OF assms(1)]] .

lemmas stream_example_simps = generate_stream_v2_def start_acc_def stream_step_v2_def Let_def
  text_call_chunk_def text_chunk_def first_part_def resp_parts_def has_text_def resp_calls_def capture_sig_def
  accumulate_def reset_acc_def sign_calls_def post_sign_def set_parts_def has_call_def signed_def
  final_flush_def flush_parts_def flush_due_def text_part_def

theorem stream_v2_signature_carried_witness:
  "\<exists>r. Resp r \<in> set (fst (generate_stream_v2 True (snd (generate_stream_v2 True (Some ''s'') [])) [text_call_chunk ''Hi'' ''f'' True]))
     \<and> resp_calls r \<and> resp_signed r"
proof -
  have "\<exists>r. fst (generate_stream_v2 True (snd (generate_stream_v2 True (Some ''s'') [])) [text_call_chunk ''Hi'' ''f'' True])
      = [Resp r] \<and> resp_calls r"
    by (simp add: stream_example_simps)
  then obtain r where g: "fst (generate_stream_v2 True (snd (generate_stream_v2 True (Some ''s'') [])) [text_call_chunk ''Hi'' ''f'' True])
      = [Resp r]" and c: "resp_calls r" by blast
  have "resp_signed r"
    using stream_v2_signature_carried [of "Some ''s''" "[]" r "[text_call_chunk ''Hi'' ''f'' True]"] g c by simp
  with g c show ?thesis by auto
qed



text \<open>
  C23. Revision 2 loses streamed text with Gemini 3: a chunk whose first part is
  text and which also carries a function call leaves the accumulator with no text
  and no thought, and what the step yields flushes none, so the text and thought
  accumulated from the earlier chunks are neither yielded nor kept. Revision 1 on
  the same step keeps them.
\<close>

theorem stream_v2_g3_drops_text:
  assumes "has_text (first_part (c_resp ch))" and "resp_calls (c_resp ch)"
  shows "a_text (fst (stream_step_v2 True st ch)) = [] \<and> a_thought (fst (stream_step_v2 True st ch)) = []
         \<and> (\<forall>y \<in> set (snd (stream_step_v2 True st ch)). flushed_text y = [] \<and> flushed_thought y = [])
         \<and> (\<exists>t. a_text (fst (stream_step_v1 st ch)) = a_text st @ t)
         \<and> (\<exists>t. a_thought (fst (stream_step_v1 st ch)) = a_thought st @ t)"
  using assms by (auto simp: stream_step_v2_def stream_step_v1_def Let_def reset_acc_def accumulate_def
      flushed_text_def flushed_thought_def)

theorem stream_v2_g3_drops_text_witness:
  "a_text (fst (stream_step_v2 True ((start_acc None)\<lparr>a_text := ''Hello ''\<rparr>) (text_call_chunk ''world'' ''f'' True))) = []
   \<and> a_text (fst (stream_step_v1 ((start_acc None)\<lparr>a_text := ''Hello ''\<rparr>) (text_call_chunk ''world'' ''f'' True))) = ''Hello world''"
  using stream_v2_g3_drops_text [of "text_call_chunk ''world'' ''f'' True" "(start_acc None)\<lparr>a_text := ''Hello ''\<rparr>"]
  by (simp add: text_call_chunk_def text_part_def first_part_def resp_parts_def has_text_def resp_calls_def has_call_def stream_step_v1_def accumulate_def)
text \<open>
  On the whole stream: \<open>Hello \<close> followed by \<open>world\<close> with a call gives the
  aggregate \<open>Hello world\<close> in revision 1 and no aggregate text in revision 2.
\<close>

lemma stream_v2_g3_hello_world:
  "concat (map chunk_text [text_chunk ''Hello '' False False, text_call_chunk ''world'' ''f'' True]) = ''Hello world''
   \<and> concat (map flushed_text (generate_stream_v1 [text_chunk ''Hello '' False False, text_call_chunk ''world'' ''f'' True]))
       = ''Hello world''
   \<and> concat (map flushed_text (fst (generate_stream_v2 True None
       [text_chunk ''Hello '' False False, text_call_chunk ''world'' ''f'' True]))) = []"
  by (simp add: stream_example_simps chunk_text_def flushed_text_def generate_stream_v1_def stream_step_v1_def
      part_answer_text_def)

section \<open>Request headers\<close>

text \<open>
  The spread in \<open>generateContentAsync\<close> and \<open>Object.assign\<close> in \<open>connect\<close> merge
  the tracking headers into headers with distinct names the same way.
\<close>

lemma update_new_key: "k \<notin> fst ` set al \<Longrightarrow> AList.update k v al = al @ [(k, v)]"
  by (induction al) auto

lemma fold_update_fresh:
  "distinct (map fst h) \<Longrightarrow> fst ` set h \<inter> fst ` set acc = {} \<Longrightarrow>
   fold (\<lambda>(k, v). AList.update k v) h acc = acc @ h"
proof (induction h arbitrary: acc)
  case Nil then show ?case by simp
next
  case (Cons kv h)
  obtain k v where kv: "kv = (k, v)" by fastforce
  have "AList.update k v acc = acc @ [(k, v)]"
    using Cons.prems kv by (intro update_new_key) auto
  moreover have "fst ` set h \<inter> fst ` set (acc @ [(k, v)]) = {}"
    using Cons.prems kv by auto
  ultimately show ?case
    using Cons.IH [of "acc @ [(k, v)]"] Cons.prems kv by simp
qed

lemma request_headers_assign:
  "distinct (map fst h) \<Longrightarrow> request_headers (Some h) th = assign_headers h th"
  by (simp add: request_headers_def spread_object_def assign_headers_def fold_update_fresh)
end
