(* ===== verification/CliRun.thy ===== *)
theory CliRun
  imports Prelude
begin

text \<open>
  The command-line runner of src/dev/src/cli/cli_run.ts: \<open>runFromInputFile\<close>,
  \<open>runInteractively\<close> and \<open>runAgent\<close>. The session service and the Runner
  are the interface \<open>services\<close> over an abstract storage \<open>'s\<close> and event type
  \<open>'e\<close>: creating a session, running the agent on one user message (what
  \<open>runner.runAsync\<close> yields, with its effect on the storage), appending an event,
  and the author and content of an event, which is all the runner reads of it. Standard input is the list of lines the user types; the files the runner
  loads are given by their parsed content (\<open>None\<close> when \<open>loadFileData\<close>
  returns \<open>undefined\<close>). What is printed on the console is a list of lines.
\<close>

section \<open>Events as the runner prints them\<close>

text \<open>What the runner reads of an event: its author and its content, whose parts may be absent; a part is its text.\<close>

record cli_event =
  ev_author :: string
  ev_content :: "string option list option option"

type_synonym sid = nat
type_synonym session_state = "string \<rightharpoonup> string"

text \<open>
  The interface to the runtime, over its storage \<open>'s\<close> and its event type \<open>'e\<close>:
  \<open>sessionService.createSession\<close>, \<open>runner.runAsync\<close> on one user message,
  \<open>sessionService.appendEvent\<close>, and the fields of an event the runner prints.
\<close>

record ('s, 'e) services =
  svc_create :: "string \<Rightarrow> string \<Rightarrow> session_state \<Rightarrow> 's \<Rightarrow> 's \<times> sid"
  svc_run :: "sid \<Rightarrow> string \<Rightarrow> 's \<Rightarrow> 's \<times> 'e list"
  svc_append :: "sid \<Rightarrow> 'e \<Rightarrow> 's \<Rightarrow> 's"
  svc_view :: "'e \<Rightarrow> cli_event"

text \<open>\<open>part.text || ''''\<close>.\<close>

definition part_text :: "string option \<Rightarrow> string" where
  "part_text t = (case t of None \<Rightarrow> [] | Some s \<Rightarrow> s)"

definition author_line :: "string \<Rightarrow> string \<Rightarrow> string" where
  "author_line a t = ''['' @ a @ '']: '' @ t"

text \<open>Lines 72-78 and 118-124: the text of the parts joined with \<open>''''\<close>, printed when not empty.\<close>

definition event_line :: "cli_event \<Rightarrow> string list" where
  "event_line e = (case ev_content e of
     Some (Some ps) \<Rightarrow> (let t = js_join [] (map part_text ps) in if t \<noteq> [] then [author_line (ev_author e) t] else [])
   | _ \<Rightarrow> [])"

text \<open>Lines 176-182: the same for a saved event, guarded by \<open>content.parts?.length\<close>.\<close>

definition saved_event_line :: "cli_event \<Rightarrow> string list" where
  "saved_event_line e = (case ev_content e of
     Some (Some ps) \<Rightarrow> (if length ps \<noteq> 0 then
         (let t = js_join [] (map part_text ps) in if t \<noteq> [] then [author_line (ev_author e) t] else [])
       else [])
   | _ \<Rightarrow> [])"

section \<open>Input lines\<close>

text \<open>
  \<open>!query || !query.trim()\<close>: the line is empty or consists of white space
  (the ECMAScript white space and line terminators below 256).
\<close>

definition js_space :: "char \<Rightarrow> bool" where
  "js_space c = (of_char c \<in> {9, 10, 11, 12, 13, 32, 160 :: nat})"

definition is_blank :: "string \<Rightarrow> bool" where
  "is_blank q = (q = [] \<or> list_all js_space q)"

text \<open>
  \<open>getUserInput(prompt)\<close>: the promise resolves with the next line typed; when the
  input has ended the readline question is never answered and the promise never
  resolves (\<open>None\<close>).
\<close>

definition getUserInput :: "string list \<Rightarrow> (string \<times> string list) option" where
  "getUserInput inp = (case inp of [] \<Rightarrow> None | l # ls \<Rightarrow> Some (l, ls))"

section \<open>runFromInputFile\<close>

record input_file =
  in_state :: session_state
  in_queries :: "string list"

text \<open>The loop over the queries of the file (lines 62-80): each is echoed, then run.\<close>

fun run_queries :: "('s, 'e) services \<Rightarrow> sid \<Rightarrow> string list \<Rightarrow> 's \<Rightarrow> 's \<times> string list" where
  "run_queries svc sid [] s = (s, [])"
| "run_queries svc sid (q # qs) s =
     (let (s1, evs) = svc_run svc sid q s; (s2, out) = run_queries svc sid qs s1
      in (s2, author_line ''user'' q # concat (map (event_line \<circ> svc_view svc) evs) @ out))"

text \<open>
  The session it returns (\<open>None\<close> for \<open>undefined\<close>), the storage and the printed
  lines; \<open>now\<close> is \<open>new Date().toISOString()\<close>.
\<close>

definition runFromInputFile ::
  "('s, 'e) services \<Rightarrow> string \<Rightarrow> string \<Rightarrow> string \<Rightarrow> input_file option \<Rightarrow> 's \<Rightarrow> sid option \<times> 's \<times> string list" where
  "runFromInputFile svc appName userId now file s =
     (case file of
        None \<Rightarrow> (None, s, [])
      | Some f \<Rightarrow>
          (let st = (in_state f)(''_time'' \<mapsto> now);
               (s1, sid) = svc_create svc appName userId st s;
               (s2, out) = run_queries svc sid (in_queries f) s1
           in (Some sid, s2, out)))"

section \<open>runInteractively\<close>

text \<open>
  The \<open>while (true)\<close> loop of lines 102-126 over the lines typed: blank lines are
  skipped, \<open>exit\<close> leaves the loop, any other line is run. When the input ends
  before an \<open>exit\<close>, \<open>getUserInput\<close> never resolves and the loop never
  returns: \<open>cr_rest\<close> is then \<open>None\<close>; otherwise it is the input left after
  \<open>exit\<close>.
\<close>

record 's cli_run =
  cr_state :: 's
  cr_out :: "string list"
  cr_rest :: "string list option"

fun runInteractively :: "('s, 'e) services \<Rightarrow> sid \<Rightarrow> string list \<Rightarrow> 's \<Rightarrow> 's cli_run" where
  "runInteractively svc sid [] s = \<lparr>cr_state = s, cr_out = [], cr_rest = None\<rparr>"
| "runInteractively svc sid (q # qs) s =
     (if is_blank q then runInteractively svc sid qs s
      else if q = ''exit'' then \<lparr>cr_state = s, cr_out = [], cr_rest = Some qs\<rparr>
      else (let (s1, evs) = svc_run svc sid q s; r = runInteractively svc sid qs s1
            in r\<lparr>cr_out := concat (map (event_line \<circ> svc_view svc) evs) @ cr_out r\<rparr>))"

section \<open>runAgent\<close>

record run_options =
  o_agentPath :: string
  o_inputFile :: "string option"
  o_savedSessionFile :: "string option"
  o_saveSession :: bool
  o_sessionId :: "string option"

text \<open>Lines 174-183: each saved event is appended to the new session, then printed.\<close>

fun replay_events :: "('s, 'e) services \<Rightarrow> sid \<Rightarrow> 'e list \<Rightarrow> 's \<Rightarrow> 's \<times> string list" where
  "replay_events svc sid [] s = (s, [])"
| "replay_events svc sid (e # es) s =
     (let s1 = svc_append svc sid e s; (s2, out) = replay_events svc sid es s1
      in (s2, saved_event_line (svc_view svc e) @ out))"

text \<open>\<open>path.join(options.agentPath, file)\<close>, with Node's POSIX normalisation (Prelude).\<close>

definition path_join :: "string \<Rightarrow> string \<Rightarrow> string" where
  "path_join a b = path_join_all [a, b]"

text \<open>
  \<open>options.sessionId || await getUserInput(...)\<close>: the name to save under and the
  input left, or \<open>None\<close> when the input has ended and the prompt never resolves.
\<close>

definition session_name :: "string option \<Rightarrow> string list \<Rightarrow> (string \<times> string list) option" where
  "session_name opt inp = (if js_truthy opt then Some (the opt, inp) else getUserInput inp)"

record 's agent_run =
  ar_state :: 's
  ar_out :: "string list"
  ar_session :: sid
  ar_saved :: "string option"
  ar_returned :: bool

text \<open>Lines 204-217, reached only when the mode before returned (\<open>rest\<close> is the input left).\<close>

definition finish_run :: "run_options \<Rightarrow> 's \<Rightarrow> string list \<Rightarrow> sid \<Rightarrow> string list option \<Rightarrow> 's agent_run" where
  "finish_run opts s out sid rest =
     (case rest of
        None \<Rightarrow> \<lparr>ar_state = s, ar_out = out, ar_session = sid, ar_saved = None, ar_returned = False\<rparr>
      | Some inp \<Rightarrow>
          (if o_saveSession opts then
             (case session_name (o_sessionId opts) inp of
                None \<Rightarrow> \<lparr>ar_state = s, ar_out = out, ar_session = sid, ar_saved = None, ar_returned = False\<rparr>
              | Some (nm, _) \<Rightarrow>
                  (let p = path_join (o_agentPath opts) (nm @ ''.session.json'')
                   in \<lparr>ar_state = s, ar_out = out @ [''Session saved to '' @ p], ar_session = sid,
                        ar_saved = Some p, ar_returned = True\<rparr>))
           else \<lparr>ar_state = s, ar_out = out, ar_session = sid, ar_saved = None, ar_returned = True\<rparr>))"

text \<open>
  \<open>runAgent\<close> for a loaded root agent named \<open>rootName\<close>: the parsed input file and
  saved session (when the options name them), the time stamp and the input lines.
\<close>

definition runAgent ::
  "('s, 'e) services \<Rightarrow> run_options \<Rightarrow> string \<Rightarrow> input_file option \<Rightarrow> 'e list option \<Rightarrow> string
    \<Rightarrow> string list \<Rightarrow> 's \<Rightarrow> 's agent_run" where
  "runAgent svc opts rootName inputFile savedFile now stdin s =
     (let (s1, sid0) = svc_create svc rootName ''test_user'' Map.empty s
      in if js_truthy (o_inputFile opts) then
           (let (sido, s2, out) = runFromInputFile svc rootName ''test_user'' now inputFile s1;
                sid = (case sido of None \<Rightarrow> sid0 | Some x \<Rightarrow> x)
            in finish_run opts s2 out sid (Some stdin))
         else
           (let (s2, out1) =
                  (if js_truthy (o_savedSessionFile opts)
                   then (case savedFile of None \<Rightarrow> (s1, []) | Some evs \<Rightarrow> replay_events svc sid0 evs s1)
                   else (s1, [''Running agent '' @ rootName @ '', type exit to exit.'']));
                r = runInteractively svc sid0 stdin s2
            in finish_run opts (cr_state r) (out1 @ cr_out r) sid0 (cr_rest r)))"

section \<open>Reference: running a list of messages\<close>

fun run_messages :: "('s, 'e) services \<Rightarrow> sid \<Rightarrow> string list \<Rightarrow> 's \<Rightarrow> 's \<times> string list" where
  "run_messages svc sid [] s = (s, [])"
| "run_messages svc sid (q # qs) s =
     (let (s1, evs) = svc_run svc sid q s; (s2, out) = run_messages svc sid qs s1
      in (s2, concat (map (event_line \<circ> svc_view svc) evs) @ out))"

text \<open>An invariant of the storage that every operation of the services keeps.\<close>

definition svc_preserves :: "('s \<Rightarrow> bool) \<Rightarrow> ('s, 'e) services \<Rightarrow> bool" where
  "svc_preserves P svc =
     ((\<forall>app u st s. P s \<longrightarrow> P (fst (svc_create svc app u st s)))
      \<and> (\<forall>sid q s. P s \<longrightarrow> P (fst (svc_run svc sid q s)))
      \<and> (\<forall>sid e s. P s \<longrightarrow> P (svc_append svc sid e s)))"

text \<open>A sample instance of the services: the storage logs the messages run, the agent echoes them.\<close>

definition echo_services :: "(string list, cli_event) services" where
  "echo_services = \<lparr>svc_create = (\<lambda>app u st s. (s, 0)),
     svc_run = (\<lambda>sid q s. (s @ [q], [\<lparr>ev_author = ''echo'', ev_content = Some (Some [Some q])\<rparr>])),
     svc_append = (\<lambda>sid e s. s), svc_view = id\<rparr>"

section \<open>Lemmas\<close>

lemma is_blank_exit [simp]: "\<not> is_blank ''exit''"
  by (simp add: is_blank_def js_space_def)

lemma runInteractively_rest:
  "cr_rest (runInteractively svc sid qs s)
     = (if ''exit'' \<in> set qs then Some (tl (dropWhile (\<lambda>q. q \<noteq> ''exit'') qs)) else None)"
proof (induction qs arbitrary: s)
  case Nil
  then show ?case by simp
next
  case (Cons q qs)
  then show ?case by (auto simp: Let_def split: prod.split)
qed

lemma run_queries_state: "fst (run_queries svc sid qs s) = fst (run_messages svc sid qs s)"
  by (induction qs arbitrary: s) (simp_all add: split_def Let_def)

text \<open>
  C24. The interactive loop returns exactly when the user types \<open>exit\<close>: on an
  input without it, the loop waits for input forever.
\<close>

theorem runInteractively_returns:
  "cr_rest (runInteractively svc sid qs s) \<noteq> None \<longleftrightarrow> ''exit'' \<in> set qs"
  by (simp add: runInteractively_rest)

text \<open>
  C25. The interactive loop sends to the runner exactly the lines typed before the
  first \<open>exit\<close> that are not blank, in order, and prints for each what the
  runner yields: it is the reference loop over that list of messages.
\<close>

theorem runInteractively_refines:
  "(cr_state (runInteractively svc sid qs s), cr_out (runInteractively svc sid qs s))
     = run_messages svc sid (filter (\<lambda>q. \<not> is_blank q) (takeWhile (\<lambda>q. q \<noteq> ''exit'') qs)) s"
proof (induction qs arbitrary: s)
  case Nil
  then show ?case by simp
next
  case (Cons q qs)
  have "cr_state (runInteractively svc sid qs s') = fst (run_messages svc sid
      (filter (\<lambda>q. \<not> is_blank q) (takeWhile (\<lambda>q. q \<noteq> ''exit'') qs)) s')
    \<and> cr_out (runInteractively svc sid qs s') = snd (run_messages svc sid
      (filter (\<lambda>q. \<not> is_blank q) (takeWhile (\<lambda>q. q \<noteq> ''exit'') qs)) s')" for s'
    using Cons.IH [of s'] by (metis fst_conv snd_conv)
  then show ?case by (simp add: Let_def split_def)
qed

text \<open>
  C26. Input-file mode runs every query of the file, blank ones and \<open>exit\<close>
  included, in order, on a new session created with the file's state and the
  time stamp under \<open>_time\<close>.
\<close>

theorem runFromInputFile_runs_all:
  "fst (snd (runFromInputFile svc app user now (Some f) s))
     = (let (s1, sid) = svc_create svc app user ((in_state f)(''_time'' \<mapsto> now)) s
        in fst (run_messages svc sid (in_queries f) s1))"
  by (simp add: runFromInputFile_def run_queries_state split: prod.split)

text \<open>
  A saved event is printed exactly as a live one: the extra guard on the
  number of parts changes nothing.
\<close>

lemma path_join_plain:
  "\<forall>s \<in> set (split_path a). plain_seg s \<Longrightarrow> plain_seg f \<Longrightarrow> path_join a f = a @ ''/'' @ f"
  by (simp add: path_join_def path_join_all_plain)

theorem saved_event_line_eq: "saved_event_line e = event_line e"
  by (simp add: saved_event_line_def event_line_def split: option.split)

text \<open>
  C27. When the session is saved without a \<open>sessionId\<close> option after an
  interactive run, its name is the line typed after \<open>exit\<close>, and the file is
  \<open><agentPath>/<name>.session.json\<close>.
\<close>

theorem runAgent_save_name:
  assumes "o_saveSession opts" and "\<not> js_truthy (o_sessionId opts)" and "\<not> js_truthy (o_inputFile opts)"
    and "''exit'' \<notin> set pre"
  shows "ar_saved (runAgent svc opts nm inF sav now (pre @ ''exit'' # l # post) s)
    = Some (path_join (o_agentPath opts) (l @ ''.session.json''))"
proof -
  have d: "dropWhile (\<lambda>q. q \<noteq> ''exit'') (pre @ ''exit'' # l # post) = ''exit'' # l # post"
    using assms(4) by (subst dropWhile_append2) auto
  then have "cr_rest (runInteractively svc sid (pre @ ''exit'' # l # post) s') = Some (l # post)" for sid s'
    by (simp add: runInteractively_rest)
  with assms(1-3) show ?thesis
    by (simp add: runAgent_def finish_run_def session_name_def getUserInput_def Let_def split: prod.split)
qed

theorem runAgent_save_name_witness:
  "ar_saved (runAgent echo_services \<lparr>o_agentPath = ''./agents/hello/'', o_inputFile = None, o_savedSessionFile = None,
      o_saveSession = True, o_sessionId = None\<rparr> ''hello'' None None ''t'' [''hi'', '' '', ''exit'', ''s1''] [])
   = Some ''agents/hello/s1.session.json''"
  using runAgent_save_name [of "\<lparr>o_agentPath = ''./agents/hello/'', o_inputFile = None, o_savedSessionFile = None,
      o_saveSession = True, o_sessionId = None\<rparr>" "[''hi'', '' '']" echo_services "''hello''" None None "''t''" "''s1''" "[]" "[]"]
  by (simp add: path_join_def path_join_all_def path_normalize_def split_path_def)

section \<open>Invariants of the storage\<close>

lemma run_queries_preserves:
  "svc_preserves P svc \<Longrightarrow> P s \<Longrightarrow> P (fst (run_queries svc sid qs s))"
  by (induction qs arbitrary: s) (auto simp: svc_preserves_def split_def Let_def)

lemma runInteractively_preserves:
  "svc_preserves P svc \<Longrightarrow> P s \<Longrightarrow> P (cr_state (runInteractively svc sid qs s))"
  by (induction qs arbitrary: s) (auto simp: svc_preserves_def split_def Let_def)

lemma replay_events_preserves:
  "svc_preserves P svc \<Longrightarrow> P s \<Longrightarrow> P (fst (replay_events svc sid evs s))"
  by (induction evs arbitrary: s) (auto simp: svc_preserves_def split_def Let_def)

lemma finish_run_fields [simp]:
  "ar_state (finish_run opts s out sid rest) = s"
  "ar_session (finish_run opts s out sid rest) = sid"
  by (simp_all add: finish_run_def Let_def split: option.splits prod.splits)

lemma runAgent_preserves:
  assumes "svc_preserves P svc" and "P s"
  shows "P (ar_state (runAgent svc opts nm inF saved now stdin s))"
proof -
  obtain s1 sid0 where c: "svc_create svc nm ''test_user'' Map.empty s = (s1, sid0)" by fastforce
  have p1: "P s1" using assms c unfolding svc_preserves_def by (metis fst_conv)
  have cr: "\<And>app u st s. P s \<Longrightarrow> P (fst (svc_create svc app u st s))"
    using assms(1) by (simp add: svc_preserves_def)
  have f: "P (fst (snd (runFromInputFile svc nm ''test_user'' now inF s1)))"
    using p1 by (auto simp: runFromInputFile_def Let_def split_def split: option.splits
      intro!: run_queries_preserves [OF assms(1)] cr)
  have r: "P (fst (if js_truthy (o_savedSessionFile opts)
                   then (case saved of None \<Rightarrow> (s1, []) | Some evs \<Rightarrow> replay_events svc sid0 evs s1)
                   else (s1, [''Running agent '' @ nm @ '', type exit to exit.''])))"
    using assms(1) p1 replay_events_preserves by (auto split: option.splits)
  show ?thesis
    using f r p1 runInteractively_preserves [OF assms(1)] c
    by (auto simp: runAgent_def Let_def split_def split: option.splits)
qed

end
