(* ===== verification/EventState.thy ===== *)
theory EventState
  imports Prelude
begin

text \<open>
  The event and state model of the agent runtime (spec section 4.1, section 3): the
  session service, the event type and the state they fold to are not among the
  repository's sources, so this theory is written from the specification. State is
  a finite map from keys to values; an event carries an optional state delta,
  applied to the session's state when the event is appended. A session keeps the
  state it was created with, its event log and its current state.
\<close>

type_synonym key = string
type_synonym val = string
type_synonym state = "key \<rightharpoonup> val"

record event =
  e_invocation :: nat
  e_author :: string
  e_branch :: string
  e_text :: "string option"
  e_calls :: "(string \<times> string) list"
  e_delta :: state
  e_escalate :: bool
  e_error :: bool
  e_seq :: nat

section \<open>State deltas\<close>

text \<open>\<open>applyDelta\<close>: every key of the delta is written, the last write wins.\<close>

definition applyDelta :: "state \<Rightarrow> state \<Rightarrow> state" where
  "applyDelta s d = s ++ d"

definition fold_from :: "state \<Rightarrow> event list \<Rightarrow> state" where
  "fold_from s0 es = foldl (\<lambda>s e. applyDelta s (e_delta e)) s0 es"

definition fold_events :: "event list \<Rightarrow> state" where
  "fold_events es = fold_from Map.empty es"

section \<open>Sessions\<close>

record session =
  s_app :: string
  s_user :: string
  s_id :: nat
  s_init :: state
  s_events :: "event list"
  s_state :: state

definition new_session :: "string \<Rightarrow> string \<Rightarrow> nat \<Rightarrow> state \<Rightarrow> session" where
  "new_session app user sid st = \<lparr>s_app = app, s_user = user, s_id = sid, s_init = st, s_events = [], s_state = st\<rparr>"

text \<open>Appending gives the event the next sequence position and applies its delta (incremental fold).\<close>

definition append_event :: "session \<Rightarrow> event \<Rightarrow> session" where
  "append_event s e = s\<lparr>s_events := s_events s @ [e\<lparr>e_seq := length (s_events s)\<rparr>],
     s_state := applyDelta (s_state s) (e_delta e)\<rparr>"

definition append_all :: "session \<Rightarrow> event list \<Rightarrow> session" where
  "append_all s es = foldl append_event s es"

text \<open>Replay: the state rebuilt from the stored log.\<close>

definition replay :: "session \<Rightarrow> state" where
  "replay s = fold_from (s_init s) (s_events s)"

definition session_inv :: "session \<Rightarrow> bool" where
  "session_inv s = (s_state s = replay s \<and> map e_seq (s_events s) = [0..<length (s_events s)])"

section \<open>The session service\<close>

record store =
  st_sessions :: "nat \<rightharpoonup> session"
  st_next :: nat
  st_invocations :: nat

datatype svc_error = NotFoundError

definition create_session :: "string \<Rightarrow> string \<Rightarrow> state \<Rightarrow> store \<Rightarrow> store \<times> nat" where
  "create_session app user st db =
     (let sid = st_next db
      in (db\<lparr>st_sessions := (st_sessions db)(sid \<mapsto> new_session app user sid st), st_next := Suc sid\<rparr>, sid))"

definition get_session :: "nat \<Rightarrow> store \<Rightarrow> svc_error + session" where
  "get_session sid db = (case st_sessions db sid of None \<Rightarrow> Inl NotFoundError | Some s \<Rightarrow> Inr s)"

definition put_session :: "session \<Rightarrow> store \<Rightarrow> store" where
  "put_session s db = db\<lparr>st_sessions := (st_sessions db)(s_id s \<mapsto> s)\<rparr>"

definition append_to :: "nat \<Rightarrow> event \<Rightarrow> store \<Rightarrow> svc_error + store" where
  "append_to sid e db = (case st_sessions db sid of None \<Rightarrow> Inl NotFoundError
     | Some s \<Rightarrow> Inr (put_session (append_event s e) db))"

definition store_inv :: "store \<Rightarrow> bool" where
  "store_inv db = (\<forall>sid s. st_sessions db sid = Some s \<longrightarrow> session_inv s \<and> s_id s = sid \<and> sid < st_next db)"

section \<open>Lemmas\<close>

lemma fold_from_simps [simp]:
  "fold_from s [] = s"
  "fold_from s (es @ [e]) = applyDelta (fold_from s es) (e_delta e)"
  "fold_from s (e # es) = fold_from (applyDelta s (e_delta e)) es"
  by (simp_all add: fold_from_def)

lemma fold_from_append: "fold_from s (es @ fs) = fold_from (fold_from s es) fs"
  by (simp add: fold_from_def)

lemma fold_from_renumber [simp]: "fold_from s (map (\<lambda>e. e\<lparr>e_seq := f e\<rparr>) es) = fold_from s es"
  by (induction es arbitrary: s) simp_all

lemma append_event_fields [simp]:
  "s_events (append_event s e) = s_events s @ [e\<lparr>e_seq := length (s_events s)\<rparr>]"
  "s_state (append_event s e) = applyDelta (s_state s) (e_delta e)"
  "s_init (append_event s e) = s_init s" "s_id (append_event s e) = s_id s"
  "s_app (append_event s e) = s_app s" "s_user (append_event s e) = s_user s"
  by (simp_all add: append_event_def)

lemma append_all_simps [simp]:
  "append_all s [] = s"
  "append_all s (e # es) = append_all (append_event s e) es"
  "append_all s (es @ fs) = append_all (append_all s es) fs"
  by (simp_all add: append_all_def)

lemma append_event_inv: "session_inv s \<Longrightarrow> session_inv (append_event s e)"
  by (simp add: session_inv_def replay_def)

lemma append_all_inv: "session_inv s \<Longrightarrow> session_inv (append_all s es)"
  by (induction es arbitrary: s) (simp_all add: append_event_inv)

lemma append_all_fields:
  "s_state (append_all s es) = fold_from (s_state s) es"
  "s_init (append_all s es) = s_init s" "s_id (append_all s es) = s_id s"
  "s_app (append_all s es) = s_app s" "s_user (append_all s es) = s_user s"
  "map (\<lambda>e. e\<lparr>e_seq := 0\<rparr>) (s_events (append_all s es)) = map (\<lambda>e. e\<lparr>e_seq := 0\<rparr>) (s_events s @ es)"
  by (induction es arbitrary: s) (simp_all add: applyDelta_def)

lemma new_session_inv [simp]: "session_inv (new_session app user sid st)"
  by (simp add: session_inv_def new_session_def replay_def)

lemma new_session_fields [simp]:
  "s_state (new_session app user sid st) = st" "s_events (new_session app user sid st) = []"
  "s_init (new_session app user sid st) = st" "s_id (new_session app user sid st) = sid"
  by (simp_all add: new_session_def)

lemma create_session_inv: "store_inv db \<Longrightarrow> store_inv (fst (create_session app user st db))"
  by (auto simp: store_inv_def create_session_def Let_def less_Suc_eq)

lemma append_to_inv: "store_inv db \<Longrightarrow> append_to sid e db = Inr db' \<Longrightarrow> store_inv db'"
  by (fastforce simp: store_inv_def append_to_def put_session_def append_event_inv split: option.splits if_splits)

text \<open>
  Fold determinism: the state a session computes incrementally, one append at
  a time, is the state replaying its log from the empty state gives.
\<close>

lemma fold_incremental_eq_replay:
  "s_state (append_all (new_session app user sid Map.empty) es) = fold_events es
   \<and> replay (append_all (new_session app user sid Map.empty) es) = fold_events es"
proof -
  have "session_inv (append_all (new_session app user sid Map.empty) es)" by (rule append_all_inv) simp
  then show ?thesis by (simp add: session_inv_def append_all_fields fold_events_def)
qed

end
