(* ===== verification/Agents.thy ===== *)
theory Agents
  imports EventState "HOL-Library.Sublist" "HOL-Library.Multiset"
begin

text \<open>
  Agent execution and the Runner, written from the specification (sections 4.2-4.5):
  the agent classes and the Runner are imported by the sources from the runtime
  package and are not among them. An agent is a leaf (a model and its tools) or a
  Sequential, Parallel or Loop group. Its execution yields the list of events it
  produces, each appended to the session before the next is produced, so that a
  later event is computed on the state the earlier ones left. A Loop may run
  forever, so execution takes fuel and returns \<open>None\<close> when the fuel runs out.
  The order in which the branches of a Parallel group deliver their events is a
  parameter, the schedule of each Parallel group by its branch.
\<close>

section \<open>Collaborators\<close>

text \<open>A model turn: text, tool calls (tool name and arguments), a state delta, escalation.\<close>

record turn =
  t_text :: "string option"
  t_calls :: "(string \<times> string) list"
  t_delta :: state
  t_escalate :: bool

text \<open>
  The Model collaborator answers the conversation with a turn or fails
  (\<open>CollaboratorError\<close>, \<open>Inl\<close>); a Tool is invoked with its arguments on the current
  state and fails or returns a result and a state delta.
\<close>

type_synonym model = "event list \<Rightarrow> string + turn"
type_synonym rt_tool = "string \<Rightarrow> state \<Rightarrow> string + (string \<times> state)"

datatype rt_agent =
    Leaf string model "(string \<times> rt_tool) list"
  | Sequential string "rt_agent list"
  | Parallel string "rt_agent list"
  | Loop string "nat option" "rt_agent list"

fun rt_name :: "rt_agent \<Rightarrow> string" where
  "rt_name (Leaf nm _ _) = nm"
| "rt_name (Sequential nm _) = nm"
| "rt_name (Parallel nm _) = nm"
| "rt_name (Loop nm _ _) = nm"

section \<open>Invocation context\<close>

record ctx =
  c_inv :: nat
  c_branch :: string
  c_agent :: string

definition derive_branch :: "string \<Rightarrow> string \<Rightarrow> string" where
  "derive_branch b seg = (if b = [] then seg else b @ ''/'' @ seg)"

definition derive :: "ctx \<Rightarrow> string \<Rightarrow> ctx" where
  "derive c seg = c\<lparr>c_branch := derive_branch (c_branch c) seg, c_agent := seg\<rparr>"

text \<open>The events a leaf sees: those of its branch and of the branches above it.\<close>

definition visible_to :: "string \<Rightarrow> event \<Rightarrow> bool" where
  "visible_to b e = (e_branch e = b \<or> prefix (e_branch e @ ''/'') b)"

section \<open>Events produced by a leaf\<close>

definition model_event :: "ctx \<Rightarrow> turn \<Rightarrow> event" where
  "model_event c t = \<lparr>e_invocation = c_inv c, e_author = c_agent c, e_branch = c_branch c,
     e_text = t_text t, e_calls = t_calls t, e_delta = t_delta t, e_escalate = t_escalate t,
     e_error = False, e_seq = 0\<rparr>"

definition error_event :: "ctx \<Rightarrow> string \<Rightarrow> event" where
  "error_event c msg = \<lparr>e_invocation = c_inv c, e_author = c_agent c, e_branch = c_branch c,
     e_text = Some msg, e_calls = [], e_delta = Map.empty, e_escalate = False, e_error = True, e_seq = 0\<rparr>"

definition tool_event :: "ctx \<Rightarrow> string \<Rightarrow> state \<Rightarrow> event" where
  "tool_event c res d = \<lparr>e_invocation = c_inv c, e_author = c_agent c, e_branch = c_branch c,
     e_text = Some res, e_calls = [], e_delta = d, e_escalate = False, e_error = False, e_seq = 0\<rparr>"

text \<open>One tool call: an unknown tool or a failing one gives an error payload, not a failure.\<close>

definition call_tool :: "ctx \<Rightarrow> (string \<times> rt_tool) list \<Rightarrow> string \<times> string \<Rightarrow> state \<Rightarrow> event" where
  "call_tool c ts call st =
     (case map_of ts (fst call) of
        None \<Rightarrow> tool_event c (''error: tool not found: '' @ fst call) Map.empty
      | Some f \<Rightarrow> (case f (snd call) st of
          Inl msg \<Rightarrow> tool_event c (''error: '' @ msg) Map.empty
        | Inr (res, d) \<Rightarrow> tool_event c res d))"

text \<open>The calls of a turn, resolved in order, each on the state the previous ones left.\<close>

fun run_tools :: "ctx \<Rightarrow> (string \<times> rt_tool) list \<Rightarrow> (string \<times> string) list \<Rightarrow> session \<Rightarrow> event list" where
  "run_tools c ts [] s = []"
| "run_tools c ts (call # calls) s =
     (let ev = call_tool c ts call (s_state s) in ev # run_tools c ts calls (append_event s ev))"

text \<open>
  The tool-invocation loop: \<open>AwaitingModel\<close> asks the model; a turn without calls
  ends the loop, otherwise the loop goes through \<open>ExecutingTools\<close> and back.
\<close>

fun leaf_loop :: "nat \<Rightarrow> ctx \<Rightarrow> model \<Rightarrow> (string \<times> rt_tool) list \<Rightarrow> session \<Rightarrow> event list option" where
  "leaf_loop 0 c m ts s = None"
| "leaf_loop (Suc n) c m ts s =
     (case m (filter (visible_to (c_branch c)) (s_events s)) of
        Inl msg \<Rightarrow> Some [error_event c msg]
      | Inr t \<Rightarrow>
          (let me = model_event c t in
           if t_calls t = [] then Some [me]
           else (let s1 = append_event s me; rs = run_tools c ts (t_calls t) s1
                 in map_option (\<lambda>rest. me # rs @ rest) (leaf_loop n c m ts (append_all s1 rs)))))"

section \<open>Composite agents\<close>

text \<open>An escalation or a terminal error ends a Sequential group and a Loop.\<close>

definition stops :: "event \<Rightarrow> bool" where
  "stops e = (e_escalate e \<or> e_error e)"

fun upto_stop :: "event list \<Rightarrow> event list" where
  "upto_stop [] = []"
| "upto_stop (e # es) = (if stops e then [e] else e # upto_stop es)"

text \<open>The arrival order of a Parallel group: the schedule names the branch delivering next.\<close>

fun interleave :: "nat list \<Rightarrow> event list list \<Rightarrow> event list" where
  "interleave [] ess = concat ess"
| "interleave (i # is) ess =
     (if i < length ess \<and> ess ! i \<noteq> []
      then hd (ess ! i) # interleave is (ess[i := tl (ess ! i)])
      else interleave is ess)"

type_synonym schedule = "string \<Rightarrow> nat list"

fun exec :: "nat \<Rightarrow> schedule \<Rightarrow> rt_agent \<Rightarrow> ctx \<Rightarrow> session \<Rightarrow> event list option"
and exec_seq :: "nat \<Rightarrow> schedule \<Rightarrow> rt_agent list \<Rightarrow> ctx \<Rightarrow> session \<Rightarrow> event list option"
and exec_loop :: "nat \<Rightarrow> schedule \<Rightarrow> nat option \<Rightarrow> nat \<Rightarrow> rt_agent list \<Rightarrow> ctx \<Rightarrow> session \<Rightarrow> event list option" where
  "exec 0 sch a c s = None"
| "exec (Suc n) sch (Leaf nm m ts) c s = leaf_loop n (c\<lparr>c_agent := nm\<rparr>) m ts s"
| "exec (Suc n) sch (Sequential nm subs) c s = exec_seq n sch subs c s"
| "exec (Suc n) sch (Parallel nm subs) c s =
     (let rs = map (\<lambda>a. exec n sch a (derive c (rt_name a)) s) subs
      in if list_all (\<lambda>r. r \<noteq> None) rs then Some (interleave (sch (c_branch c)) (map the rs)) else None)"
| "exec (Suc n) sch (Loop nm mx subs) c s = (if subs = [] then Some [] else exec_loop n sch mx 0 subs c s)"
| "exec_seq 0 sch subs c s = None"
| "exec_seq (Suc n) sch [] c s = Some []"
| "exec_seq (Suc n) sch (a # as) c s =
     (case exec n sch a (c\<lparr>c_agent := rt_name a\<rparr>) s of
        None \<Rightarrow> None
      | Some es \<Rightarrow>
          (if list_ex stops es then Some (upto_stop es)
           else map_option (\<lambda>rest. es @ rest) (exec_seq n sch as c (append_all s es))))"
| "exec_loop 0 sch mx i subs c s = None"
| "exec_loop (Suc n) sch mx i subs c s =
     (if (case mx of None \<Rightarrow> False | Some k \<Rightarrow> k \<le> i) then Some []
      else (case exec_seq n sch subs c s of
              None \<Rightarrow> None
            | Some es \<Rightarrow>
                (if list_ex stops es then Some es
                 else map_option (\<lambda>rest. es @ rest) (exec_loop n sch mx (Suc i) subs c (append_all s es)))))"

section \<open>Runner\<close>

definition user_event :: "nat \<Rightarrow> rt_agent \<Rightarrow> string \<Rightarrow> event" where
  "user_event iid root q = \<lparr>e_invocation = iid, e_author = ''user'', e_branch = rt_name root,
     e_text = Some q, e_calls = [], e_delta = Map.empty, e_escalate = False, e_error = False, e_seq = 0\<rparr>"

definition input_events :: "nat \<Rightarrow> rt_agent \<Rightarrow> string option \<Rightarrow> event list" where
  "input_events iid root input = (case input of None \<Rightarrow> [] | Some q \<Rightarrow> [user_event iid root q])"

definition root_ctx :: "nat \<Rightarrow> rt_agent \<Rightarrow> ctx" where
  "root_ctx iid root = \<lparr>c_inv = iid, c_branch = rt_name root, c_agent = rt_name root\<rparr>"

text \<open>
  \<open>Runner.run\<close>: resolve the session (\<open>NotFoundError\<close> before any agent runs),
  allocate an invocation, append the user input, then run the root agent, each
  event appended before it is forwarded. The result is the store afterwards and
  the events forwarded, or \<open>None\<close> when the agent does not finish within the fuel.
\<close>

definition run :: "nat \<Rightarrow> schedule \<Rightarrow> rt_agent \<Rightarrow> nat \<Rightarrow> string option \<Rightarrow> store
    \<Rightarrow> svc_error + (store \<times> event list) option" where
  "run fuel sch root sid input db =
     (case get_session sid db of
        Inl err \<Rightarrow> Inl err
      | Inr s \<Rightarrow>
          (let iid = st_invocations db;
               s1 = append_all s (input_events iid root input)
           in Inr (map_option (\<lambda>es. (put_session (append_all s1 es) (db\<lparr>st_invocations := Suc iid\<rparr>), es))
                     (exec fuel sch root (root_ctx iid root) s1))))"

text \<open>What the consumer of the Runner observes: each event with the state of the session when it is forwarded.\<close>

definition forward_trace :: "session \<Rightarrow> event list \<Rightarrow> (event \<times> state) list" where
  "forward_trace s es = map (\<lambda>k. (es ! k, s_state (append_all s (take (Suc k) es)))) [0..<length es]"

text \<open>The origin of an event: the invocation and a branch at or below the given one.\<close>

definition from_ctx :: "ctx \<Rightarrow> event \<Rightarrow> bool" where
  "from_ctx c e = (e_invocation e = c_inv c \<and> prefix (c_branch c) (e_branch e))"

section \<open>Fuel\<close>

lemma leaf_loop_mono: "leaf_loop n c m ts s = Some r \<Longrightarrow> leaf_loop (Suc n) c m ts s = Some r"
proof (induction n arbitrary: s r)
  case 0
  then show ?case by simp
next
  case (Suc n)
  show ?case
  proof (cases "m (filter (visible_to (c_branch c)) (s_events s))")
    case (Inl msg)
    with Suc.prems show ?thesis by simp
  next
    case (Inr t)
    show ?thesis
    proof (cases "t_calls t = []")
      case True
      with Inr Suc.prems show ?thesis by simp
    next
      case False
      define s1 where "s1 = append_event s (model_event c t)"
      define rs where "rs = run_tools c ts (t_calls t) s1"
      from Suc.prems Inr False obtain rest where L: "leaf_loop n c m ts (append_all s1 rs) = Some rest"
        and r: "r = model_event c t # rs @ rest"
        by (auto simp: Let_def s1_def rs_def)
      have L': "leaf_loop (Suc n) c m ts (append_all s1 rs) = Some rest" by (rule Suc.IH [OF L])
      show ?thesis
        by (subst leaf_loop.simps) (simp add: Inr False Let_def L' r s1_def [symmetric] rs_def [symmetric] del: leaf_loop.simps)
    qed
  qed
qed

lemma exec_mono:
  "(exec n sch a c s = Some r \<longrightarrow> exec (Suc n) sch a c s = Some r)
   \<and> (exec_seq n sch as c s = Some r \<longrightarrow> exec_seq (Suc n) sch as c s = Some r)
   \<and> (exec_loop n sch mx i as c s = Some r \<longrightarrow> exec_loop (Suc n) sch mx i as c s = Some r)"
proof (induction n arbitrary: a as c s r mx i)
  case 0
  then show ?case by simp
next
  case (Suc n)
  have IH1: "\<And>a c s r. exec n sch a c s = Some r \<Longrightarrow> exec (Suc n) sch a c s = Some r"
    and IH2: "\<And>as c s r. exec_seq n sch as c s = Some r \<Longrightarrow> exec_seq (Suc n) sch as c s = Some r"
    and IH3: "\<And>mx i as c s r. exec_loop n sch mx i as c s = Some r \<Longrightarrow> exec_loop (Suc n) sch mx i as c s = Some r"
    using Suc.IH by blast+
  have E: "exec (Suc n) sch a c s = Some r \<Longrightarrow> exec (Suc (Suc n)) sch a c s = Some r" for a c s r
  proof (cases a)
    case (Leaf nm m ts)
    then show "exec (Suc n) sch a c s = Some r \<Longrightarrow> ?thesis" using leaf_loop_mono by (simp del: leaf_loop.simps)
  next
    case (Sequential nm subs)
    then show "exec (Suc n) sch a c s = Some r \<Longrightarrow> ?thesis" using IH2 by (simp del: exec_seq.simps)
  next
    case (Parallel nm subs)
    assume r: "exec (Suc n) sch a c s = Some r"
    let ?rs = "map (\<lambda>a. exec n sch a (derive c (rt_name a)) s) subs"
    have all: "list_all (\<lambda>r. r \<noteq> None) ?rs" using r Parallel by (simp add: Let_def split: if_splits)
    have eq: "map (\<lambda>a. exec (Suc n) sch a (derive c (rt_name a)) s) subs = ?rs"
    proof (rule map_cong [OF refl])
      fix b assume "b \<in> set subs"
      with all obtain x where "exec n sch b (derive c (rt_name b)) s = Some x"
        by (auto simp: list_all_iff)
      then show "exec (Suc n) sch b (derive c (rt_name b)) s = exec n sch b (derive c (rt_name b)) s"
        using IH1 by simp
    qed
    show ?thesis using r unfolding Parallel by (simp only: exec.simps Let_def eq)
  next
    case (Loop nm mx subs)
    then show "exec (Suc n) sch a c s = Some r \<Longrightarrow> ?thesis" using IH3 by (auto simp del: exec_loop.simps split: if_splits)
  qed
  have S: "exec_seq (Suc n) sch as c s = Some r \<Longrightarrow> exec_seq (Suc (Suc n)) sch as c s = Some r" for as c s r
    using IH1 IH2 by (cases as) (auto split: option.splits if_splits)
  have L: "exec_loop (Suc n) sch mx i as c s = Some r \<Longrightarrow> exec_loop (Suc (Suc n)) sch mx i as c s = Some r"
    for mx i as c s r
  proof -
    assume a: "exec_loop (Suc n) sch mx i as c s = Some r"
    show ?thesis
    proof (cases "case mx of None \<Rightarrow> False | Some k \<Rightarrow> k \<le> i")
      case True
      with a show ?thesis by simp
    next
      case False
      with a obtain es where e: "exec_seq n sch as c s = Some es"
        and rest: "(if list_ex stops es then Some es
                    else map_option ((@) es) (exec_loop n sch mx (Suc i) as c (append_all s es))) = Some r"
        by (auto split: option.splits)
      have e': "exec_seq (Suc n) sch as c s = Some es" by (rule IH2 [OF e])
      show ?thesis
      proof (cases "list_ex stops es")
        case True
        with False e' rest show ?thesis by simp
      next
        case nst: False
        with rest obtain z where z: "exec_loop n sch mx (Suc i) as c (append_all s es) = Some z" and r: "r = es @ z"
          by auto
        have z': "exec_loop (Suc n) sch mx (Suc i) as c (append_all s es) = Some z" by (rule IH3 [OF z])
        show ?thesis
          by (subst exec_loop.simps) (simp add: False nst e' z' r del: exec_loop.simps)
      qed
    qed
  qed
  show ?case using E S L by blast
qed

lemma exec_mono1:
  "exec n sch a c s = Some r \<Longrightarrow> exec (Suc n) sch a c s = Some r"
  "exec_seq n sch as c s = Some r \<Longrightarrow> exec_seq (Suc n) sch as c s = Some r"
  "exec_loop n sch mx i as c s = Some r \<Longrightarrow> exec_loop (Suc n) sch mx i as c s = Some r"
  using exec_mono by blast+

lemmas exec_no_unfold = exec.simps exec_seq.simps exec_loop.simps

lemma exec_mono_add:
  "exec n sch a c s = Some r \<Longrightarrow> exec (n + k) sch a c s = Some r"
  "exec_seq n sch as c s = Some r \<Longrightarrow> exec_seq (n + k) sch as c s = Some r"
  "exec_loop n sch mx i as c s = Some r \<Longrightarrow> exec_loop (n + k) sch mx i as c s = Some r"
  by (induction k) (auto simp del: exec_no_unfold intro: exec_mono1)

lemma exec_mono_le:
  assumes "n \<le> m"
  shows "exec n sch a c s = Some r \<Longrightarrow> exec m sch a c s = Some r"
    and "exec_seq n sch as c s = Some r \<Longrightarrow> exec_seq m sch as c s = Some r"
    and "exec_loop n sch mx i as c s = Some r \<Longrightarrow> exec_loop m sch mx i as c s = Some r"
  using assms by (metis exec_mono_add le_add_diff_inverse)+

section \<open>Interleaving\<close>

lemma mset_concat_update:
  "i < length ess \<Longrightarrow> ess ! i \<noteq> [] \<Longrightarrow>
   add_mset (hd (ess ! i)) (mset (concat (ess[i := tl (ess ! i)]))) = mset (concat ess)"
proof (induction ess arbitrary: i)
  case Nil
  then show ?case by simp
next
  case (Cons xs ess)
  then show ?case by (cases i) (auto simp: neq_Nil_conv)
qed

lemma interleave_Nil [simp]: "interleave is [] = []"
  by (induction "is") auto

lemma interleave_mset: "mset (interleave is ess) = mset (concat ess)"
  by (induction "is" arbitrary: ess) (auto simp: mset_concat_update)

lemma interleave_set: "set (interleave is ess) = set (concat ess)"
  by (metis interleave_mset set_mset_mset)

lemma subseq_concat: "xs \<in> set xss \<Longrightarrow> subseq xs (concat xss)"
proof (induction xss)
  case Nil
  then show ?case by simp
next
  case (Cons ys xss)
  then show ?case by (auto intro: list_emb_append2 list_emb_append_mono)
qed

lemma interleave_subseq: "j < length ess \<Longrightarrow> subseq (ess ! j) (interleave is ess)"
proof (induction "is" arbitrary: ess)
  case Nil
  then show ?case by (simp add: subseq_concat)
next
  case (Cons i "is")
  show ?case
  proof (cases "i < length ess \<and> ess ! i \<noteq> []")
    case True
    have IH: "subseq (ess[i := tl (ess ! i)] ! j) (interleave is (ess[i := tl (ess ! i)]))"
      using Cons by simp
    show ?thesis
    proof (cases "i = j")
      case True
      with \<open>i < length ess \<and> ess ! i \<noteq> []\<close> IH show ?thesis
        by (cases "ess ! j") simp_all
    next
      case False
      with \<open>i < length ess \<and> ess ! i \<noteq> []\<close> IH show ?thesis by (auto intro: list_emb_Cons)
    qed
  next
    case False
    then have "interleave (i # is) ess = interleave is ess" by auto
    with Cons show ?thesis by simp
  qed
qed

section \<open>Origin of events\<close>

lemma leaf_events_from [simp]:
  "from_ctx c (model_event c' t) \<longleftrightarrow> c_inv c' = c_inv c \<and> prefix (c_branch c) (c_branch c')"
  "from_ctx c (error_event c' msg) \<longleftrightarrow> c_inv c' = c_inv c \<and> prefix (c_branch c) (c_branch c')"
  "from_ctx c (tool_event c' res d) \<longleftrightarrow> c_inv c' = c_inv c \<and> prefix (c_branch c) (c_branch c')"
  by (auto simp: from_ctx_def model_event_def error_event_def tool_event_def)

lemma call_tool_from: "from_ctx c (call_tool c' ts call st) \<longleftrightarrow> c_inv c' = c_inv c \<and> prefix (c_branch c) (c_branch c')"
  by (simp add: call_tool_def split: option.splits sum.splits prod.splits)

lemma run_tools_from:
  "c_inv c' = c_inv c \<Longrightarrow> prefix (c_branch c) (c_branch c') \<Longrightarrow> \<forall>e \<in> set (run_tools c' ts calls s). from_ctx c e"
  by (induction c' ts calls s rule: run_tools.induct) (simp_all add: Let_def call_tool_from)

lemma leaf_loop_from:
  "leaf_loop n c' m ts s = Some es \<Longrightarrow> c_inv c' = c_inv c \<Longrightarrow> prefix (c_branch c) (c_branch c')
    \<Longrightarrow> \<forall>e \<in> set es. from_ctx c e"
proof (induction n arbitrary: s es)
  case 0
  then show ?case by simp
next
  case (Suc n)
  then show ?case
    by (auto simp: Let_def run_tools_from split: sum.splits if_splits)
qed

lemma upto_stop_subset: "set (upto_stop es) \<subseteq> set es"
  by (induction es) auto

lemma upto_stop_stops: "list_ex stops es \<Longrightarrow> list_ex stops (upto_stop es)"
  by (induction es) auto

lemma prefix_derive_branch: "prefix b (derive_branch b seg)"
  by (simp add: derive_branch_def)

lemma exec_from:
  "(exec n sch a c s = Some es \<longrightarrow> (\<forall>e \<in> set es. from_ctx c e))
   \<and> (exec_seq n sch as c s = Some es \<longrightarrow> (\<forall>e \<in> set es. from_ctx c e))
   \<and> (exec_loop n sch mx i as c s = Some es \<longrightarrow> (\<forall>e \<in> set es. from_ctx c e))"
proof (induction n arbitrary: a as c s es mx i)
  case 0
  then show ?case by simp
next
  case (Suc n)
  have IH1: "\<And>a c s es. exec n sch a c s = Some es \<Longrightarrow> \<forall>e \<in> set es. from_ctx c e"
    and IH2: "\<And>as c s es. exec_seq n sch as c s = Some es \<Longrightarrow> \<forall>e \<in> set es. from_ctx c e"
    and IH3: "\<And>mx i as c s es. exec_loop n sch mx i as c s = Some es \<Longrightarrow> \<forall>e \<in> set es. from_ctx c e"
    using Suc.IH by blast+
  have agent_ctx: "\<forall>e \<in> set es. from_ctx (c\<lparr>c_agent := x\<rparr>) e \<Longrightarrow> \<forall>e \<in> set es. from_ctx c e" for es x c
    by (simp add: from_ctx_def)
  have derive_ctx: "from_ctx (derive c x) e \<Longrightarrow> from_ctx c e" for c e x
    using prefix_derive_branch prefix_order.trans by (fastforce simp: from_ctx_def derive_def)
  have E: "exec (Suc n) sch a c s = Some es \<Longrightarrow> \<forall>e \<in> set es. from_ctx c e" for a c s es
  proof (cases a)
    case (Leaf nm m ts)
    then show "exec (Suc n) sch a c s = Some es \<Longrightarrow> ?thesis"
      using leaf_loop_from [of n "c\<lparr>c_agent := nm\<rparr>" m ts s es c] by (simp del: leaf_loop.simps)
  next
    case (Sequential nm subs)
    then show "exec (Suc n) sch a c s = Some es \<Longrightarrow> ?thesis" using IH2 by (simp del: exec_seq.simps)
  next
    case (Parallel nm subs)
    assume r: "exec (Suc n) sch a c s = Some es"
    let ?rs = "map (\<lambda>a. exec n sch a (derive c (rt_name a)) s) subs"
    from r Parallel have all: "list_all (\<lambda>r. r \<noteq> None) ?rs"
      and es: "es = interleave (sch (c_branch c)) (map the ?rs)"
      by (simp_all add: Let_def split: if_splits)
    show ?thesis
    proof
      fix e assume "e \<in> set es"
      then obtain b where b: "b \<in> set subs" and "e \<in> set (the (exec n sch b (derive c (rt_name b)) s))"
        by (auto simp: es interleave_set)
      moreover from all b obtain x where "exec n sch b (derive c (rt_name b)) s = Some x"
        by (auto simp: list_all_iff)
      ultimately show "from_ctx c e" using IH1 derive_ctx by fastforce
    qed
  next
    case (Loop nm mx subs)
    then show "exec (Suc n) sch a c s = Some es \<Longrightarrow> ?thesis" using IH3 by (auto simp del: exec_loop.simps split: if_splits)
  qed
  have S: "exec_seq (Suc n) sch as c s = Some es \<Longrightarrow> \<forall>e \<in> set es. from_ctx c e" for as c s es
  proof (cases as)
    case Nil
    then show "exec_seq (Suc n) sch as c s = Some es \<Longrightarrow> ?thesis" by simp
  next
    case (Cons b bs)
    assume r: "exec_seq (Suc n) sch as c s = Some es"
    with Cons obtain x where x: "exec n sch b (c\<lparr>c_agent := rt_name b\<rparr>) s = Some x"
      by (auto split: option.splits)
    then have fx: "\<forall>e \<in> set x. from_ctx c e" using IH1 agent_ctx by blast
    show ?thesis
    proof (cases "list_ex stops x")
      case True
      with r Cons x have "es = upto_stop x" by simp
      with fx upto_stop_subset show ?thesis by blast
    next
      case False
      with r Cons x obtain y where "exec_seq n sch bs c (append_all s x) = Some y" "es = x @ y"
        by auto
      with fx IH2 show ?thesis by auto
    qed
  qed
  have L: "exec_loop (Suc n) sch mx i as c s = Some es \<Longrightarrow> \<forall>e \<in> set es. from_ctx c e" for mx i as c s es
    using IH2 IH3 by (auto simp del: exec_seq.simps split: if_splits option.splits)
  show ?case using E S L by blast
qed

section \<open>Composition\<close>

lemma exec_seq_Cons_continue:
  assumes "exec n sch a (c\<lparr>c_agent := rt_name a\<rparr>) s = Some ea" and "\<not> list_ex stops ea"
    and "exec_seq n sch as c (append_all s ea) = Some rest"
  shows "exec_seq (Suc n) sch (a # as) c s = Some (ea @ rest)"
  using assms by simp

text \<open>
  Sequential ordering: a Sequential group of \<open>A\<close> and \<open>B\<close> forwards every
  event of \<open>A\<close> before any event of \<open>B\<close>, and \<open>B\<close> runs on the session with
  \<open>A\<close>'s events appended, so that it sees \<open>A\<close>'s state deltas.
\<close>

lemma sequential_order:
  assumes "exec n sch a (c\<lparr>c_agent := rt_name a\<rparr>) s = Some ea" and "\<not> list_ex stops ea"
    and "exec n sch b (c\<lparr>c_agent := rt_name b\<rparr>) (append_all s ea) = Some eb" and "\<not> list_ex stops eb"
  shows "exec (n + 3) sch (Sequential nm [a, b]) c s = Some (ea @ eb)"
proof -
  obtain m where n: "n = Suc m" using assms(1) by (cases n) simp_all
  have a': "exec (Suc (Suc m)) sch a (c\<lparr>c_agent := rt_name a\<rparr>) s = Some ea"
    using exec_mono_le(1) [OF _ assms(1)] n by simp
  have "exec_seq (Suc (Suc m)) sch [b] c (append_all s ea) = Some eb"
    using assms(3,4) n by simp
  with a' assms(2) have r: "exec_seq (Suc (Suc (Suc m))) sch [a, b] c s = Some (ea @ eb)"
    by (rule exec_seq_Cons_continue)
  have f: "n + 3 = Suc (Suc (Suc (Suc m)))" using n by simp
  show ?thesis unfolding f using r by (simp del: exec_seq.simps)
qed

text \<open>
  Parallel: each branch runs on the session as it was when the group started,
  in its own branch \<open>parent/name\<close>; the group forwards every event of every
  branch exactly once, and the events of each branch in their order.
\<close>

lemma parallel_interleaving:
  assumes "exec (Suc n) sch (Parallel nm subs) c s = Some es"
  shows "\<exists>ess. length ess = length subs
    \<and> (\<forall>j < length subs. exec n sch (subs ! j) (derive c (rt_name (subs ! j))) s = Some (ess ! j)
                          \<and> subseq (ess ! j) es)
    \<and> mset es = mset (concat ess)"
proof -
  let ?rs = "map (\<lambda>a. exec n sch a (derive c (rt_name a)) s) subs"
  from assms have all: "list_all (\<lambda>r. r \<noteq> None) ?rs"
    and es: "es = interleave (sch (c_branch c)) (map the ?rs)"
    by (simp_all add: Let_def split: if_splits)
  have "\<forall>j < length subs. exec n sch (subs ! j) (derive c (rt_name (subs ! j))) s = Some (map the ?rs ! j)"
    using all by (auto simp: list_all_length)
  moreover have "\<forall>j < length subs. subseq (map the ?rs ! j) es"
    using interleave_subseq [of _ "map the ?rs"] es by simp
  ultimately show ?thesis using interleave_mset es by (intro exI [of _ "map the ?rs"]) simp
qed

lemma fold_from_key:
  "fold_from st es k = (if filter (\<lambda>e. e_delta e k \<noteq> None) es = [] then st k
     else e_delta (last (filter (\<lambda>e. e_delta e k \<noteq> None) es)) k)"
  by (induction es rule: rev_induct) (auto simp: applyDelta_def map_add_def split: option.splits)

lemma filter_concat_one:
  "j < length ess \<Longrightarrow> (\<forall>j' < length ess. j' \<noteq> j \<longrightarrow> (\<forall>e \<in> set (ess ! j'). \<not> P e))
    \<Longrightarrow> filter P (concat ess) = filter P (ess ! j)"
proof (induction ess arbitrary: j)
  case Nil
  then show ?case by simp
next
  case (Cons xs ess)
  show ?case
  proof (cases j)
    case 0
    with Cons.prems have "\<forall>j' < length ess. \<forall>e \<in> set (ess ! j'). \<not> P e" by force
    then have "filter P (concat ess) = []" by (fastforce simp: filter_empty_conv in_set_conv_nth)
    with 0 show ?thesis by simp
  next
    case (Suc j0)
    with Cons.prems have "filter P xs = []" by (force simp: filter_empty_conv)
    moreover have "filter P (concat ess) = filter P (ess ! j0)"
      using Cons.prems Suc by (intro Cons.IH) force+
    ultimately show ?thesis using Suc by simp
  qed
qed

lemma filter_interleave:
  "j < length ess \<Longrightarrow> (\<forall>j' < length ess. j' \<noteq> j \<longrightarrow> (\<forall>e \<in> set (ess ! j'). \<not> P e))
    \<Longrightarrow> filter P (interleave is ess) = filter P (ess ! j)"
proof (induction "is" arbitrary: ess)
  case Nil
  then show ?case by (simp add: filter_concat_one)
next
  case (Cons i "is")
  show ?case
  proof (cases "i < length ess \<and> ess ! i \<noteq> []")
    case True
    let ?ess = "ess[i := tl (ess ! i)]"
    have hyp: "\<forall>j' < length ?ess. j' \<noteq> j \<longrightarrow> (\<forall>e \<in> set (?ess ! j'). \<not> P e)"
      using Cons.prems True by (auto simp: nth_list_update dest: list.set_sel(2))
    have IH: "filter P (interleave is ?ess) = filter P (?ess ! j)"
      using Cons.IH [OF _ hyp] Cons.prems(1) by simp
    show ?thesis
    proof (cases "i = j")
      case True
      with \<open>i < length ess \<and> ess ! i \<noteq> []\<close> IH show ?thesis by (cases "ess ! j") simp_all
    next
      case False
      with \<open>i < length ess \<and> ess ! i \<noteq> []\<close> Cons.prems(2) have "\<not> P (hd (ess ! i))" by auto
      with False \<open>i < length ess \<and> ess ! i \<noteq> []\<close> IH show ?thesis by simp
    qed
  next
    case False
    then have "interleave (i # is) ess = interleave is ess" by auto
    with Cons show ?thesis by simp
  qed
qed

text \<open>
  Parallel isolation and merge: whatever the arrival order, a key written by
  the events of one branch only ends with the value that branch's events give it.
\<close>

lemma parallel_merge_key:
  assumes "j < length ess"
    and "\<forall>j' < length ess. j' \<noteq> j \<longrightarrow> (\<forall>e \<in> set (ess ! j'). e_delta e k = None)"
  shows "fold_from st (interleave is ess) k = fold_from st (ess ! j) k"
proof -
  have "filter (\<lambda>e. e_delta e k \<noteq> None) (interleave is ess) = filter (\<lambda>e. e_delta e k \<noteq> None) (ess ! j)"
    using assms by (intro filter_interleave) auto
  then show ?thesis by (simp only: fold_from_key)
qed

section \<open>Loops\<close>

lemma loop_ticks:
  assumes "t_calls t = []" and "\<not> t_escalate t"
  shows "i + d = k \<Longrightarrow> exec_loop (d + 4) sch (Some k) i [Leaf a (\<lambda>conv. Inr t) ts] c s
    = Some (replicate d (model_event (c\<lparr>c_agent := a\<rparr>) t))"
proof (induction d arbitrary: i s)
  case 0
  then show ?case by (simp add: eval_nat_numeral)
next
  case (Suc d)
  have step: "exec_seq (d + 4) sch [Leaf a (\<lambda>conv. Inr t) ts] c s = Some [model_event (c\<lparr>c_agent := a\<rparr>) t]"
    using assms by (simp add: eval_nat_numeral)
  have ns: "\<not> list_ex stops [model_event (c\<lparr>c_agent := a\<rparr>) t]"
    using assms by (simp add: stops_def model_event_def)
  have "Suc i + d = k" using Suc.prems by simp
  note IH = Suc.IH [OF this]
  have e: "Suc d + 4 = Suc (d + 4)" by simp
  show ?case unfolding e exec_loop.simps(2) [of "d + 4"] using Suc.prems step ns IH
    by (simp del: exec_seq.simps exec_loop.simps)
qed

text \<open>A capped Loop over a sub-agent that always finishes finishes.\<close>

lemma exec_loop_ends:
  assumes "\<forall>s. \<exists>es. exec n sch a (c\<lparr>c_agent := rt_name a\<rparr>) s = Some es"
  shows "k \<le> i + d \<Longrightarrow> \<exists>es. exec_loop (d + n + 3) sch (Some k) i [a] c s = Some es"
proof (induction d arbitrary: i s)
  case 0
  have e: "0 + n + 3 = Suc (n + 2)" by simp
  show ?case using 0 unfolding e by simp
next
  case (Suc d)
  show ?case
  proof (cases "k \<le> i")
    case True
    have e: "Suc d + n + 3 = Suc (d + n + 3)" by simp
    show ?thesis using True unfolding e exec_loop.simps(2) [of "d + n + 3"] by (simp del: exec_loop.simps)
  next
    case False
    obtain es where a: "exec n sch a (c\<lparr>c_agent := rt_name a\<rparr>) s = Some es" using assms by blast
    have a': "exec (d + n + 2) sch a (c\<lparr>c_agent := rt_name a\<rparr>) s = Some es"
      using exec_mono_le(1) [OF _ a] by simp
    have sq: "exec_seq (d + n + 3) sch [a] c s = Some (if list_ex stops es then upto_stop es else es)"
    proof -
      have e1: "d + n + 3 = Suc (d + n + 2)" and e2: "d + n + 2 = Suc (d + n + 1)" by simp_all
      show ?thesis unfolding e1 using a' unfolding e2 by simp
    qed
    obtain rest where r: "exec_loop (d + n + 3) sch (Some k) (Suc i) [a] c (append_all s es) = Some rest"
      using Suc.IH [of "Suc i"] Suc.prems by fastforce
    have e: "Suc d + n + 3 = Suc (d + n + 3)" by simp
    show ?thesis
      unfolding e exec_loop.simps(2) [of "d + n + 3"] using False sq r upto_stop_stops
      by (simp del: exec_seq.simps exec_loop.simps)
  qed
qed

text \<open>
  Loop termination by the iteration cap: a Loop with \<open>maxIterations = k\<close>
  over a sub-agent that never escalates runs exactly \<open>k\<close> iterations, here
  one model turn each, and then ends.
\<close>

lemma loop_max_iterations:
  assumes "t_calls t = []" and "\<not> t_escalate t"
  shows "exec (k + 5) sch (Loop nm (Some k) [Leaf a (\<lambda>conv. Inr t) ts]) c s
    = Some (replicate k (model_event (c\<lparr>c_agent := a\<rparr>) t))"
proof -
  have e: "k + 5 = Suc (k + 4)" by simp
  show ?thesis unfolding e exec.simps(5) [of "k + 4"] using loop_ticks [OF assms, of 0 k k sch a ts c s]
    by (simp del: exec_loop.simps)
qed

text \<open>
  Every event an agent yields belongs to the invocation of its context and to
  the context's branch or a branch below it.
\<close>

lemma exec_events_origin:
  assumes "exec n sch a c s = Some es" and "e \<in> set es"
  shows "e_invocation e = c_inv c \<and> prefix (c_branch c) (e_branch e)"
  using exec_from assms unfolding from_ctx_def by blast

section \<open>Runner\<close>

lemma run_Inr:
  assumes "run fuel sch root sid input db = Inr (Some (db', es))"
  shows "\<exists>s. st_sessions db sid = Some s
    \<and> exec fuel sch root (root_ctx (st_invocations db) root) (append_all s (input_events (st_invocations db) root input)) = Some es
    \<and> db' = put_session (append_all s (input_events (st_invocations db) root input @ es)) (db\<lparr>st_invocations := Suc (st_invocations db)\<rparr>)"
  using assms by (auto simp: run_def get_session_def Let_def split: option.splits)

text \<open>
  The Runner persists what it forwards: after a run, the session holds its
  earlier events followed by the user input and every forwarded event, in order,
  and every session of the store still has the state its log folds to.
\<close>

lemma run_persists:
  assumes "store_inv db" and "run fuel sch root sid input db = Inr (Some (db', es))"
  shows "store_inv db' \<and> (\<exists>s. st_sessions db sid = Some s
    \<and> st_sessions db' sid = Some (append_all s (input_events (st_invocations db) root input @ es)))"
proof -
  obtain s where s: "st_sessions db sid = Some s"
    and db': "db' = put_session (append_all s (input_events (st_invocations db) root input @ es))
                (db\<lparr>st_invocations := Suc (st_invocations db)\<rparr>)"
    using run_Inr [OF assms(2)] by blast
  have inv: "session_inv s" "s_id s = sid" "sid < st_next db" using assms(1) s by (auto simp: store_inv_def)
  have "store_inv db'"
    using assms(1) inv by (fastforce simp: db' store_inv_def put_session_def append_all_fields append_all_inv)
  moreover have "st_sessions db' sid = Some (append_all s (input_events (st_invocations db) root input @ es))"
    using inv by (simp add: db' put_session_def append_all_fields)
  ultimately show ?thesis using s by blast
qed

text \<open>
  Append then forward: when the Runner forwards an event, the session state
  already contains that event's state delta.
\<close>

lemma forward_after_append:
  assumes "(e, st) \<in> set (forward_trace s es)"
  shows "e_delta e \<subseteq>\<^sub>m st"
proof -
  from assms obtain k where k: "k < length es" "e = es ! k" "st = s_state (append_all s (take (Suc k) es))"
    by (auto simp: forward_trace_def)
  then have "take (Suc k) es = take k es @ [e]" by (simp add: take_Suc_conv_app_nth)
  with k show ?thesis by (simp add: append_all_fields applyDelta_def map_le_map_add)
qed

end
