(* ===== verification/SampleTools.thy ===== *)
theory SampleTools
  imports Complex_Main Prelude
begin

text \<open>
  The function tools of the sample agents (src/unnamed/part_001, the dice-and-primes,
  search and weather samples, and src/dev/samples/loop_agent.ts). The model passes
  integers to \<open>check_prime\<close> and \<open>roll_dice\<close>, so their numbers are \<open>int\<close>;
  \<open>Math.random()\<close> is a parameter \<open>r\<close> with \<open>0 \<le> r < 1\<close>, the range the
  JavaScript runtime guarantees. \<open>Math.floor(number ** 0.5)\<close> is the floor of the
  exact square root (\<open>floor_sqrt\<close>), which the double computation returns for the
  integers below \<open>2^52\<close> the tool is called with.
\<close>

section \<open>check_prime\<close>

fun floor_sqrt :: "nat \<Rightarrow> nat" where
  "floor_sqrt 0 = 0"
| "floor_sqrt (Suc n) = (let r = floor_sqrt n in if Suc r * Suc r \<le> Suc n then Suc r else r)"

definition js_floor_sqrt :: "int \<Rightarrow> int" where
  "js_floor_sqrt number = int (floor_sqrt (nat number))"

text \<open>The inner loop: \<open>isPrime\<close> after trying the divisors from \<open>i\<close> on.\<close>

function trial_loop :: "int \<Rightarrow> int \<Rightarrow> bool" where
  "trial_loop number i =
     (if i \<le> js_floor_sqrt number + 1
      then (if number mod i = 0 then False else trial_loop number (i + 1))
      else True)"
  by pat_completeness auto
termination
  by (relation "measure (\<lambda>(number, i). nat (js_floor_sqrt number + 2 - i))") auto

declare trial_loop.simps [simp del]

text \<open>One pass of the outer loop: whether \<open>number\<close> is added to \<open>primes\<close>.\<close>

definition check_number :: "int \<Rightarrow> bool" where
  "check_number number =
     (if number \<le> 1 then False
      else if number = 2 then True
      else trial_loop number 2)"

text \<open>A JavaScript \<open>Set\<close> of numbers: its elements in insertion order.\<close>

definition set_add :: "'a list \<Rightarrow> 'a \<Rightarrow> 'a list" where
  "set_add xs x = (if x \<in> set xs then xs else xs @ [x])"

fun add_primes :: "int list \<Rightarrow> int list \<Rightarrow> int list" where
  "add_primes primes [] = primes"
| "add_primes primes (number # numbers) =
     add_primes (if check_number number then set_add primes number else primes) numbers"

fun digits_nat :: "nat \<Rightarrow> string" where
  "digits_nat n = (if n < 10 then [char_of (48 + n)] else digits_nat (n div 10) @ [char_of (48 + n mod 10)])"

declare digits_nat.simps [simp del]

definition show_int :: "int \<Rightarrow> string" where
  "show_int i = (if i < 0 then ''-'' @ digits_nat (nat (- i)) else digits_nat (nat i))"

definition check_prime :: "int list \<Rightarrow> string" where
  "check_prime numbers =
     (let primes = add_primes [] numbers in
      if length primes = 0 then ''No prime numbers found.''
      else js_join '', '' (map show_int primes) @ '' are prime numbers.'')"

section \<open>Random ranges\<close>

definition getRandomIntInclusive :: "int \<Rightarrow> int \<Rightarrow> real \<Rightarrow> int" where
  "getRandomIntInclusive mn mx r = \<lfloor>r * real_of_int (mx - mn + 1)\<rfloor> + mn"

definition roll_dice :: "int \<Rightarrow> real \<Rightarrow> int" where
  "roll_dice sides r = getRandomIntInclusive 1 sides r"

definition getRandomArbitrary :: "real \<Rightarrow> real \<Rightarrow> real \<Rightarrow> real" where
  "getRandomArbitrary mn mx r = r * (mx - mn) + mn"

definition weather_temperature :: "real \<Rightarrow> int" where
  "weather_temperature r = \<lfloor>getRandomArbitrary 15 35 r\<rfloor>"

definition get_weather_temperature :: "string \<Rightarrow> real \<Rightarrow> string" where
  "get_weather_temperature city r =
     ''Temperature in '' @ city @ '' is '' @ show_int (weather_temperature r) @ '' Celsius.''"

definition get_temperature :: "real \<Rightarrow> real" where
  "get_temperature r = getRandomArbitrary 30 40 r"

section \<open>Reference definitions\<close>

definition prime_spec :: "int \<Rightarrow> bool" where
  "prime_spec n \<longleftrightarrow> 1 < n \<and> (\<forall>d. 1 < d \<and> d < n \<longrightarrow> \<not> d dvd n)"

text \<open>The elements of a list in the order of their first occurrence.\<close>

fun nub :: "'a list \<Rightarrow> 'a list" where
  "nub [] = []"
| "nub (x # xs) = x # nub (removeAll x xs)"

section \<open>The integer square root\<close>

lemma floor_sqrt_bounds: "floor_sqrt n * floor_sqrt n \<le> n \<and> n < Suc (floor_sqrt n) * Suc (floor_sqrt n)"
proof (induction n)
  case 0
  then show ?case by simp
next
  case (Suc n)
  let ?r = "floor_sqrt n"
  show ?case
  proof (cases "Suc ?r * Suc ?r \<le> Suc n")
    case True
    have "Suc n \<le> Suc ?r * Suc ?r" using Suc.IH by simp
    also have "\<dots> < Suc (Suc ?r) * Suc (Suc ?r)" by simp
    finally show ?thesis using True by (simp add: Let_def)
  next
    case False
    with Suc.IH show ?thesis by (simp add: Let_def)
  qed
qed

lemma le_floor_sqrt: "k * k \<le> n \<Longrightarrow> k \<le> floor_sqrt n"
proof (rule ccontr)
  assume kk: "k * k \<le> n" and "\<not> k \<le> floor_sqrt n"
  then have h: "Suc (floor_sqrt n) \<le> k" by simp
  have "n < Suc (floor_sqrt n) * Suc (floor_sqrt n)" using floor_sqrt_bounds [of n] by blast
  also have "\<dots> \<le> k * k" by (rule mult_le_mono [OF h h])
  finally show False using kk by simp
qed

lemma floor_sqrt_small: "3 \<le> n \<Longrightarrow> floor_sqrt n + 1 < n"
proof (rule ccontr)
  assume n: "3 \<le> n" and "\<not> floor_sqrt n + 1 < n"
  then have r: "n - 1 \<le> floor_sqrt n" by simp
  have "2 * (n - 1) \<le> floor_sqrt n * floor_sqrt n"
  proof -
    have "2 * (n - 1) \<le> (n - 1) * (n - 1)" using n by simp
    also have "\<dots> \<le> floor_sqrt n * floor_sqrt n" using r by (simp add: mult_le_mono)
    finally show ?thesis .
  qed
  with conjunct1 [OF floor_sqrt_bounds [of n]] n show False by linarith
qed

lemma js_floor_sqrt_small:
  assumes "3 \<le> n" shows "js_floor_sqrt n + 1 < n"
proof -
  from assms have "floor_sqrt (nat n) + 1 < nat n" by (intro floor_sqrt_small) simp
  with assms show ?thesis by (simp add: js_floor_sqrt_def)
qed

lemma le_js_floor_sqrt: "0 \<le> d \<Longrightarrow> d * d \<le> n \<Longrightarrow> d \<le> js_floor_sqrt n"
proof -
  assume d: "0 \<le> d" and dd: "d * d \<le> n"
  then have "nat d * nat d \<le> nat n" by (metis nat_mono nat_mult_distrib)
  then have "nat d \<le> floor_sqrt (nat n)" by (rule le_floor_sqrt)
  with d show ?thesis by (simp add: js_floor_sqrt_def)
qed

section \<open>Trial division\<close>

lemma int_range_split:
  "(\<forall>d::int. i \<le> d \<and> d \<le> S \<longrightarrow> P d) \<longleftrightarrow> (i \<le> S \<longrightarrow> P i) \<and> (\<forall>d. i + 1 \<le> d \<and> d \<le> S \<longrightarrow> P d)"
proof
  assume "\<forall>d. i \<le> d \<and> d \<le> S \<longrightarrow> P d"
  then show "(i \<le> S \<longrightarrow> P i) \<and> (\<forall>d. i + 1 \<le> d \<and> d \<le> S \<longrightarrow> P d)" by auto
next
  assume R: "(i \<le> S \<longrightarrow> P i) \<and> (\<forall>d. i + 1 \<le> d \<and> d \<le> S \<longrightarrow> P d)"
  show "\<forall>d. i \<le> d \<and> d \<le> S \<longrightarrow> P d"
  proof (intro allI impI)
    fix d assume d: "i \<le> d \<and> d \<le> S"
    then consider "d = i" | "i + 1 \<le> d" by linarith
    then show "P d" using R d by cases auto
  qed
qed

lemma trial_loop_iff:
  "trial_loop number i \<longleftrightarrow> (\<forall>d. i \<le> d \<and> d \<le> js_floor_sqrt number + 1 \<longrightarrow> number mod d \<noteq> 0)"
proof (induction number i rule: trial_loop.induct)
  case (1 number i)
  show ?case
  proof (cases "i \<le> js_floor_sqrt number + 1")
    case True
    with "1.IH" show ?thesis
      by (subst trial_loop.simps) (simp add: int_range_split [of i])
  next
    case False
    then show ?thesis by (subst trial_loop.simps) auto
  qed
qed

lemma min_dvd_le_sqrt:
  assumes "1 < d" "1 < e" "n = d * e"
  shows "min d e dvd n \<and> 1 < min d e \<and> min d e \<le> js_floor_sqrt n"
proof -
  have "min d e * min d e \<le> d * e"
    using assms by (intro mult_mono) auto
  then have "min d e \<le> js_floor_sqrt n" using assms by (intro le_js_floor_sqrt) auto
  moreover have "min d e dvd n" using assms by (auto simp: min_def)
  ultimately show ?thesis using assms by simp
qed

lemma trial_division_iff:
  assumes n3: "3 \<le> n"
  shows "trial_loop n 2 \<longleftrightarrow> prime_spec n"
proof
  assume T: "trial_loop n 2"
  show "prime_spec n" unfolding prime_spec_def
  proof (intro conjI allI impI notI)
    show "1 < n" using n3 by simp
  next
    fix d assume d: "1 < d \<and> d < n" and dvd: "d dvd n"
    then obtain e where ne: "n = d * e" by (auto elim: dvdE)
    have "1 < e"
    proof (rule ccontr)
      assume "\<not> 1 < e"
      then have "e \<le> 1" by simp
      then have "d * e \<le> d * 1" using d by (intro mult_left_mono) auto
      with d ne show False by simp
    qed
    from min_dvd_le_sqrt [OF _ this ne] d obtain m where
      "m dvd n" "2 \<le> m" "m \<le> js_floor_sqrt n + 1" by fastforce
    with T show False by (auto simp: trial_loop_iff dvd_eq_mod_eq_0)
  qed
next
  assume P: "prime_spec n"
  show "trial_loop n 2" unfolding trial_loop_iff
  proof (intro allI impI)
    fix d assume "2 \<le> d \<and> d \<le> js_floor_sqrt n + 1"
    with js_floor_sqrt_small [OF n3] have "1 < d \<and> d < n" by auto
    with P show "n mod d \<noteq> 0" by (auto simp: prime_spec_def dvd_eq_mod_eq_0)
  qed
qed

lemma check_number_iff_prime: "check_number n \<longleftrightarrow> prime_spec n"
proof -
  consider "n \<le> 1" | "n = 2" | "3 \<le> n" by linarith
  then show ?thesis
  proof cases
    case 1
    then show ?thesis by (simp add: check_number_def prime_spec_def)
  next
    case 2
    then show ?thesis by (auto simp: check_number_def prime_spec_def)
  next
    case 3
    then show ?thesis using trial_division_iff [OF 3] by (simp add: check_number_def)
  qed
qed

section \<open>The Set of primes\<close>

lemma nub_Nil_iff [simp]: "nub xs = [] \<longleftrightarrow> xs = []"
  by (cases xs) auto

lemma add_primes_nub:
  "distinct ps \<Longrightarrow> add_primes ps ns = ps @ nub (filter (\<lambda>n. check_number n \<and> n \<notin> set ps) ns)"
proof (induction ns arbitrary: ps)
  case Nil
  then show ?case by simp
next
  case (Cons n ns)
  show ?case
  proof (cases "check_number n \<and> n \<notin> set ps")
    case True
    then have "distinct (ps @ [n])" using Cons.prems by simp
    from Cons.IH [OF this] True have
      "add_primes ps (n # ns) = (ps @ [n]) @ nub (filter (\<lambda>m. check_number m \<and> m \<notin> set (ps @ [n])) ns)"
      by (simp add: set_add_def)
    also have "filter (\<lambda>m. check_number m \<and> m \<notin> set (ps @ [n])) ns
        = removeAll n (filter (\<lambda>m. check_number m \<and> m \<notin> set ps) ns)"
      by (auto simp: removeAll_filter_not_eq filter_filter intro: filter_cong)
    finally show ?thesis using True by simp
  next
    case False
    then have "add_primes ps (n # ns) = add_primes ps ns" by (auto simp: set_add_def)
    with Cons False show ?thesis by auto
  qed
qed

section \<open>Floors of scaled random numbers\<close>

lemma floor_scaled_random:
  assumes "1 \<le> n"
  shows "(\<lambda>r. \<lfloor>r * real_of_int n\<rfloor>) ` {r. 0 \<le> r \<and> r < 1} = {0..n - 1}"
proof
  show "(\<lambda>r. \<lfloor>r * real_of_int n\<rfloor>) ` {r. 0 \<le> r \<and> r < 1} \<subseteq> {0..n - 1}"
  proof clarify
    fix r :: real assume r: "0 \<le> r" "r < 1"
    have "0 \<le> r * real_of_int n" using r assms by simp
    moreover have "r * real_of_int n < real_of_int n" using r assms by simp
    ultimately show "\<lfloor>r * real_of_int n\<rfloor> \<in> {0..n - 1}" by (simp add: floor_less_iff)
  qed
next
  show "{0..n - 1} \<subseteq> (\<lambda>r. \<lfloor>r * real_of_int n\<rfloor>) ` {r. 0 \<le> r \<and> r < 1}"
  proof
    fix k assume k: "k \<in> {0..n - 1}"
    let ?r = "real_of_int k / real_of_int n"
    have "?r * real_of_int n = real_of_int k" using assms by simp
    moreover have "0 \<le> ?r \<and> ?r < 1" using k assms by (simp add: divide_less_eq)
    ultimately show "k \<in> (\<lambda>r. \<lfloor>r * real_of_int n\<rfloor>) ` {r. 0 \<le> r \<and> r < 1}"
      by (intro image_eqI [of _ _ ?r]) auto
  qed
qed

section \<open>Properties of the tools\<close>

text \<open>
  C10. \<open>check_prime\<close> reports exactly the primes of its input, each once, in the
  order of their first occurrence, joined by \<open>", "\<close>; when the input holds no
  prime it says so. The trial division up to \<open>floor(sqrt n) + 1\<close> agrees with the
  definition of a prime on every integer.
\<close>

theorem check_prime_output:
  "check_prime numbers =
     (if filter prime_spec numbers = [] then ''No prime numbers found.''
      else js_join '', '' (map show_int (nub (filter prime_spec numbers))) @ '' are prime numbers.'')"
proof -
  have "add_primes [] numbers = nub (filter prime_spec numbers)"
    using add_primes_nub [of "[]" numbers] by (simp add: check_number_iff_prime)
  then show ?thesis by (simp add: check_prime_def)
qed

theorem check_prime_output_witness: "check_prime [2, 4, 2, 9] = ''2 are prime numbers.''"
proof -
  have "prime_spec 2" by (auto simp: prime_spec_def)
  moreover have "\<not> prime_spec 4" unfolding prime_spec_def
  proof
    assume "1 < (4::int) \<and> (\<forall>d::int. 1 < d \<and> d < 4 \<longrightarrow> \<not> d dvd 4)"
    then have "\<not> (2::int) dvd 4" by (auto dest: spec [where x = 2])
    then show False by simp
  qed
  moreover have "\<not> prime_spec 9" unfolding prime_spec_def
  proof
    assume "1 < (9::int) \<and> (\<forall>d::int. 1 < d \<and> d < 9 \<longrightarrow> \<not> d dvd 9)"
    then have "\<not> (3::int) dvd 9" by (auto dest: spec [where x = 3])
    then show False by simp
  qed
  moreover have "show_int 2 = ''2''" by code_simp
  ultimately show ?thesis using check_prime_output [of "[2, 4, 2, 9]"] by simp
qed

text \<open>
  C11. For a die of at least one side, \<open>roll_dice\<close> over the range of
  \<open>Math.random()\<close> yields exactly the faces \<open>1..sides\<close>: never outside, each one
  reachable.
\<close>

theorem roll_dice_range:
  assumes "1 \<le> sides"
  shows "roll_dice sides ` {r. 0 \<le> r \<and> r < 1} = {1..sides}"
proof -
  have "roll_dice sides ` {r. 0 \<le> r \<and> r < 1}
      = (\<lambda>k. k + 1) ` ((\<lambda>r. \<lfloor>r * real_of_int sides\<rfloor>) ` {r. 0 \<le> r \<and> r < 1})"
    by (auto simp: roll_dice_def getRandomIntInclusive_def image_image)
  also have "\<dots> = (\<lambda>k. k + 1) ` {0..sides - 1}" by (simp add: floor_scaled_random [OF assms])
  also have "\<dots> = {1..sides}" by (simp add: image_shift_int)
  finally show ?thesis .
qed

theorem roll_dice_range_witness: "roll_dice 6 (1 / 2) \<in> {1..6}"
proof -
  have "roll_dice 6 (1 / 2) \<in> roll_dice 6 ` {r. 0 \<le> r \<and> r < 1}" by simp
  then show ?thesis using roll_dice_range [of 6] by simp
qed

text \<open>
  The tool's schema accepts any number of sides; a die with no sides still rolls 1.
\<close>

lemma roll_dice_zero_sides: "0 \<le> r \<Longrightarrow> r < 1 \<Longrightarrow> roll_dice 0 r = 1"
  by (simp add: roll_dice_def getRandomIntInclusive_def)

text \<open>
  The weather tool reports a whole temperature between 15 and 34 degrees, and
  every one of them can occur.
\<close>

theorem weather_temperature_range:
  "weather_temperature ` {r. 0 \<le> r \<and> r < 1} = {15..34}"
proof -
  have "weather_temperature ` {r. 0 \<le> r \<and> r < 1}
      = (\<lambda>k. k + 15) ` ((\<lambda>r. \<lfloor>r * real_of_int 20\<rfloor>) ` {r. 0 \<le> r \<and> r < 1})"
  proof -
    have "\<And>r. weather_temperature r = \<lfloor>r * real_of_int 20\<rfloor> + 15"
      by (simp add: weather_temperature_def getRandomArbitrary_def)
    then show ?thesis by (auto simp: image_image)
  qed
  also have "\<dots> = (\<lambda>k. k + 15) ` {0..19}" using floor_scaled_random [of 20] by simp
  also have "\<dots> = {15..34}" by (simp add: image_shift_int)
  finally show ?thesis .
qed

end
