(* ===== verification/SampleAgents.thy ===== *)
theory SampleAgents
  imports Agents SampleTools
begin

text \<open>
  The sample agents of the repository as agent trees of the runtime model:
  \<open>simple_sequential_agent\<close> and \<open>parallel_agent\<close> of src/unnamed/part_001 and the
  \<open>root_agent\<close> of src/dev/samples/loop_agent.ts. An \<open>LlmAgent\<close> is a leaf whose
  model is a parameter (the reasoning model is a collaborator); its function tools
  are the tools of \<open>SampleTools\<close>, adapted to the runtime's tool interface: the
  call's arguments are decoded as the tool's schema asks, and \<open>Math.random()\<close> is
  the parameter \<open>r\<close>. \<open>GOOGLE_SEARCH\<close> is a built-in tool of the model and is a
  parameter too.
\<close>

section \<open>Decoding tool arguments\<close>

definition is_digit :: "char \<Rightarrow> bool" where
  "is_digit c = ((48::nat) \<le> of_char c \<and> of_char c \<le> (57::nat))"

definition parse_nat :: "string \<Rightarrow> nat option" where
  "parse_nat s = (if s \<noteq> [] \<and> list_all is_digit s
     then Some (foldl (\<lambda>n c. 10 * n + (of_char c - 48)) 0 s) else None)"

definition parse_int :: "string \<Rightarrow> int option" where
  "parse_int s = (case s of
     c # ds \<Rightarrow> if c = CHR ''-'' then map_option (\<lambda>n. - int n) (parse_nat ds) else map_option int (parse_nat s)
   | [] \<Rightarrow> None)"

fun split_commas :: "string \<Rightarrow> string \<Rightarrow> string list" where
  "split_commas acc [] = [rev acc]"
| "split_commas acc (c # cs) = (if c = CHR '','' then rev acc # split_commas [] cs else split_commas (c # acc) cs)"

definition parse_ints :: "string \<Rightarrow> int list option" where
  "parse_ints s = (let ps = map parse_int (split_commas [] s)
     in if list_all (\<lambda>p. p \<noteq> None) ps then Some (map the ps) else None)"

section \<open>The function tools\<close>

definition roll_dice_tool :: "real \<Rightarrow> rt_tool" where
  "roll_dice_tool r args st = (case parse_int args of
     None \<Rightarrow> Inl ''invalid arguments: sides''
   | Some sides \<Rightarrow> Inr (show_int (roll_dice sides r), Map.empty))"

definition check_prime_tool :: rt_tool where
  "check_prime_tool args st = (case parse_ints args of
     None \<Rightarrow> Inl ''invalid arguments: numbers''
   | Some ns \<Rightarrow> Inr (check_prime ns, Map.empty))"

definition weather_tool :: "real \<Rightarrow> rt_tool" where
  "weather_tool r city st = Inr (get_weather_temperature city r, Map.empty)"

text \<open>\<open>get_temperature\<close> returns a number; \<open>render\<close> is its rendering in the tool response.\<close>

definition temperature_tool :: "(real \<Rightarrow> string) \<Rightarrow> real \<Rightarrow> rt_tool" where
  "temperature_tool render r args st = Inr (render (get_temperature r), Map.empty)"

text \<open>\<open>notify_user\<close> only logs and returns \<open>undefined\<close>.\<close>

definition notify_tool :: rt_tool where
  "notify_tool args st = Inr ([], Map.empty)"

section \<open>The agent trees\<close>

definition roll_agent :: "model \<Rightarrow> real \<Rightarrow> rt_agent" where
  "roll_agent m r = Leaf ''roll_agent'' m [(''roll_dice'', roll_dice_tool r)]"

definition prime_agent :: "model \<Rightarrow> rt_agent" where
  "prime_agent m = Leaf ''prime_agent'' m [(''check_prime'', check_prime_tool)]"

definition simple_sequential_agent :: "model \<Rightarrow> model \<Rightarrow> real \<Rightarrow> rt_agent" where
  "simple_sequential_agent m1 m2 r = Sequential ''simple_sequential_agent'' [roll_agent m1 r, prime_agent m2]"

definition google_search_agent :: "model \<Rightarrow> rt_tool \<Rightarrow> rt_agent" where
  "google_search_agent m search = Leaf ''google_search_agent'' m [(''google_search'', search)]"

definition get_weather_agent :: "model \<Rightarrow> real \<Rightarrow> rt_agent" where
  "get_weather_agent m r = Leaf ''get_weather_agent'' m [(''get_weather_temperature'', weather_tool r)]"

definition parallel_agent :: "model \<Rightarrow> model \<Rightarrow> rt_tool \<Rightarrow> real \<Rightarrow> rt_agent" where
  "parallel_agent m1 m2 search r = Parallel ''parallel_agent'' [google_search_agent m1 search, get_weather_agent m2 r]"

definition monitor_temperature_agent :: "model \<Rightarrow> (real \<Rightarrow> string) \<Rightarrow> real \<Rightarrow> rt_agent" where
  "monitor_temperature_agent m render r = Leaf ''monitor_temperature_agent'' m
     [(''get_temperature'', temperature_tool render r), (''notify_user'', notify_tool)]"

definition loop_root_agent :: "model \<Rightarrow> (real \<Rightarrow> string) \<Rightarrow> real \<Rightarrow> rt_agent" where
  "loop_root_agent m render r = Loop ''root_agent'' (Some 5) [monitor_temperature_agent m render r]"

section \<open>Sample inputs\<close>

definition text_turn :: "string \<Rightarrow> turn" where
  "text_turn t = \<lparr>t_text = Some t, t_calls = [], t_delta = Map.empty, t_escalate = False\<rparr>"

definition demo_ctx :: ctx where
  "demo_ctx = \<lparr>c_inv = 0, c_branch = ''root'', c_agent = ''root''\<rparr>"

definition demo_session :: session where
  "demo_session = new_session ''app'' ''user'' 0 Map.empty"

text \<open>A model that answers with the text of the last event it sees.\<close>

definition echo_model :: model where
  "echo_model conv = Inr (text_turn (if conv = [] then [] else (case e_text (last conv) of None \<Rightarrow> [] | Some t \<Rightarrow> t)))"

text \<open>A monitoring model that escalates from its second turn on.\<close>

definition escalating_model :: model where
  "escalating_model conv = (if list_ex (\<lambda>e. e_author e = ''monitor_temperature_agent'') conv
     then Inr ((text_turn ''too hot'')\<lparr>t_escalate := True\<rparr>) else Inr (text_turn ''ok''))"

text \<open>A monitoring model that reads the temperature, notifies the user, then answers.\<close>

definition monitoring_model :: model where
  "monitoring_model conv =
     (let results = filter (\<lambda>e. e_author e = ''monitor_temperature_agent'' \<and> e_calls e = []) conv
      in if results = [] then Inr ((text_turn [])\<lparr>t_text := None, t_calls := [(''get_temperature'', [])]\<rparr>)
         else if length results = 1
         then Inr ((text_turn [])\<lparr>t_text := None, t_calls := [(''notify_user'', the (e_text (last results)))]\<rparr>)
         else Inr (text_turn ''done''))"

lemmas sample_simps = roll_agent_def prime_agent_def simple_sequential_agent_def google_search_agent_def
  get_weather_agent_def parallel_agent_def monitor_temperature_agent_def loop_root_agent_def
  text_turn_def demo_ctx_def demo_session_def echo_model_def escalating_model_def monitoring_model_def
  temperature_tool_def notify_tool_def eval_nat_numeral visible_to_def model_event_def call_tool_def
  tool_event_def applyDelta_def append_event_def stops_def Let_def derive_def derive_branch_def

section \<open>Properties of the sample agents\<close>

text \<open>
  C28. The sample \<open>simple_sequential_agent\<close> runs \<open>roll_agent\<close> to the end and
  forwards all its events before any event of \<open>prime_agent\<close>, which runs on the
  session with \<open>roll_agent\<close>'s events appended and so sees its results and deltas.
\<close>

theorem simple_sequential_order:
  assumes "exec n sch (roll_agent m1 r) (c\<lparr>c_agent := ''roll_agent''\<rparr>) s = Some ea" and "\<not> list_ex stops ea"
    and "exec n sch (prime_agent m2) (c\<lparr>c_agent := ''prime_agent''\<rparr>) (append_all s ea) = Some eb"
    and "\<not> list_ex stops eb"
  shows "exec (n + 3) sch (simple_sequential_agent m1 m2 r) c s = Some (ea @ eb)"
  using sequential_order [of n sch "roll_agent m1 r" c s ea "prime_agent m2" eb] assms
  by (simp add: simple_sequential_agent_def roll_agent_def prime_agent_def del: exec_no_unfold)

theorem simple_sequential_order_witness:
  "\<exists>ea eb. exec (2 + 3) (\<lambda>_. []) (simple_sequential_agent (\<lambda>conv. Inr (text_turn ''rolled 4'')) echo_model (1/2))
       demo_ctx demo_session = Some (ea @ eb)
     \<and> e_text (last eb) = Some ''rolled 4''"
proof -
  obtain ea where a: "exec 2 (\<lambda>_. []) (roll_agent (\<lambda>conv. Inr (text_turn ''rolled 4'')) (1/2))
      (demo_ctx\<lparr>c_agent := ''roll_agent''\<rparr>) demo_session = Some ea"
    and na: "\<not> list_ex stops ea"
    and ea: "ea = [model_event (demo_ctx\<lparr>c_agent := ''roll_agent''\<rparr>) (text_turn ''rolled 4'')]"
    by (simp add: sample_simps)
  obtain eb where b: "exec 2 (\<lambda>_. []) (prime_agent echo_model) (demo_ctx\<lparr>c_agent := ''prime_agent''\<rparr>)
      (append_all demo_session ea) = Some eb"
    and nb: "\<not> list_ex stops eb" and t: "e_text (last eb) = Some ''rolled 4''"
    unfolding ea by (simp add: sample_simps)
  from simple_sequential_order [OF a na b nb] t show ?thesis by blast
qed

text \<open>
  C29. The sample \<open>parallel_agent\<close> runs \<open>google_search_agent\<close> and
  \<open>get_weather_agent\<close> on the session as it was when it started, each in its own
  branch; it forwards every event of both exactly once, each branch's in order,
  and a key only the weather branch writes ends with the weather branch's value,
  whatever the arrival order.
\<close>

theorem parallel_agent_isolation:
  assumes "exec (Suc n) sch (parallel_agent m1 m2 search r) c s = Some es"
  shows "\<exists>e1 e2. exec n sch (google_search_agent m1 search) (derive c ''google_search_agent'') s = Some e1
    \<and> exec n sch (get_weather_agent m2 r) (derive c ''get_weather_agent'') s = Some e2
    \<and> mset es = mset (e1 @ e2) \<and> subseq e1 es \<and> subseq e2 es
    \<and> (\<forall>k st. (\<forall>e \<in> set e1. e_delta e k = None) \<longrightarrow> fold_from st es k = fold_from st e2 k)"
proof -
  from assms obtain e1 e2 where
    r1: "exec n sch (google_search_agent m1 search) (derive c ''google_search_agent'') s = Some e1"
    and r2: "exec n sch (get_weather_agent m2 r) (derive c ''get_weather_agent'') s = Some e2"
    and es: "es = interleave (sch (c_branch c)) [e1, e2]"
    by (auto simp: parallel_agent_def google_search_agent_def get_weather_agent_def Let_def split: if_splits)
  have m: "mset es = mset (e1 @ e2)" using interleave_mset [of _ "[e1, e2]"] es by simp
  have s1: "subseq e1 es" using interleave_subseq [of 0 "[e1, e2]"] es by simp
  have s2: "subseq e2 es" using interleave_subseq [of 1 "[e1, e2]"] es by simp
  have "fold_from st es k = fold_from st e2 k" if "\<forall>e \<in> set e1. e_delta e k = None" for k st
    using parallel_merge_key [of 1 "[e1, e2]" k st "sch (c_branch c)"] that es by (simp add: less_Suc_eq)
  with r1 r2 m s1 s2 show ?thesis by blast
qed

theorem parallel_agent_isolation_witness:
  "\<exists>es e1 e2. exec (Suc 2) (\<lambda>_. [1, 0]) (parallel_agent echo_model echo_model (\<lambda>q st. Inr (q, Map.empty)) (1/2))
       demo_ctx demo_session = Some es
     \<and> exec 2 (\<lambda>_. [1, 0]) (google_search_agent echo_model (\<lambda>q st. Inr (q, Map.empty)))
       (derive demo_ctx ''google_search_agent'') demo_session = Some e1
     \<and> exec 2 (\<lambda>_. [1, 0]) (get_weather_agent echo_model (1/2)) (derive demo_ctx ''get_weather_agent'') demo_session = Some e2
     \<and> mset es = mset (e1 @ e2)"
proof -
  obtain es where e: "exec (Suc 2) (\<lambda>_. [1, 0]) (parallel_agent echo_model echo_model (\<lambda>q st. Inr (q, Map.empty)) (1/2))
      demo_ctx demo_session = Some es"
    by (simp add: sample_simps)
  from parallel_agent_isolation [OF e] obtain e1 e2 where
    "exec 2 (\<lambda>_. [1, 0]) (google_search_agent echo_model (\<lambda>q st. Inr (q, Map.empty)))
       (derive demo_ctx ''google_search_agent'') demo_session = Some e1"
    "exec 2 (\<lambda>_. [1, 0]) (get_weather_agent echo_model (1/2)) (derive demo_ctx ''get_weather_agent'') demo_session = Some e2"
    "mset es = mset (e1 @ e2)" by blast
  with e show ?thesis by blast
qed

text \<open>
  C30. The sample Loop \<open>root_agent\<close> of loop_agent.ts always ends: whenever each run
  of \<open>monitor_temperature_agent\<close> ends (within fuel \<open>n\<close>), the loop ends within
  fuel \<open>n + 9\<close>, because of its \<open>maxIterations: 5\<close>.
\<close>

theorem loop_root_agent_ends:
  assumes "\<forall>s. \<exists>es. exec n sch (monitor_temperature_agent m render r) (c\<lparr>c_agent := ''monitor_temperature_agent''\<rparr>) s = Some es"
  shows "\<exists>es. exec (n + 9) sch (loop_root_agent m render r) c s = Some es"
proof -
  have a: "\<forall>s. \<exists>es. exec n sch (monitor_temperature_agent m render r)
      (c\<lparr>c_agent := rt_name (monitor_temperature_agent m render r)\<rparr>) s = Some es"
    using assms by (simp add: monitor_temperature_agent_def)
  have e: "n + 9 = Suc (5 + n + 3)" by simp
  show ?thesis
    unfolding e loop_root_agent_def exec.simps(5) [of "5 + n + 3"]
    using exec_loop_ends [OF a, of 5 0 5 s] by (simp del: exec_loop.simps)
qed

theorem loop_root_agent_ends_witness:
  "\<exists>es. exec (2 + 9) (\<lambda>_. []) (loop_root_agent echo_model (\<lambda>_. ''35'') (1/2)) demo_ctx demo_session = Some es"
proof -
  have "\<forall>s. \<exists>es. exec 2 (\<lambda>_. []) (monitor_temperature_agent echo_model (\<lambda>_. ''35'') (1/2))
      (demo_ctx\<lparr>c_agent := ''monitor_temperature_agent''\<rparr>) s = Some es"
    by (simp add: sample_simps)
  from loop_root_agent_ends [OF this] show ?thesis .
qed

text \<open>
  The sample Loop stops at an escalation before its cap: when the monitoring
  agent escalates in its second iteration, \<open>root_agent\<close> ends after two
  iterations although \<open>maxIterations\<close> is 5.
\<close>

theorem loop_root_agent_escalation:
  "\<exists>es. exec 12 (\<lambda>_. []) (loop_root_agent escalating_model (\<lambda>_. ''35'') (1/2)) demo_ctx demo_session = Some es
     \<and> map (\<lambda>e. (e_author e, e_escalate e)) es
       = [(''monitor_temperature_agent'', False), (''monitor_temperature_agent'', True)]"
  by (simp add: sample_simps)

text \<open>
  The tool loop of the sample \<open>monitor_temperature_agent\<close> converges: with a
  model that reads the temperature, notifies the user, then answers, it yields
  three model turns and two tool results, alternating, in the order of the calls,
  and ends.
\<close>

theorem monitor_tool_loop:
  "\<exists>es. exec 10 (\<lambda>_. []) (monitor_temperature_agent monitoring_model (\<lambda>_. ''35'') (1/2)) demo_ctx demo_session = Some es
     \<and> map (\<lambda>e. (e_text e, e_calls e)) es
       = [(None, [(''get_temperature'', [])]), (Some ''35'', []), (None, [(''notify_user'', ''35'')]),
          (Some [], []), (Some ''done'', [])]"
  by (simp add: sample_simps)

end
