(* ===== verification/WebClient.thy ===== *)
theory WebClient
  imports Agents
begin

text \<open>
  The test client of the web server tests (the second file of
  src/dev/samples/loop_agent.ts, lines 57-521): \<open>MockHttpClient\<close>, which hands a
  request and a mock response object to the Express app and turns the calls the app
  makes on the response into the settled promise; the custom \<open>TestAgent\<close>; and the
  way the run_sse test splits the streamed text into events. The server
  (\<open>AdkWebServer\<close>) is not in the repository: an app is given by the list of calls
  it makes on the response for a request. A call that throws ends the handler.
\<close>

section \<open>JSON values and reading the error field\<close>

datatype jval = JNull | JBool bool | JNum int | JStr string | JArr "jval list"
  | JObj "(string \<times> jval) list"

datatype js_error = JsTypeError

text \<open>
  \<open>(jsonData as {error: string}).error\<close>: reading a property of \<open>undefined\<close>
  (\<open>None\<close>) or \<open>null\<close> throws a TypeError; an object gives its field, other
  values have none.
\<close>

fun error_field :: "jval option \<Rightarrow> js_error + jval option" where
  "error_field None = Inl JsTypeError"
| "error_field (Some JNull) = Inl JsTypeError"
| "error_field (Some (JObj fs)) = Inr (map_of fs ''error'')"
| "error_field (Some (JBool b)) = Inr None"
| "error_field (Some (JNum n)) = Inr None"
| "error_field (Some (JStr s)) = Inr None"
| "error_field (Some (JArr vs)) = Inr None"

section \<open>The mock response\<close>

text \<open>
  What the promise of \<open>sendMockRequest\<close> settles to: resolved with
  \<open>{status, data, text}\<close>, or rejected with \<open>{response: {status}, message}\<close>.
\<close>

datatype outcome =
    Resolved nat "jval option" "string option"
  | Rejected nat "jval option"

text \<open>The closure variables \<open>statusCode\<close> and \<open>streamText\<close>, and the promise.\<close>

record mock =
  m_status :: nat
  m_text :: string
  m_settled :: "outcome option"

definition mock_init :: mock where
  "mock_init = \<lparr>m_status = 200, m_text = [], m_settled = None\<rparr>"

text \<open>\<open>resolve\<close> and \<open>reject\<close>: a promise settles once; later calls are ignored.\<close>

definition settle :: "outcome \<Rightarrow> mock \<Rightarrow> mock" where
  "settle r m = (if m_settled m = None then m\<lparr>m_settled := Some r\<rparr> else m)"

definition sendRespose :: "nat \<Rightarrow> jval option \<Rightarrow> string option \<Rightarrow> mock \<Rightarrow> js_error + mock" where
  "sendRespose sc jsonData text m =
     (if 399 < sc then
        (case error_field jsonData of
           Inl e \<Rightarrow> Inl e
         | Inr msg \<Rightarrow> Inr (settle (Resolved sc jsonData text) (settle (Rejected sc msg) m)))
      else Inr (settle (Resolved sc jsonData text) m))"

text \<open>The methods of \<open>mockResponse\<close> the app may call.\<close>

datatype res_call = Status nat | Send string | Json "jval option" | Write string | End
  | SetHeader string string | FlushHeaders

fun mock_call :: "res_call \<Rightarrow> mock \<Rightarrow> js_error + mock" where
  "mock_call (Status code) m = Inr (m\<lparr>m_status := code\<rparr>)"
| "mock_call (Send s) m = sendRespose (m_status m) None (Some s) m"
| "mock_call (Json d) m = sendRespose (m_status m) d None m"
| "mock_call (Write chunk) m = Inr (m\<lparr>m_text := m_text m @ chunk\<rparr>)"
| "mock_call End m = sendRespose (m_status m) None (Some (m_text m)) m"
| "mock_call (SetHeader n v) m = Inr m"
| "mock_call FlushHeaders m = Inr m"

fun mock_calls :: "res_call list \<Rightarrow> mock \<Rightarrow> js_error + mock" where
  "mock_calls [] m = Inr m"
| "mock_calls (c # cs) m = (case mock_call c m of Inl e \<Rightarrow> Inl e | Inr m' \<Rightarrow> mock_calls cs m')"

record request =
  rq_method :: string
  rq_url :: string
  rq_body :: "jval option"

type_synonym app = "request \<Rightarrow> res_call list"

text \<open>
  \<open>sendMockRequest\<close>: \<open>Inl\<close> when a response method throws into the app,
  \<open>Inr None\<close> when the app never settles the promise.
\<close>

definition sendMockRequest :: "app \<Rightarrow> string \<Rightarrow> string \<Rightarrow> jval option \<Rightarrow> js_error + outcome option" where
  "sendMockRequest app url method body =
     (case mock_calls (app \<lparr>rq_method = method, rq_url = url, rq_body = body\<rparr>) mock_init of
        Inl e \<Rightarrow> Inl e
      | Inr m \<Rightarrow> Inr (m_settled m))"

definition client_get :: "app \<Rightarrow> string \<Rightarrow> js_error + outcome option" where
  "client_get app url = sendMockRequest app url ''GET'' None"

definition client_post :: "app \<Rightarrow> string \<Rightarrow> jval \<Rightarrow> js_error + outcome option" where
  "client_post app url body = sendMockRequest app url ''POST'' (Some body)"

definition client_put :: "app \<Rightarrow> string \<Rightarrow> jval \<Rightarrow> js_error + outcome option" where
  "client_put app url body = sendMockRequest app url ''PUT'' (Some body)"

definition client_delete :: "app \<Rightarrow> string \<Rightarrow> js_error + outcome option" where
  "client_delete app url = sendMockRequest app url ''DELETE'' None"

section \<open>The test agent\<close>

text \<open>\<open>createEvent\<close> with the context's invocation id and branch, authored by the agent.\<close>

definition test_event :: "string \<Rightarrow> ctx \<Rightarrow> string \<Rightarrow> event" where
  "test_event name c t = \<lparr>e_invocation = c_inv c, e_author = name, e_branch = c_branch c,
     e_text = Some t, e_calls = [], e_delta = Map.empty, e_escalate = False, e_error = False, e_seq = 0\<rparr>"

definition TestAgent_runAsyncImpl :: "string \<Rightarrow> ctx \<Rightarrow> event list" where
  "TestAgent_runAsyncImpl name c =
     [test_event name c (''Hello user! I'' @ [CHR 0x27] @ ''m streaming you events now!''),
      test_event name c ''Event 1'', test_event name c ''Event 2'']"

definition TestAgent_runLiveImpl :: "string \<Rightarrow> ctx \<Rightarrow> event list" where
  "TestAgent_runLiveImpl name c = [test_event name c ''test live content'']"

definition TEST_AGENT :: string where
  "TEST_AGENT = ''testAgent''"

section \<open>Reading the event stream\<close>

text \<open>\<open>String.prototype.split\<close> with a string separator.\<close>

function split_aux :: "string \<Rightarrow> string \<Rightarrow> string \<Rightarrow> string list" where
  "split_aux sep acc [] = [rev acc]"
| "split_aux sep acc (c # cs) =
     (if sep \<noteq> [] \<and> take (length sep) (c # cs) = sep
      then rev acc # split_aux sep [] (drop (length sep) (c # cs))
      else split_aux sep (c # acc) cs)"
  by pat_completeness auto
termination
  by (relation "measure (\<lambda>(sep, acc, s). length s)") auto

lemmas split_aux_step = split_aux.simps(2)

declare split_aux.simps(2) [simp del]

definition js_split :: "string \<Rightarrow> string \<Rightarrow> string list" where
  "js_split s sep = (if sep = [] then map (\<lambda>c. [c]) s else split_aux sep [] s)"

text \<open>\<open>a[i]\<close>, \<open>undefined\<close> out of range.\<close>

definition js_index :: "'a list \<Rightarrow> nat \<Rightarrow> 'a option" where
  "js_index xs i = (if i < length xs then Some (xs ! i) else None)"

definition sse_sep :: string where
  "sse_sep = [CHR 0x0A, CHR 0x0A]"

text \<open>
  Lines 503-508: split at blank lines, drop the last element, and take what
  follows \<open>data: \<close> in each; \<open>JSON.parse(undefined)\<close> throws, the \<open>None\<close>
  result. The payloads are the JSON texts of the events.
\<close>

definition sse_events :: "string \<Rightarrow> string list option" where
  "sse_events text =
     (let rawEvent = butlast (js_split text sse_sep);
          payloads = map (\<lambda>t. js_index (js_split t ''data: '') 1) rawEvent
      in if list_all (\<lambda>p. p \<noteq> None) payloads then Some (map the payloads) else None)"

section \<open>Test verdicts\<close>

text \<open>
  \<open>expect(response.status).toBe(code)\<close> after \<open>await\<close>: a rejection fails the test.
  The pattern \<open>try { await ... } catch (e) { expect(e.response.status).toBe(code) }\<close>
  of lines 276-290, 307-313 and 380-394 asserts nothing when the request resolves.
\<close>

definition expect_status :: "nat \<Rightarrow> outcome \<Rightarrow> bool" where
  "expect_status code r = (case r of Resolved st _ _ \<Rightarrow> st = code | Rejected _ _ \<Rightarrow> False)"

definition try_expect_status :: "nat \<Rightarrow> outcome \<Rightarrow> bool" where
  "try_expect_status code r = (case r of Resolved _ _ _ \<Rightarrow> True | Rejected st _ \<Rightarrow> st = code)"

text \<open>
  The frames the test expects on the stream: each event's JSON text after
  \<open>data: \<close>, ended by a blank line.
\<close>

definition sse_frame :: "string \<Rightarrow> string" where
  "sse_frame p = ''data: '' @ p @ sse_sep"

section \<open>The promise settles once\<close>

lemma settle_settled [simp]: "m_settled m \<noteq> None \<Longrightarrow> settle r m = m"
  by (simp add: settle_def)

lemma settle_fresh [simp]: "m_settled (settle r m) = (case m_settled m of None \<Rightarrow> Some r | Some r' \<Rightarrow> Some r')"
  by (cases "m_settled m") (simp_all add: settle_def)

lemma mock_call_keeps:
  assumes "mock_call c m = Inr m'" and "m_settled m \<noteq> None"
  shows "m_settled m' = m_settled m"
  using assms by (cases c) (auto simp: sendRespose_def split: if_splits sum.splits)

lemma mock_calls_keeps:
  "mock_calls cs m = Inr m' \<Longrightarrow> m_settled m \<noteq> None \<Longrightarrow> m_settled m' = m_settled m"
proof (induction cs arbitrary: m)
  case (Cons c cs)
  then obtain m1 where m1: "mock_call c m = Inr m1" "mock_calls cs m1 = Inr m'"
    by (cases "mock_call c m") auto
  with Cons.prems mock_call_keeps have "m_settled m1 = m_settled m" by blast
  with Cons.IH [OF m1(2)] Cons.prems show ?case by simp
qed simp

lemma mock_calls_append:
  "mock_calls (cs @ ds) m = (case mock_calls cs m of Inl e \<Rightarrow> Inl e | Inr m' \<Rightarrow> mock_calls ds m')"
  by (induction cs arbitrary: m) (auto split: sum.splits)

lemma mock_calls_writes:
  "mock_calls (map Write ws @ cs) m = mock_calls cs (m\<lparr>m_text := m_text m @ concat ws\<rparr>)"
  by (induction ws arbitrary: m) simp_all

section \<open>Splitting the stream\<close>

lemma take_length_eq_prefix: "(take (length p) s = p) = prefix p s"
  by (auto simp: prefix_def) (metis append_take_drop_id)

lemma split_aux_no_sep:
  "\<not> sublist sep s \<Longrightarrow> split_aux sep acc s = [rev acc @ s]"
proof (induction s arbitrary: acc)
  case (Cons c cs)
  have np: "\<not> prefix sep (c # cs)" and ns: "\<not> sublist sep cs"
    using Cons.prems by (auto simp: sublist_Cons_right)
  have "split_aux sep acc (c # cs) = split_aux sep (c # acc) cs"
    by (subst split_aux_step) (simp add: take_length_eq_prefix np)
  also have "\<dots> = [rev (c # acc) @ cs]"
    by (rule Cons.IH [OF ns])
  finally show ?case by simp
qed simp

lemma prefix_append_short: "prefix p (u @ v) \<Longrightarrow> length p \<le> length u \<Longrightarrow> prefix p u"
  by (auto simp: prefix_append)

lemma split_aux_sep:
  assumes "sep \<noteq> []" and "\<not> sublist sep (x @ butlast sep)"
  shows "split_aux sep acc (x @ sep @ rest) = (rev acc @ x) # split_aux sep [] rest"
  using assms(2)
proof (induction x arbitrary: acc)
  case Nil
  from assms(1) obtain c cs where "sep = c # cs" by (cases sep) auto
  then show ?case by (simp add: split_aux_step)
next
  case (Cons y x)
  have split: "sep = butlast sep @ [last sep]" using assms(1) by simp
  have np: "\<not> prefix sep (y # x @ sep @ rest)"
  proof
    assume "prefix sep (y # x @ sep @ rest)"
    then have "prefix sep ((y # x @ butlast sep) @ [last sep] @ rest)"
      by (subst (asm) split) simp
    then have "prefix sep (y # x @ butlast sep)"
      by (rule prefix_append_short) (use assms(1) in simp)
    with Cons.prems show False by (auto dest: prefix_imp_sublist)
  qed
  have ns: "\<not> sublist sep (x @ butlast sep)"
    using Cons.prems by (auto simp: sublist_Cons_right)
  have "split_aux sep acc (y # x @ sep @ rest) = split_aux sep (y # acc) (x @ sep @ rest)"
    by (subst split_aux_step) (simp add: take_length_eq_prefix np)
  also have "\<dots> = (rev (y # acc) @ x) # split_aux sep [] rest"
    by (rule Cons.IH [OF ns])
  finally show ?case by simp
qed

lemma sublist_pair_count:
  "sublist [c, c] xs \<Longrightarrow> 2 \<le> length (filter ((=) c) xs)"
  by (auto simp: sublist_def)

lemma frame_no_sep:
  assumes "CHR 0x0A \<notin> set p"
  shows "\<not> sublist sse_sep (''data: '' @ p @ butlast sse_sep)"
proof
  assume "sublist sse_sep (''data: '' @ p @ butlast sse_sep)"
  then have "sublist [CHR 0x0A, CHR 0x0A] (''data: '' @ p @ [CHR 0x0A])"
    by (simp add: sse_sep_def)
  then have "2 \<le> length (filter ((=) (CHR 0x0A)) (''data: '' @ p @ [CHR 0x0A]))"
    by (rule sublist_pair_count)
  moreover have "filter ((=) (CHR 0x0A)) p = []"
    using assms by (auto simp: filter_empty_conv)
  ultimately show False by simp
qed

lemma split_frames:
  assumes "\<forall>p \<in> set ps. CHR 0x0A \<notin> set p"
  shows "split_aux sse_sep [] (concat (map sse_frame ps)) = map ((@) ''data: '') ps @ [[]]"
  using assms
proof (induction ps)
  case Nil
  then show ?case by simp
next
  case (Cons p ps)
  have eq: "concat (map sse_frame (p # ps)) = (''data: '' @ p) @ sse_sep @ concat (map sse_frame ps)"
    by (simp add: sse_frame_def)
  have ne: "sse_sep \<noteq> []" by (simp add: sse_sep_def)
  have "\<not> sublist sse_sep ((''data: '' @ p) @ butlast sse_sep)"
    using frame_no_sep Cons.prems by simp
  from split_aux_sep [OF ne this, of "[]" "concat (map sse_frame ps)"]
  have hd: "split_aux sse_sep [] ((''data: '' @ p) @ sse_sep @ concat (map sse_frame ps))
      = (''data: '' @ p) # split_aux sse_sep [] (concat (map sse_frame ps))"
    by (simp only: rev.simps append_Nil)
  have ih: "split_aux sse_sep [] (concat (map sse_frame ps)) = map ((@) ''data: '') ps @ [[]]"
    using Cons by simp
  show ?case unfolding eq hd ih by simp
qed

lemma split_data:
  assumes "\<not> sublist ''data: '' p"
  shows "js_split (''data: '' @ p) ''data: '' = [[], p]"
proof -
  have ne: "''data: '' \<noteq> []" by simp
  have "\<not> sublist ''data: '' ([] @ butlast ''data: '')"
    by (auto dest: sublist_length_le)
  from split_aux_sep [OF ne this, of "[]" p]
  have hd: "split_aux ''data: '' [] (''data: '' @ p) = [] # split_aux ''data: '' [] p"
    by (simp only: rev.simps append_Nil)
  have tl: "split_aux ''data: '' [] p = [p]"
    using split_aux_no_sep [OF assms, of "[]"] by (simp only: rev.simps append_Nil)
  show ?thesis unfolding js_split_def hd tl by simp
qed

lemma test_agent_from_ctx: "e \<in> set (TestAgent_runAsyncImpl n c) \<Longrightarrow> from_ctx c e \<and> e_author e = n"
  by (auto simp: TestAgent_runAsyncImpl_def test_event_def from_ctx_def)

lemma sse_payloads:
  assumes "\<forall>p \<in> set ps. \<not> sublist ''data: '' p"
  shows "map (\<lambda>t. js_index (js_split t ''data: '') 1) (map ((@) ''data: '') ps) = map Some ps"
  unfolding map_map comp_def
proof (rule map_cong [OF refl])
  fix x assume "x \<in> set ps"
  with assms have "\<not> sublist ''data: '' x" by blast
  then have "js_split (''data: '' @ x) ''data: '' = [[], x]" by (rule split_data)
  then show "js_index (js_split (''data: '' @ x) ''data: '') 1 = Some x" by (simp add: js_index_def)
qed

text \<open>An event whose JSON text contains \<open>data: \<close> is cut there.\<close>

lemma sse_events_cut_at_data:
  "sse_events (sse_frame ''{t:data: x}'') = Some [''{t:'']"
  by (simp add: sse_events_def sse_frame_def js_split_def sse_sep_def split_aux_step js_index_def)

section \<open>Properties of the test client\<close>

lemma sse_events_frames:
  assumes "\<forall>p \<in> set ps. CHR 0x0A \<notin> set p \<and> \<not> sublist ''data: '' p"
  shows "sse_events (concat (map sse_frame ps)) = Some ps"
proof -
  have s1: "js_split (concat (map sse_frame ps)) sse_sep = map ((@) ''data: '') ps @ [[]]"
    using split_frames assms by (simp add: js_split_def sse_sep_def)
  have s2: "map (\<lambda>t. js_index (js_split t ''data: '') 1) (map ((@) ''data: '') ps) = map Some ps"
    using assms by (intro sse_payloads) blast
  show ?thesis
    unfolding sse_events_def Let_def s1 butlast_snoc s2 by (simp add: list_all_iff)
qed

text \<open>
  C32. The run_sse test reads back exactly the events the server streams: for
  payloads without a line break and without the text \<open>data: \<close> (JSON texts
  escape line breaks), splitting the stream of their frames gives the payloads,
  in order.
\<close>

theorem sse_events_roundtrip:
  assumes "\<forall>p \<in> set ps. CHR 0x0A \<notin> set p \<and> \<not> sublist ''data: '' p"
  shows "sse_events (concat (map sse_frame ps)) = Some ps"
  using assms by (rule sse_events_frames)

theorem sse_events_roundtrip_witness:
  "sse_events (concat (map sse_frame [''{a}'', ''{b:1}''])) = Some [''{a}'', ''{b:1}'']"
proof -
  have "\<forall>p \<in> set [''{a}'', ''{b:1}'']. CHR 0x0A \<notin> set p \<and> \<not> sublist ''data: '' p"
    by (auto dest: sublist_length_le)
  from sse_events_roundtrip [OF this] show ?thesis .
qed

text \<open>
  C33. An error reply reaches the test only as JSON: with a status above 399,
  \<open>res.json(obj)\<close> rejects the request with that status and \<open>obj.error\<close> as
  message, while \<open>res.send(text)\<close> and \<open>res.end()\<close> throw a TypeError inside the
  response method, because \<open>sendRespose\<close> reads \<open>.error\<close> of an undefined body.
\<close>

theorem mock_error_reply:
  assumes "399 < sc"
  shows "sendMockRequest (\<lambda>_. [Status sc, Json (Some (JObj fs))]) url meth body
           = Inr (Some (Rejected sc (map_of fs ''error'')))
    \<and> sendMockRequest (\<lambda>_. [Status sc, Send t]) url meth body = Inl JsTypeError
    \<and> sendMockRequest (\<lambda>_. Status sc # map Write ws @ [End]) url meth body = Inl JsTypeError"
  using assms by (simp add: sendMockRequest_def mock_init_def sendRespose_def mock_calls_writes settle_def)

theorem mock_error_reply_witness:
  "sendMockRequest (\<lambda>_. [Status 404, Json (Some (JObj [(''error'', JStr ''not found'')]))]) ''/x'' ''GET'' None
     = Inr (Some (Rejected 404 (Some (JStr ''not found''))))
   \<and> sendMockRequest (\<lambda>_. [Status 404, Send ''not found'']) ''/x'' ''GET'' None = Inl JsTypeError
   \<and> sendMockRequest (\<lambda>_. Status 404 # map Write [] @ [End]) ''/x'' ''GET'' None = Inl JsTypeError"
  using mock_error_reply [of 404 "[(''error'', JStr ''not found'')]" "''/x''" "''GET''" None "''not found''" "[]"]
  by simp

lemma mock_stream_text:
  assumes "sc \<le> 399"
  shows "sendMockRequest (\<lambda>_. Status sc # map Write ws @ [End]) url meth body
           = Inr (Some (Resolved sc None (Some (concat ws))))"
  using assms by (simp add: sendMockRequest_def mock_init_def sendRespose_def mock_calls_writes settle_def)

text \<open>
  The tests that expect an error status inside \<open>try ... catch\<close> (lines
  276-290, 307-313 and 380-394) pass on a server that answers with success: the
  request resolves, the \<open>catch\<close> block never runs, and nothing is asserted, while
  the direct expectation of that status fails.
\<close>

lemma try_status_test_vacuous:
  assumes "sc \<le> 399"
  shows "client_post (\<lambda>_. [Status sc, Json d]) url body = Inr (Some (Resolved sc d None))
    \<and> try_expect_status 400 (Resolved sc d None) \<and> \<not> expect_status 400 (Resolved sc d None)"
  using assms
  by (simp add: client_post_def sendMockRequest_def mock_init_def sendRespose_def settle_def
      try_expect_status_def expect_status_def)

lemma try_status_test_vacuous_example:
  "client_post (\<lambda>_. [Status 200, Json (Some (JObj []))]) ''/apps/testApp/users/testUser/sessions/sessionId'' (JObj [])
     = Inr (Some (Resolved 200 (Some (JObj [])) None))
   \<and> try_expect_status 400 (Resolved 200 (Some (JObj [])) None)
   \<and> \<not> expect_status 400 (Resolved 200 (Some (JObj [])) None)"
  using try_status_test_vacuous [of 200 "Some (JObj [])"] by simp

end
