(* ===== verification/WebTests.thy ===== *)
theory WebTests
  imports WebClient
begin

text \<open>
  The tests of the web server (src/dev/samples/loop_agent.ts, lines 209-520) as
  verdicts: each \<open>it\<close> block is a function of the app as it answers after the
  test's setup (the sessions and artifacts the test creates through the services),
  true when every expectation holds and nothing throws. What a test reads back from
  the services after a request (\<open>getSession\<close>, \<open>loadArtifact\<close>) is a parameter.
\<close>

section \<open>Reading the replies\<close>

text \<open>
  \<open>await\<close> on a request: the resolved \<open>{status, data, text}\<close>; a rejection, a
  TypeError thrown into the app or a promise that never settles fails the test.
\<close>

definition awaited :: "js_error + outcome option \<Rightarrow> (nat \<times> jval option \<times> string option) option" where
  "awaited r = (case r of Inr (Some (Resolved st d t)) \<Rightarrow> Some (st, d, t) | _ \<Rightarrow> None)"

text \<open>
  A property read \<open>x.f\<close>: a TypeError on \<open>undefined\<close> and \<open>null\<close>, the field of an
  object, the length of an array, nothing otherwise.
\<close>

fun jget :: "jval option \<Rightarrow> string \<Rightarrow> js_error + jval option" where
  "jget None f = Inl JsTypeError"
| "jget (Some JNull) f = Inl JsTypeError"
| "jget (Some (JObj fs)) f = Inr (map_of fs f)"
| "jget (Some (JArr vs)) f = Inr (if f = ''length'' then Some (JNum (int (length vs))) else None)"
| "jget (Some (JBool b)) f = Inr None"
| "jget (Some (JNum n)) f = Inr None"
| "jget (Some (JStr s)) f = Inr None"

text \<open>\<open>expect(x.f).toEqual(v)\<close> (and \<open>toBe\<close> on strings and numbers).\<close>

definition expect_field :: "jval option \<Rightarrow> string \<Rightarrow> jval \<Rightarrow> bool" where
  "expect_field d f v = (jget d f = Inr (Some v))"

text \<open>\<open>expect(x.f).toBeDefined()\<close>.\<close>

definition expect_defined :: "jval option \<Rightarrow> string \<Rightarrow> bool" where
  "expect_defined d f = (case jget d f of Inr (Some _) \<Rightarrow> True | _ \<Rightarrow> False)"

text \<open>The try/catch form on a request result.\<close>

definition try_verdict :: "nat \<Rightarrow> js_error + outcome option \<Rightarrow> bool" where
  "try_verdict code r = (case r of Inr (Some out) \<Rightarrow> try_expect_status code out | _ \<Rightarrow> False)"

definition SESSIONS :: string where
  "SESSIONS = ''/apps/testApp/users/testUser/sessions''"

definition ARTIFACTS :: string where
  "ARTIFACTS = SESSIONS @ ''/sessionId/artifacts''"

section \<open>The Sessions tests\<close>

definition test_list_sessions :: "app \<Rightarrow> bool" where
  "test_list_sessions app = (case awaited (client_get app SESSIONS) of None \<Rightarrow> False
     | Some (st, d, t) \<Rightarrow> st = 200 \<and> expect_field d ''sessions'' (JArr []))"

definition test_create_random_id :: "app \<Rightarrow> bool" where
  "test_create_random_id app = (case awaited (client_post app SESSIONS (JObj [])) of None \<Rightarrow> False
     | Some (st, d, t) \<Rightarrow> st = 200 \<and> expect_defined d ''id''
         \<and> expect_field d ''appName'' (JStr ''testApp'') \<and> expect_field d ''userId'' (JStr ''testUser''))"

definition test_create_given_id :: "app \<Rightarrow> bool" where
  "test_create_given_id app = (case awaited (client_post app (SESSIONS @ ''/sessionId'') (JObj [])) of None \<Rightarrow> False
     | Some (st, d, t) \<Rightarrow> st = 200 \<and> expect_field d ''id'' (JStr ''sessionId'')
         \<and> expect_field d ''appName'' (JStr ''testApp'') \<and> expect_field d ''userId'' (JStr ''testUser''))"

definition test_create_existing :: "app \<Rightarrow> bool" where
  "test_create_existing app = try_verdict 400 (client_post app (SESSIONS @ ''/sessionId'') (JObj []))"

definition test_get_session :: "app \<Rightarrow> bool" where
  "test_get_session app = (case awaited (client_get app (SESSIONS @ ''/sessionId'')) of None \<Rightarrow> False
     | Some (st, d, t) \<Rightarrow> st = 200 \<and> expect_field d ''id'' (JStr ''sessionId''))"

definition test_session_not_found :: "app \<Rightarrow> bool" where
  "test_session_not_found app = try_verdict 404 (client_get app (SESSIONS @ ''/sessionId''))"

text \<open>\<open>gone\<close>: \<open>sessionService.getSession(...)\<close> afterwards is \<open>undefined\<close>.\<close>

definition test_delete_session :: "app \<Rightarrow> bool \<Rightarrow> bool" where
  "test_delete_session app gone = (case awaited (client_delete app (SESSIONS @ ''/sessionId'')) of None \<Rightarrow> False
     | Some (st, d, t) \<Rightarrow> st = 204 \<and> gone)"

section \<open>The Artifacts tests\<close>

definition test_list_artifacts :: "app \<Rightarrow> bool" where
  "test_list_artifacts app = (case awaited (client_get app ARTIFACTS) of None \<Rightarrow> False
     | Some (st, d, t) \<Rightarrow> st = 200 \<and> d = Some (JArr []))"

definition test_get_artifact :: "app \<Rightarrow> bool" where
  "test_get_artifact app = (case awaited (client_get app (ARTIFACTS @ ''/artifact.txt'')) of None \<Rightarrow> False
     | Some (st, d, t) \<Rightarrow> st = 200 \<and> d = Some (JObj [(''text'', JStr ''content'')]))"

definition test_artifact_not_found :: "app \<Rightarrow> bool" where
  "test_artifact_not_found app = try_verdict 404 (client_get app (ARTIFACTS @ ''/artifact.txt''))"

definition test_artifact_version :: "app \<Rightarrow> bool" where
  "test_artifact_version app = (case awaited (client_get app (ARTIFACTS @ ''/artifact.txt/versions/0'')) of None \<Rightarrow> False
     | Some (st, d, t) \<Rightarrow> st = 200 \<and> d = Some (JObj [(''text'', JStr ''content'')]))"

definition test_artifact_versions :: "app \<Rightarrow> bool" where
  "test_artifact_versions app = (case awaited (client_get app (ARTIFACTS @ ''/artifact.txt/versions'')) of None \<Rightarrow> False
     | Some (st, d, t) \<Rightarrow> st = 200 \<and> expect_field d ''length'' (JNum 2))"

definition test_delete_artifact :: "app \<Rightarrow> bool \<Rightarrow> bool" where
  "test_delete_artifact app gone = (case awaited (client_delete app (ARTIFACTS @ ''/artifact.txt'')) of None \<Rightarrow> False
     | Some (st, d, t) \<Rightarrow> st = 204 \<and> gone)"

section \<open>The run_sse test\<close>

text \<open>
  The object \<open>TestAgent\<close> passes to \<open>createEvent\<close>, as the JSON the server sends
  back, and \<open>events[i].content?.parts?.[0].text\<close>.
\<close>

definition test_event_json :: "string \<Rightarrow> ctx \<Rightarrow> string \<Rightarrow> jval" where
  "test_event_json name c t = JObj [(''invocationId'', JNum (int (c_inv c))), (''author'', JStr name),
     (''branch'', JStr (c_branch c)),
     (''content'', JObj [(''parts'', JArr [JObj [(''text'', JStr t)]]), (''role'', JStr ''model'')])]"

definition first_part_text :: "jval \<Rightarrow> jval option" where
  "first_part_text e = (case jget (Some e) ''content'' of
     Inr (Some (JObj cs)) \<Rightarrow> (case map_of cs ''parts'' of
        Some (JArr (p # ps)) \<Rightarrow> (case jget (Some p) ''text'' of Inr v \<Rightarrow> v | Inl _ \<Rightarrow> None)
      | _ \<Rightarrow> None)
   | _ \<Rightarrow> None)"

text \<open>
  Lines 482-520: post the message, split the streamed text into events and parse
  each (\<open>parse\<close> is \<open>JSON.parse\<close>, \<open>None\<close> when it throws); three events with the
  three texts.
\<close>

definition RUN_SSE_BODY :: jval where
  "RUN_SSE_BODY = JObj [(''appName'', JStr ''testApp''), (''userId'', JStr ''testUser''),
     (''sessionId'', JStr ''sessionId''),
     (''newMessage'', JObj [(''parts'', JArr [JObj [(''text'', JStr ''Hello test agent!'')]]), (''role'', JStr ''user'')])]"

definition test_run_sse :: "(string \<Rightarrow> jval option) \<Rightarrow> app \<Rightarrow> bool" where
  "test_run_sse parse app = (case awaited (client_post app ''/run_sse'' RUN_SSE_BODY) of None \<Rightarrow> False
     | Some (st, d, None) \<Rightarrow> False
     | Some (st, d, Some text) \<Rightarrow>
         (case sse_events text of None \<Rightarrow> False
          | Some ps \<Rightarrow> (if list_all (\<lambda>p. parse p \<noteq> None) ps then
              (let events = map (the \<circ> parse) ps in
               st = 200 \<and> length events = 3
               \<and> first_part_text (events ! 0) = Some (JStr (''Hello user! I'' @ [CHR 0x27] @ ''m streaming you events now!''))
               \<and> first_part_text (events ! 1) = Some (JStr ''Event 1'')
               \<and> first_part_text (events ! 2) = Some (JStr ''Event 2''))
            else False)))"

end
