(* ===== verification/GeminiTests.thy ===== *)
theory GeminiTests
  imports GeminiConfig
begin

text \<open>
  The tests of src/core/test/models/google_llm_test.ts that reach the modelled
  code. \<open>isGemini3Model\<close> and \<open>isGemini3PreviewModel\<close> (utils/model_name.js) are
  not among the sources: they are parameters, and the detection tests become a
  condition on them. The instance-creation tests construct a \<open>Gemini\<close> with an
  API key and a Gemini 3 preview model; \<open>toBeDefined\<close> holds when the constructor
  returns rather than throws. The environment is whatever the test process has.
  The tracking-header tests read a getter of the library's \<open>BaseLlm\<close>, outside
  the sources, and are not modelled.
\<close>

definition detection_cases :: "(string \<times> bool \<times> bool) list" where
  "detection_cases =
     [(''gemini-3-flash-preview'', True, True), (''gemini-3-pro-preview'', True, True),
      (''gemini-3-pro-image-preview'', True, True), (''gemini-2.5-flash'', False, False),
      (''gemini-1.5-pro'', False, False), (''gemini-3-flash'', True, False)]"

definition detection_tests :: "(string \<Rightarrow> bool) \<Rightarrow> (string \<Rightarrow> bool) \<Rightarrow> bool" where
  "detection_tests isGemini3Model isGemini3PreviewModel =
     list_all (\<lambda>(m, g3, g3p). isGemini3Model m = g3 \<and> isGemini3PreviewModel m = g3p) detection_cases"

definition key_params :: "string \<Rightarrow> string option \<Rightarrow> gemini_params" where
  "key_params model apiEndpoint =
     \<lparr>p_model = Some model, p_apiKey = Some ''test-key'', p_vertexai = None, p_project = None,
      p_location = None, p_apiEndpoint = apiEndpoint\<rparr>"

definition test_create_flash_preview :: "(string \<Rightarrow> bool) \<Rightarrow> bool \<Rightarrow> environment \<Rightarrow> bool" where
  "test_create_flash_preview is_g3p canReadEnv env =
     (\<not> isl (Gemini_new is_g3p canReadEnv env (key_params ''gemini-3-flash-preview'' None)))"

definition test_create_custom_endpoint :: "(string \<Rightarrow> bool) \<Rightarrow> bool \<Rightarrow> environment \<Rightarrow> bool" where
  "test_create_custom_endpoint is_g3p canReadEnv env =
     (\<not> isl (Gemini_new is_g3p canReadEnv env
               (key_params ''gemini-3-flash-preview'' (Some ''https://custom-endpoint.com''))))"

section \<open>Lemmas\<close>

text \<open>
  With an API key in the parameters, a Gemini 3 preview model never throws: the
  Gemini 3 switch turns Vertex AI mode off whenever a key is available, and the key
  satisfies the API-key check.
\<close>

lemma key_params_g3p_constructs:
  assumes "is_g3p model" and "model \<noteq> []"
  shows "\<not> isl (Gemini_new is_g3p c env (key_params model e))"
  using assms
  by (simp add: Gemini_new_def key_params_def gemini3_switch_def check_credentials_def Let_def
           split: prod.splits)

lemma instance_tests_pass:
  assumes "detection_tests is_g3 is_g3p"
  shows "test_create_flash_preview is_g3p c env \<and> test_create_custom_endpoint is_g3p c env"
proof -
  have "is_g3p ''gemini-3-flash-preview''"
    using assms by (simp add: detection_tests_def detection_cases_def)
  then show ?thesis
    by (simp add: test_create_flash_preview_def test_create_custom_endpoint_def key_params_g3p_constructs)
qed

text \<open>
  The detection result matters: were the model not recognised as a Gemini 3
  preview, the same parameters would throw in an environment that selects Vertex
  AI and names no project.
\<close>

lemma instance_test_needs_detection:
  "\<not> test_create_flash_preview (\<lambda>_. False) True
     (\<lambda>v. if v = ''GOOGLE_GENAI_USE_VERTEXAI'' then Some ''true'' else None)"
  by (simp add: test_create_flash_preview_def Gemini_new_def key_params_def gemini3_switch_def
      check_credentials_def vertex_from_env_def toLowerCase_def ascii_lower_def Let_def)

end
