(* ===== verification/TestConfig.thy ===== *)
theory TestConfig
  imports Prelude "HOL-Library.Sublist"
begin

text \<open>
  The vitest configuration (src/unnamed/part_000). \<open>defineConfig\<close> returns its
  argument, so the configuration is a value: a record of the test options and the
  module aliases. Two parts of it compute. One is the \<open>include\<close> glob, which decides
  which files vitest collects as tests. It is matched segment by segment: \<open>**\<close> is
  any number of directories and \<open>*\<close> any run of characters within a segment. The
  other is the alias of \<open>@paean-ai/adk\<close>, built with \<open>path.resolve(__dirname,
  './core/src')\<close>, where \<open>__dirname\<close> is the configuration's absolute directory.
  Paths are given relative to that directory.
\<close>

record vitest_test =
  vt_environment :: string
  vt_globals :: bool
  vt_include :: "string list"

record vitest_config =
  vc_test :: vitest_test
  vc_alias :: "(string \<times> string) list"

section \<open>Paths\<close>

text \<open>\<open>path.resolve\<close> of a relative path: the base and the path, normalised from the root.\<close>

definition path_resolve :: "string \<Rightarrow> string \<Rightarrow> string" where
  "path_resolve base p =
     (let segs = (if take 1 p = ''/'' then split_path p else split_path base @ split_path p)
      in ''/'' @ js_join ''/'' (norm_segs False [] segs))"

section \<open>The include glob\<close>

fun star_match :: "string \<Rightarrow> string \<Rightarrow> bool" where
  "star_match [] s = (s = [])"
| "star_match (c # p) [] = (c = CHR ''*'' \<and> star_match p [])"
| "star_match (c # p) (d # s) =
     (if c = CHR ''*'' then star_match p (d # s) \<or> star_match (c # p) s
      else c = d \<and> star_match p s)"

fun glob_segs :: "string list \<Rightarrow> string list \<Rightarrow> bool" where
  "glob_segs [] xs = (xs = [])"
| "glob_segs (p # ps) [] = (p = ''**'' \<and> glob_segs ps [])"
| "glob_segs (p # ps) (x # xs) =
     (if p = ''**'' then glob_segs ps (x # xs) \<or> glob_segs (p # ps) xs
      else star_match p x \<and> glob_segs ps xs)"

definition glob_match :: "string \<Rightarrow> string \<Rightarrow> bool" where
  "glob_match pat path = glob_segs (split_path pat) (split_path path)"

definition VITEST_CONFIG :: "string \<Rightarrow> vitest_config" where
  "VITEST_CONFIG dirname =
     \<lparr>vc_test = \<lparr>vt_environment = ''node'', vt_globals = True, vt_include = [''**/*_test.ts'']\<rparr>,
      vc_alias = [(''@paean-ai/adk'', path_resolve dirname ''./core/src'')]\<rparr>"

definition is_test_file :: "vitest_config \<Rightarrow> string \<Rightarrow> bool" where
  "is_test_file cfg path = list_ex (\<lambda>pat. glob_match pat path) (vt_include (vc_test cfg))"

definition resolve_import :: "vitest_config \<Rightarrow> string \<Rightarrow> string" where
  "resolve_import cfg spec =
     (case map_of (vc_alias cfg) spec of Some target \<Rightarrow> target | None \<Rightarrow> spec)"

section \<open>Lemmas\<close>

lemma star_match_literal: "CHR ''*'' \<notin> set p \<Longrightarrow> star_match p s \<longleftrightarrow> p = s"
  by (induction p s rule: star_match.induct) auto

lemma star_match_suffix:
  assumes "CHR ''*'' \<notin> set p"
  shows "star_match (CHR ''*'' # p) s \<longleftrightarrow> suffix p s"
  using assms by (induction s) (auto simp: star_match_literal suffix_Cons)

lemma glob_segs_any_dir:
  assumes "q \<noteq> ''**''"
  shows "glob_segs [''**'', q] xs \<longleftrightarrow> xs \<noteq> [] \<and> star_match q (last xs)"
  using assms by (induction xs) auto

lemma vitest_collects_test_files:
  "is_test_file (VITEST_CONFIG dirname) path \<longleftrightarrow> suffix ''_test.ts'' (last (split_path path))"
proof -
  have pat: "split_path ''**/*_test.ts'' = [''**'', ''*_test.ts'']"
    by (simp add: split_path_def)
  have star: "star_match ''*_test.ts'' x \<longleftrightarrow> suffix ''_test.ts'' x" for x
    using star_match_suffix [of "''_test.ts''" x] by simp
  have ne: "split_path path \<noteq> []"
    by (simp add: split_path_def split_path_aux_nonempty)
  have q: "''*_test.ts'' \<noteq> ''**''" by simp
  have "glob_segs [''**'', ''*_test.ts''] (split_path path) \<longleftrightarrow> suffix ''_test.ts'' (last (split_path path))"
    by (simp only: glob_segs_any_dir [OF q] ne star simp_thms)
  then show ?thesis
    by (simp add: is_test_file_def VITEST_CONFIG_def glob_match_def pat)
qed

text \<open>The repository's two test files are collected; the sample file that holds the web server tests is not.\<close>

lemma repository_test_files:
  "is_test_file (VITEST_CONFIG d) ''dev/test/server/agent_graph_test.ts''"
  "is_test_file (VITEST_CONFIG d) ''core/test/models/google_llm_test.ts''"
  "\<not> is_test_file (VITEST_CONFIG d) ''dev/samples/loop_agent.ts''"
  by (simp_all add: vitest_collects_test_files split_path_def suffix_def)

lemma adk_alias:
  "resolve_import (VITEST_CONFIG ''/work/adk-js'') ''@paean-ai/adk'' = ''/work/adk-js/core/src''"
  "spec \<noteq> ''@paean-ai/adk'' \<Longrightarrow> resolve_import (VITEST_CONFIG d) spec = spec"
  by (simp_all add: resolve_import_def VITEST_CONFIG_def path_resolve_def split_path_def)

end
