(* ===== verification/WebServices.thy ===== *)
theory WebServices
  imports WebClient "HOL-Library.AList"
begin

text \<open>
  The services behind the web server tests of src/dev/samples/loop_agent.ts and the
  state each test starts from. The session and artifact services are library code
  that is not in the repository. They are modelled from the specification
  (section 6) at the level the tests observe:
  \<^item> the session service as the list of session keys (app, user, session id)
    it holds, since the tests only ask whether a session exists;
  \<^item> the artifact service as an association list from an artifact key (app,
    user, session id, file name) to the list of its versions. Each save appends a
    version and a version is never changed once created. The specification does not
    say how versions are numbered; the model numbers them from 0, the number the
    tests' route \<open>/versions/0\<close> reads after a single save.

  The \<open>beforeEach\<close> fixture (lines 217-241) gives each test fresh, empty
  services, and a test's setup then calls \<open>createSession\<close> and \<open>saveArtifact\<close>
  on them.
\<close>

type_synonym sess_key = "string \<times> string \<times> string"
type_synonym art_key = "string \<times> string \<times> string \<times> string"

record web_services =
  ws_sessions :: "sess_key list"
  ws_artifacts :: "(art_key \<times> jval list) list"

section \<open>Session service\<close>

definition createSession :: "sess_key \<Rightarrow> web_services \<Rightarrow> web_services" where
  "createSession k ws =
     (if k \<in> set (ws_sessions ws) then ws else ws\<lparr>ws_sessions := ws_sessions ws @ [k]\<rparr>)"

definition getSession :: "sess_key \<Rightarrow> web_services \<Rightarrow> bool" where
  "getSession k ws = (k \<in> set (ws_sessions ws))"

definition deleteSession :: "sess_key \<Rightarrow> web_services \<Rightarrow> web_services" where
  "deleteSession k ws = ws\<lparr>ws_sessions := removeAll k (ws_sessions ws)\<rparr>"

definition listSessions :: "string \<Rightarrow> string \<Rightarrow> web_services \<Rightarrow> sess_key list" where
  "listSessions app user ws = filter (\<lambda>(a, u, s). a = app \<and> u = user) (ws_sessions ws)"

section \<open>Artifact service\<close>

definition versions_of :: "art_key \<Rightarrow> web_services \<Rightarrow> jval list" where
  "versions_of k ws = (case map_of (ws_artifacts ws) k of None \<Rightarrow> [] | Some vs \<Rightarrow> vs)"

text \<open>
  \<open>saveArtifact\<close> returns the number of the version it created, counted from 0
  (a choice of the model: the specification leaves the numbering open).
\<close>

definition saveArtifact :: "art_key \<Rightarrow> jval \<Rightarrow> web_services \<Rightarrow> web_services \<times> nat" where
  "saveArtifact k b ws =
     (let vs = versions_of k ws
      in (ws\<lparr>ws_artifacts := AList.update k (vs @ [b]) (ws_artifacts ws)\<rparr>, length vs))"

text \<open>\<open>loadArtifact\<close>: the given version, or the latest; \<open>undefined\<close> (\<open>None\<close>) when there is none.\<close>

definition loadArtifact :: "art_key \<Rightarrow> nat option \<Rightarrow> web_services \<Rightarrow> jval option" where
  "loadArtifact k v ws =
     (let vs = versions_of k ws
      in case v of
           None \<Rightarrow> (if vs = [] then None else Some (last vs))
         | Some n \<Rightarrow> (if n < length vs then Some (vs ! n) else None))"

definition listVersions :: "art_key \<Rightarrow> web_services \<Rightarrow> nat list" where
  "listVersions k ws = [0..<length (versions_of k ws)]"

definition listArtifactKeys :: "sess_key \<Rightarrow> web_services \<Rightarrow> string list" where
  "listArtifactKeys s ws =
     map (\<lambda>((a, u, sid, f), vs). f) (filter (\<lambda>((a, u, sid, f), vs). (a, u, sid) = s) (ws_artifacts ws))"

definition deleteArtifact :: "art_key \<Rightarrow> web_services \<Rightarrow> web_services" where
  "deleteArtifact k ws = ws\<lparr>ws_artifacts := AList.delete k (ws_artifacts ws)\<rparr>"

text \<open>A sequence of artifact service calls, as a test or the server makes them.\<close>

datatype art_op = Save art_key jval | Delete art_key

fun art_step :: "art_op \<Rightarrow> web_services \<Rightarrow> web_services" where
  "art_step (Save k b) ws = fst (saveArtifact k b ws)"
| "art_step (Delete k) ws = deleteArtifact k ws"

definition art_run :: "art_op list \<Rightarrow> web_services \<Rightarrow> web_services" where
  "art_run ops ws = fold art_step ops ws"

section \<open>The fixture and the setups of the tests\<close>

definition beforeEach_services :: web_services where
  "beforeEach_services = \<lparr>ws_sessions = [], ws_artifacts = []\<rparr>"

definition TEST_SESSION :: sess_key where
  "TEST_SESSION = (''testApp'', ''testUser'', ''sessionId'')"

definition ARTIFACT_KEY :: art_key where
  "ARTIFACT_KEY = (''testApp'', ''testUser'', ''sessionId'', ''artifact.txt'')"

definition text_artifact :: "string \<Rightarrow> jval" where
  "text_artifact t = JObj [(''text'', JStr t)]"

definition setup_session :: web_services where
  "setup_session = createSession TEST_SESSION beforeEach_services"

definition setup_artifact :: web_services where
  "setup_artifact = fst (saveArtifact ARTIFACT_KEY (text_artifact ''content'') setup_session)"

definition setup_two_versions :: web_services where
  "setup_two_versions = fst (saveArtifact ARTIFACT_KEY (text_artifact ''content2'') setup_artifact)"

section \<open>Lemmas on the services\<close>

text \<open>
  What the specification asks of the artifact service: a save creates the next
  version and loads back, and a sequence of calls without a deletion of a file keeps
  every version of it.
\<close>

lemma versions_of_save:
  "versions_of k' (fst (saveArtifact k b ws)) = (if k' = k then versions_of k ws @ [b] else versions_of k' ws)"
  by (simp add: saveArtifact_def versions_of_def Let_def update_conv')

lemma versions_of_delete:
  "versions_of k' (deleteArtifact k ws) = (if k' = k then [] else versions_of k' ws)"
  by (simp add: deleteArtifact_def versions_of_def delete_conv')

lemma save_load_roundtrip:
  assumes "saveArtifact k b ws = (ws', v)"
  shows "loadArtifact k (Some v) ws' = Some b \<and> loadArtifact k None ws' = Some b
         \<and> listVersions k ws' = [0..<Suc v]"
proof -
  have "ws' = fst (saveArtifact k b ws)" "v = length (versions_of k ws)"
    using assms by (simp_all add: saveArtifact_def Let_def prod_eq_iff)
  then show ?thesis
    by (simp add: loadArtifact_def listVersions_def versions_of_save nth_append)
qed

lemma art_run_keeps_versions:
  "Delete k \<notin> set ops \<Longrightarrow> prefix (versions_of k ws) (versions_of k (art_run ops ws))"
proof (induction ops arbitrary: ws)
  case Nil then show ?case by (simp add: art_run_def)
next
  case (Cons op ops)
  have "prefix (versions_of k ws) (versions_of k (art_step op ws))"
    using Cons.prems by (cases op) (auto simp: versions_of_save versions_of_delete)
  moreover have "prefix (versions_of k (art_step op ws)) (versions_of k (art_run ops (art_step op ws)))"
    using Cons by simp
  ultimately show ?case by (auto simp: art_run_def intro: prefix_order.trans)
qed

lemma art_run_load_kept:
  assumes "loadArtifact k (Some n) ws = Some b" and "Delete k \<notin> set ops"
  shows "loadArtifact k (Some n) (art_run ops ws) = Some b"
proof -
  obtain zs where "versions_of k (art_run ops ws) = versions_of k ws @ zs"
    using art_run_keeps_versions [OF assms(2)] by (auto simp: prefix_def)
  with assms(1) show ?thesis
    by (simp add: loadArtifact_def Let_def nth_append split: if_splits)
qed

section \<open>Lemmas on the replies and the setups\<close>

text \<open>The three shapes of reply the tests read, through the mock client.\<close>

lemma reply_shapes:
  "sendMockRequest (\<lambda>_. [Json (Some j)]) u m b = Inr (Some (Resolved 200 (Some j) None))"
  "sendMockRequest (\<lambda>_. [Status 204, End]) u m b = Inr (Some (Resolved 204 None (Some [])))"
  "399 < c \<Longrightarrow> sendMockRequest (\<lambda>_. [Status c, Json (Some (JObj [(''error'', JStr msg)]))]) u m b
     = Inr (Some (Rejected c (Some (JStr msg))))"
  by (simp_all add: sendMockRequest_def mock_init_def sendRespose_def settle_def)

lemma setup_facts:
  "\<not> getSession TEST_SESSION beforeEach_services" "getSession TEST_SESSION setup_session"
  "listSessions ''testApp'' ''testUser'' beforeEach_services = []"
  "listArtifactKeys TEST_SESSION setup_session = []"
  "loadArtifact ARTIFACT_KEY None setup_session = None"
  "loadArtifact ARTIFACT_KEY None setup_artifact = Some (text_artifact ''content'')"
  "loadArtifact ARTIFACT_KEY (Some 0) setup_artifact = Some (text_artifact ''content'')"
  "listVersions ARTIFACT_KEY setup_two_versions = [0, 1]"
  "loadArtifact ARTIFACT_KEY None (deleteArtifact ARTIFACT_KEY setup_artifact) = None"
  "\<not> getSession TEST_SESSION (deleteSession TEST_SESSION setup_session)"
  by code_simp+

end
