(* ===== verification/Spec2Isabelle.thy ===== *)
theory Spec2Isabelle
  imports AgentGraph SampleGraphs AgentGraphDot GeminiConfig GeminiStream CliRun SampleAgents WebTests GeminiTests TestConfig WebServices
begin

text \<open>
  \<^bold>\<open>A verification development for the agent runtime of paean-ai/adk-js.\<close>

  \<^bold>\<open>The program.\<close> The repository holds the developer tools of an agent
  runtime. The runtime itself (agents, Runner, session service) is a package the
  sources import. Its parts, and the theories that model them, are these.

  \<^item> The agent graph renderer, src/dev/src/server/agent_graph.ts, is modelled in
    theory \<open>AgentGraph\<close>. \<open>buildGraph\<close>, \<open>buildCluster\<close>, \<open>drawNode\<close> and
    \<open>drawEdge\<close> become functions that return the list of graph calls they make
    (\<open>AddSubgraph\<close>, \<open>AddNode\<close>, \<open>AddEdge\<close>, each tagged with the path of the
    subgraph it is made on), or \<open>Inl TypeError\<close> where the code reads
    \<open>subAgents[0]\<close> of an empty list. Agents and tools are a datatype with the
    four agent classes the renderer distinguishes.
  \<^item> \<open>AgentGraphDot\<close> models the strict \<open>Digraph\<close> that \<open>getAgentGraph\<close> draws on
    (a record of its id, strictness, attributes and calls) and
    \<open>getAgentGraphAsDot\<close>. The serialiser \<open>toDot\<close> of ts-graphviz is a parameter.
    \<open>dot_contract\<close> states what is relied on: the text holds, for each call, the
    fragment ts-graphviz prints for it. The six tests of
    src/dev/test/server/agent_graph_test.ts are verdicts on that text, each
    a function of the check it runs on its agent tree, highlights and fragments.
    The caption icons are the bytes agent_graph.ts holds, the test's emoji the
    bytes the test holds.
  \<^item> The sample agent trees, as the renderer sees them, are in \<open>SampleGraphs\<close>:
    the AgentTool sample and the search agent of src/unnamed/part_001 among them.
  \<^item> The sample tools, src/unnamed/part_001 and src/dev/samples/loop_agent.ts, are
    modelled in \<open>SampleTools\<close>: \<open>check_prime\<close> with its trial-division loop
    (a \<open>function\<close> with a measure), the dice and temperature tools with
    \<open>Math.random()\<close> as a real parameter in \<open>[0, 1)\<close>.
  \<^item> The Gemini model client appears in src/dev/test/server/agent_graph_test.ts in
    two revisions of google_llm.ts.
    \<^item> \<open>GeminiConfig\<close> models the constructor (its checks and throws as
      \<open>config_error + gemini\<close>), the getters \<open>apiClient\<close>, \<open>apiBackend\<close>,
      \<open>liveApiVersion\<close> and \<open>liveApiClient\<close>, \<open>preprocessRequest\<close>, and
      \<open>connect\<close>: the live configuration it completes in the request, and the
      arguments it passes to \<open>live.connect\<close>.
    \<^item> \<open>GeminiStream\<close> models \<open>generateContentAsync\<close> of both revisions. The
      streaming loop is a step function on the loop's variables and the
      instance's \<open>cachedThoughtSignature\<close>, over the list of streamed chunks. The
      non-streaming path of revision 2 is modelled too, and so is the merge of
      the tracking headers into the request's headers before the SDK call.
  \<^item> \<open>GeminiTests\<close> models the tests of src/core/test/models/google_llm_test.ts that
    reach that code. The model-detection tests become a condition on the two
    detection functions, which are parameters. The instance-creation tests become
    verdicts on the constructor.
  \<^item> \<open>TestConfig\<close> models the vitest configuration, src/unnamed/part_000: the
    configuration value, the files its \<open>include\<close> glob collects as tests, and
    the module alias it builds with \<open>path.resolve\<close>.
  \<^item> The command-line runner, src/dev/src/cli/cli_run.ts, is modelled in
    \<open>CliRun\<close>: \<open>runFromInputFile\<close>, \<open>runInteractively\<close> and \<open>runAgent\<close>.
    The runtime is reached through the record \<open>services\<close> (create a session,
    run one user message, append an event, read an event), over an abstract
    storage and event type. Standard input is the list of typed lines, and the
    console the list of printed lines. \<open>path.join\<close>, with the segment
    normalisation of Node's POSIX \<open>path\<close> module, is in \<open>Prelude\<close>, shared with
    the \<open>path.resolve\<close> of \<open>TestConfig\<close>.
  \<^item> The runtime is not among the sources and is modelled from the
    specification.
    \<^item> \<open>EventState\<close> holds state deltas, the fold, sessions with their
      logs, and the session service's store.
    \<^item> \<open>Agents\<close> holds leaf (tool-invocation loop), Sequential, Parallel and
      Loop execution, the invocation context and branches, and \<open>Runner.run\<close>.
  \<^item> The sample agent trees of src/unnamed/part_001 (simple_sequential_agent,
    parallel_agent) and src/dev/samples/loop_agent.ts (the LoopAgent root_agent
    over monitor_temperature_agent) are modelled in \<open>SampleAgents\<close> as runtime
    agents. Their FunctionTools become runtime tools, which decode their
    arguments and call the functions of \<open>SampleTools\<close>. The language model is
    a parameter: a function from the visible events to the next turn.
  \<^item> The web server tests (the second part of src/dev/samples/loop_agent.ts) are
    modelled in \<open>WebClient\<close>: the mock HTTP client, whose response object turns
    the app's calls (\<open>status\<close>, \<open>send\<close>, \<open>json\<close>, \<open>write\<close>, \<open>end\<close>) into
    the settled promise, the custom \<open>TestAgent\<close>, the reading of the event
    stream in the run_sse test, and the verdicts of the tests' two ways of
    expecting a status. \<open>WebTests\<close> turns each test of the file into a verdict
    on the app's replies. The server itself is not in the repository: an app is
    the list of calls it makes on the response.
  \<^item> \<open>WebServices\<close> models the services behind those tests, from the
    specification (section 6): the session service as the keys it holds, and the
    artifact service as the versions of each file. It also models the
    \<open>beforeEach\<close> fixture, which creates fresh services, and each test's setup.
    The specification leaves version numbers open; the model counts them from 0,
    the number the tests' route \<open>/versions/0\<close> reads.
  \<^item> This theory joins the CLI to that runtime. \<open>adk_services\<close> implements the
    CLI's \<open>services\<close> with \<open>create_session\<close>, \<open>run\<close> and \<open>append_to\<close>.

  \<^bold>\<open>What is proved.\<close>
  \<^item> Renderer: it fails exactly on a nested empty Sequential or Loop agent.
    Every edge joins drawn nodes or names of composite agents, which are drawn as
    clusters under another name.
    It draws the sequential chain and the loop ring, the tools of an LlmAgent,
    and the edge styles. The root is drawn first, and, with no highlighted
    edges, every sub-agent of a composite root is drawn twice.
    The six tests of agent_graph_test.ts check the graph as the code builds it:
    every expectation that names no emoji holds for every serialiser that meets
    the contract. The captions carry the mis-encoded icons of the source, so
    printed line by line every one of the six tests fails on its labels.
  \<^item> Tools: \<open>check_prime\<close> reports exactly the primes of its input. The dice and
    temperature tools range over exactly their documented values.
  \<^item> Gemini configuration: the credentials a constructed client holds, the
    Gemini 3 switch between Vertex AI and API key, the endpoint resolution, and
    the removal of display names on the Gemini API backend.
    \<open>connect\<close> throws on a request without a live configuration. Otherwise it
    merges the tracking headers and sets the API version, the system instruction
    and the tools. A second call on the request it completed passes the same
    arguments again.
    Once the detection tests pass, the instance-creation tests pass in every
    environment; they would not if the model were not recognised.
  \<^item> Test configuration: vitest collects exactly the files whose name ends in
    \<open>_test.ts\<close>, in any directory. So it runs the two test files of the
    repository, but not src/dev/samples/loop_agent.ts, which holds the web server
    tests.
  \<^item> Streaming: revision 1 conserves the streamed text when the stream ends with
    STOP, and forwards every chunk once, in order.
  \<^item> Revision 2 without Gemini 3 is revision 1. With Gemini 3, every function-call
    response carries a thought signature once one is cached, also in later
    calls, since the cache is never reset (a lemma: the comment on the field
    says it is reset at each call). With Gemini 3, a text chunk that carries a
    function call discards the text and thought accumulated before it, which
    revision 1 keeps.
  \<^item> CLI: the interactive loop returns exactly on \<open>exit\<close>, and it is the
    reference loop over the non-blank lines before it. Input-file mode runs every
    query. Saved events print like live ones, and the name a session is saved
    under is the line after \<open>exit\<close>, joined to the agent path by
    \<open>path.join\<close>, which is plain concatenation with \<open>/\<close> for an agent path in
    normal form and a plain name.
  \<^item> Runtime, from the specification, as lemmas of \<open>EventState\<close> and
    \<open>Agents\<close>:
    \<^item> fold determinism, and consistency of the store under append and run;
    \<^item> Sequential ordering and visibility;
    \<^item> Parallel isolation, exactly-once forwarding and per-key merge;
    \<^item> Loop termination by the cap and by escalation;
    \<^item> event origin (invocation and branch);
    \<^item> the Runner's fail-fast and its append-then-forward.
  \<^item> Sample agents, by these lemmas in \<open>SampleAgents\<close>:
    \<^item> simple_sequential_agent runs roll_agent before prime_agent, which sees
      roll_agent's events;
    \<^item> parallel_agent isolates its two branches, forwards each event once,
      and merges per key;
    \<^item> the LoopAgent root_agent ends, and stops at an escalation;
    \<^item> the tool loop of monitor_temperature_agent reads the temperature,
      notifies the user, and answers.
  \<^item> Test client: the run_sse parsing gives back the streamed payloads; an error
    status reaches the test only through \<open>json\<close> (\<open>send\<close> and \<open>end\<close> throw); the
    promise settles once; the tests that expect an error inside \<open>try\<close> pass on
    a successful reply.
  \<^item> Services: a saved artifact version loads back, and calls that do not delete
    a file keep every version of it; each test's setup gives the services the
    test reads.
  \<^item> Across components: the runtime's services keep every session's state
    equal to the fold of its log, and replaying a saved session through the CLI
    reproduces its state.

  \<^bold>\<open>Fuel and bounds.\<close>
  \<^item> Agent execution takes fuel, because a Loop without a cap, or a model that
    keeps calling tools, never ends; \<open>None\<close> is running out of fuel.
  \<^item> \<open>exec_mono_le\<close> shows that more fuel never changes a result. The results
    are stated at the fuel they need, e.g. \<open>k + 5\<close> for a Loop of \<open>k\<close>
    iterations.
  \<^item> The CLI's interactive loop is structural recursion over the typed lines. If
    the input ends before \<open>exit\<close>, the loop is a result with no remaining
    input: the promise of \<open>getUserInput\<close> never resolves.

  \<^bold>\<open>Not modelled.\<close>
  \<^item> The text ts-graphviz prints beyond the contract's fragments (indentation,
    nesting, order), logging, the headers of the API clients, and the SDK
    objects the Gemini code builds and calls.
  \<^item> The live session that \<open>live.connect\<close> opens, the agent loader, and the JSON
    file I/O of the CLI (their results are parameters).
  \<^item> The two tracking-header tests of google_llm_test.ts: they read a getter
    of the library class \<open>BaseLlm\<close>. \<open>isGemini3Model\<close> and
    \<open>isGemini3PreviewModel\<close> lie outside the sources. The web server itself
    is library code whose routes the specification does not give: it is not
    modelled, and no web test is run against a server. Vitest's default
    excludes are not modelled, nor the memory service and the agent loader stub of
    the web tests' fixture, which the modelled tests do not read.
  \<^item> In \<open>drawEdge\<close>, the node that \<open>graph.node(name)\<close> creates on the
    enclosing graph for a highlighted edge whose end is not drawn there (lines
    145 and 152). The properties about highlighted drawings speak of edges only,
    and the double drawing is stated with no highlights.
  \<^item> The Agent-as-Tool adapter in the runtime: a tool that runs an agent would make
    the agent and tool types mutually recursive; the renderer draws AgentTools.
  \<^item> Strings are lists of 8-bit characters. JavaScript's UTF-16 strings agree with
    them on the ASCII texts the code compares.
\<close>

section \<open>The command-line runner on the runtime\<close>

text \<open>
  The services the CLI uses, implemented by the session service and Runner of
  \<open>Agents\<close>: the CLI's \<open>runner.runAsync\<close> on a user message is \<open>run\<close> with that
  input; a run that fails or does not finish within the fuel leaves the store as it
  was and yields nothing. The CLI prints an event's text part and one part without
  text per function call.
\<close>

definition adk_view :: "event \<Rightarrow> cli_event" where
  "adk_view e = \<lparr>ev_author = e_author e,
     ev_content = (if e_text e = None \<and> e_calls e = [] then None
                   else Some (Some ((case e_text e of None \<Rightarrow> [] | Some t \<Rightarrow> [Some t]) @ map (\<lambda>_. None) (e_calls e))))\<rparr>"

definition adk_services :: "nat \<Rightarrow> schedule \<Rightarrow> rt_agent \<Rightarrow> (store, event) services" where
  "adk_services fuel sch ra =
     \<lparr>svc_create = (\<lambda>app u st db. create_session app u st db),
      svc_run = (\<lambda>sid q db. case run fuel sch ra sid (Some q) db of
                   Inr (Some (db', es)) \<Rightarrow> (db', es) | _ \<Rightarrow> (db, [])),
      svc_append = (\<lambda>sid e db. case append_to sid e db of Inr db' \<Rightarrow> db' | Inl _ \<Rightarrow> db),
      svc_view = adk_view\<rparr>"

lemma adk_services_preserve: "svc_preserves store_inv (adk_services fuel sch ra)"
proof -
  have cr: "store_inv (fst (svc_create (adk_services fuel sch ra) app u st db))" if "store_inv db" for app u st db
    using that by (simp add: adk_services_def create_session_inv)
  have rn: "store_inv (fst (svc_run (adk_services fuel sch ra) sid q db))" if a: "store_inv db" for sid q db
  proof (cases "run fuel sch ra sid (Some q) db")
    case (Inl err)
    then show ?thesis using a by (simp add: adk_services_def)
  next
    case (Inr r)
    show ?thesis
    proof (cases r)
      case None
      then show ?thesis using Inr a by (simp add: adk_services_def)
    next
      case (Some p)
      obtain db' es where p: "p = (db', es)" by fastforce
      have "store_inv db'" using run_persists [OF a] Inr Some p by blast
      then show ?thesis using Inr Some p by (simp add: adk_services_def)
    qed
  qed
  have ap: "store_inv (svc_append (adk_services fuel sch ra) sid e db)" if a: "store_inv db" for sid e db
    using a append_to_inv [OF a, of sid e] by (simp add: adk_services_def split: sum.splits)
  show ?thesis unfolding svc_preserves_def using cr rn ap by blast
qed

lemma replay_events_adk:
  "st_sessions db sid = Some s \<Longrightarrow> s_id s = sid
    \<Longrightarrow> st_sessions (fst (replay_events (adk_services fuel sch ra) sid evs db)) sid = Some (append_all s evs)"
proof (induction evs arbitrary: db s)
  case Nil
  then show ?case by simp
next
  case (Cons e evs)
  let ?db = "put_session (append_event s e) db"
  have "svc_append (adk_services fuel sch ra) sid e db = ?db"
    using Cons.prems by (simp add: adk_services_def append_to_def)
  moreover have "st_sessions ?db sid = Some (append_event s e)" using Cons.prems by (simp add: put_session_def)
  moreover have "s_id (append_event s e) = sid" using Cons.prems by simp
  ultimately show ?case using Cons.IH by (simp add: split_def Let_def)
qed

text \<open>
  C31. Replaying a saved session through the CLI reproduces its state: the new
  session receives the saved events in order and its state is the fold of their
  deltas, as the log replayed from the empty state gives.
\<close>

theorem cli_replays_saved_session:
  assumes "js_truthy (o_savedSessionFile opts)" and "\<not> js_truthy (o_inputFile opts)"
  shows "\<exists>s. st_sessions (ar_state (runAgent (adk_services fuel sch ra) opts nm inF (Some evs) now [''exit''] db))
      (ar_session (runAgent (adk_services fuel sch ra) opts nm inF (Some evs) now [''exit''] db)) = Some s
    \<and> s_state s = fold_events evs \<and> replay s = fold_events evs"
proof -
  define sid where "sid = st_next db"
  define db1 where "db1 = fst (create_session nm ''test_user'' Map.empty db)"
  have c: "svc_create (adk_services fuel sch ra) nm ''test_user'' Map.empty db = (db1, sid)"
    by (simp add: adk_services_def create_session_def Let_def db1_def sid_def)
  have s1: "st_sessions db1 sid = Some (new_session nm ''test_user'' sid Map.empty)"
    by (simp add: db1_def create_session_def Let_def sid_def)
  have r: "st_sessions (fst (replay_events (adk_services fuel sch ra) sid evs db1)) sid
      = Some (append_all (new_session nm ''test_user'' sid Map.empty) evs)"
    using replay_events_adk [OF s1] by simp
  have "runAgent (adk_services fuel sch ra) opts nm inF (Some evs) now [''exit''] db
      = finish_run opts (fst (replay_events (adk_services fuel sch ra) sid evs db1))
          (snd (replay_events (adk_services fuel sch ra) sid evs db1)) sid (Some [])"
    using assms c by (simp add: runAgent_def Let_def split_def del: replay_events.simps)
  moreover have "session_inv (append_all (new_session nm ''test_user'' sid Map.empty) evs)"
    by (rule append_all_inv) simp
  ultimately show ?thesis using r
    by (auto simp: session_inv_def append_all_fields fold_events_def)
qed


theorem cli_replays_saved_session_witness:
  "\<exists>s. st_sessions (ar_state (runAgent (adk_services 20 (\<lambda>_. []) (loop_root_agent echo_model (\<lambda>_. ''35'') (1/2))) \<lparr>o_agentPath = ''agents/a'', o_inputFile = None, o_savedSessionFile = Some ''s.json'', o_saveSession = False, o_sessionId = None\<rparr> ''A'' None (Some [model_event demo_ctx ((text_turn ''a'')\<lparr>t_delta := [''x'' \<mapsto> ''1'']\<rparr>)]) ''t'' [''exit''] \<lparr>st_sessions = Map.empty, st_next = 0, st_invocations = 0\<rparr>))
      (ar_session (runAgent (adk_services 20 (\<lambda>_. []) (loop_root_agent echo_model (\<lambda>_. ''35'') (1/2))) \<lparr>o_agentPath = ''agents/a'', o_inputFile = None, o_savedSessionFile = Some ''s.json'', o_saveSession = False, o_sessionId = None\<rparr> ''A'' None (Some [model_event demo_ctx ((text_turn ''a'')\<lparr>t_delta := [''x'' \<mapsto> ''1'']\<rparr>)]) ''t'' [''exit''] \<lparr>st_sessions = Map.empty, st_next = 0, st_invocations = 0\<rparr>)) = Some s
    \<and> s_state s = fold_events [model_event demo_ctx ((text_turn ''a'')\<lparr>t_delta := [''x'' \<mapsto> ''1'']\<rparr>)] \<and> replay s = fold_events [model_event demo_ctx ((text_turn ''a'')\<lparr>t_delta := [''x'' \<mapsto> ''1'']\<rparr>)]"
  by (rule cli_replays_saved_session) simp_all

end
